(* ===== verification/Qot_Prelude.thy ===== *)
theory Qot_Prelude
  imports Main "HOL-Library.Word" "HOL-Library.Monad_Syntax" "HOL-Library.Sublist"
begin

text \<open>
  The prelude of the development: the machine integers of the C++ code, the
  collections of facts the component theories add to, and generic lemmas on
  words, lists, options and association lists that several components use.

  The stack is compiled for a platform where \<open>long\<close>, \<open>uint64_t\<close> and
  \<open>int64_t\<close> are 64 bits wide and \<open>int\<close> is 32 bits wide.  A 64-bit quantity is a
  \<open>64 word\<close> (the signed ones are read through \<open>sint\<close> and compared with
  \<open><s\<close>); an \<open>int\<close> that is only ever incremented is a HOL \<open>int\<close> whose
  increment is wrapped by \<open>s32\<close>.
\<close>

type_synonym u64 = "64 word"
type_synonym s64 = "64 word"

text \<open>The collections: \<open>wf_intros\<close> the preservation lemmas of the component
  invariants, \<open>arith_facts\<close> the word facts used by the time arithmetic.\<close>

named_theorems wf_intros
named_theorems word_facts

section \<open>32-bit wrap-around\<close>

text \<open>The value an \<open>int\<close> holds after its mathematical value is reduced to 32
  bits (two's complement, as the compilers the code is built with do).\<close>

definition s32 :: "int \<Rightarrow> int" where
  "s32 i = (i + 2 ^ 31) mod 2 ^ 32 - 2 ^ 31"

definition int32 :: "int \<Rightarrow> bool" where
  "int32 i \<longleftrightarrow> - (2 ^ 31) \<le> i \<and> i < 2 ^ 31"

lemma s32_id [simp]: "int32 i \<Longrightarrow> s32 i = i"
  by (simp add: s32_def int32_def)

lemma int32_s32 [simp, intro]: "int32 (s32 i)"
proof -
  have "0 \<le> (i + 2 ^ 31) mod 2 ^ 32" "(i + 2 ^ 31) mod 2 ^ 32 < (2::int) ^ 32"
    by simp_all
  then show ?thesis
    by (simp add: s32_def int32_def)
qed

lemma s32_suc_neg: "0 \<le> i \<Longrightarrow> i < 2 ^ 31 \<Longrightarrow> s32 (i + 1) < 0 \<Longrightarrow> i = 2 ^ 31 - 1"
  by (cases "i + 1 < 2 ^ 31") (simp_all add: s32_def)

lemma s32_suc_small: "0 \<le> i \<Longrightarrow> i < 2 ^ 31 - 1 \<Longrightarrow> s32 (i + 1) = i + 1"
  by (simp add: s32_def)

section \<open>64-bit words\<close>

lemma unat_add_nowrap [word_facts]:
  fixes a b :: "64 word"
  assumes "unat a + unat b < 2 ^ 64"
  shows "unat (a + b) = unat a + unat b"
  using assms by (simp add: unat_word_ariths)

lemma unat_mult_nowrap [word_facts]:
  fixes a b :: "64 word"
  assumes "unat a * unat b < 2 ^ 64"
  shows "unat (a * b) = unat a * unat b"
  using assms by (simp add: unat_word_ariths)

lemma unat_sub_le [word_facts]:
  fixes a b :: "64 word"
  assumes "b \<le> a"
  shows "unat (a - b) = unat a - unat b"
  using assms by (simp add: unat_sub)

lemma word_div_mod_eq:
  fixes a b :: "64 word"
  shows "a - b * (a div b) = a mod b"
  by (metis add_diff_cancel_left' mult_div_mod_eq)

lemma unat_lt64 [simp]: "unat (w :: 64 word) < 18446744073709551616"
  using unsigned_less [of w, where ?'a = nat] by simp

lemma uint_lt64 [simp]: "uint (w :: 64 word) < 18446744073709551616"
  using unsigned_less [of w, where ?'a = int] by simp

lemma sint_range64: "- (2 ^ 63) \<le> sint (w :: 64 word) \<and> sint w < 2 ^ 63"
  using sint_greater_eq [of w] sint_less [of w] by simp

lemma sint_add_nowrap [word_facts]:
  fixes a b :: "64 word"
  assumes "- (2 ^ 63) \<le> sint a + sint b" "sint a + sint b < 2 ^ 63"
  shows "sint (a + b) = sint a + sint b"
  using assms by (simp add: sint_word_ariths signed_take_bit_int_eq_self)

lemma sint_sub_nowrap [word_facts]:
  fixes a b :: "64 word"
  assumes "- (2 ^ 63) \<le> sint a - sint b" "sint a - sint b < 2 ^ 63"
  shows "sint (a - b) = sint a - sint b"
  using assms by (simp add: sint_word_ariths signed_take_bit_int_eq_self)

lemma sint_eq_uint_small [word_facts]:
  fixes a :: "64 word"
  assumes "uint a < 2 ^ 63"
  shows "sint a = uint a"
proof -
  have "- (2 ^ 63) \<le> (0 :: int)"
    by simp
  also have "0 \<le> uint a"
    by simp
  finally have "- (2 ^ 63) \<le> uint a" .
  with assms show ?thesis
    by (simp add: sint_uint) (rule signed_take_bit_int_eq_self, simp_all)
qed

lemma sint_eqI:
  fixes w :: "64 word"
  assumes "w = word_of_int v" "- (2 ^ 63) \<le> v" "v < 2 ^ 63"
  shows "sint w = v"
  using assms by (simp add: sint_sbintrunc' signed_take_bit_int_eq_self)

lemma word_sless_sint: "(a <s b) = (sint a < sint b)"
  by (simp add: word_sless_alt)

lemma word_sle_sint: "(a \<le>s b) = (sint a \<le> sint b)"
  by (simp add: word_sle_eq)

section \<open>Lists, options and association lists\<close>

lemma Max_set_ge: "x \<in> set xs \<Longrightarrow> x \<le> Max (set xs)"
  by simp

lemma take_Cons_take: "take n (x # take n xs) = take n (x # xs)"
  by (cases n) (simp_all add: min_def)

lemma bind_Some_iff: "(x \<bind> f = Some y) \<longleftrightarrow> (\<exists>a. x = Some a \<and> f a = Some y)"
  by (cases x) simp_all

lemma bind_None_iff: "(x \<bind> f = None) \<longleftrightarrow> (x = None \<or> (\<exists>a. x = Some a \<and> f a = None))"
  by (cases x) simp_all

end
