(* ===== verification/Time_Math.thy ===== *)
theory Time_Math
  imports Qot_Prelude
begin

text \<open>
  The time arithmetic of \<open>src/src/qot_types.h\<close>: lengths of time (unsigned
  seconds and attoseconds), points in time (signed seconds and unsigned
  attoseconds, so that the instant is always \<open>sec + asec / 10 ^ 18\<close>), their
  conversions from and to scalars and \<open>timespec\<close>, and the uncertain variants.

  The functions of the header overwrite their first argument; here they return
  it.  Pointer arguments a function checks against \<open>NULL\<close> are options.  The
  value functions \<open>tl_val\<close> and \<open>tp_val\<close> are the specification: the length or
  instant, in attoseconds, that a structure stands for.
\<close>

section \<open>Ratios\<close>

definition SEC_PER_SEC :: u64 where "SEC_PER_SEC = 1"
definition mSEC_PER_SEC :: u64 where "mSEC_PER_SEC = 1000"
definition uSEC_PER_SEC :: u64 where "uSEC_PER_SEC = 1000000"
definition nSEC_PER_SEC :: u64 where "nSEC_PER_SEC = 1000000000"
definition pSEC_PER_SEC :: u64 where "pSEC_PER_SEC = 1000000000000"
definition fSEC_PER_SEC :: u64 where "fSEC_PER_SEC = 1000000000000000"
definition aSEC_PER_SEC :: u64 where "aSEC_PER_SEC = 1000000000000000000"

lemmas ratio_defs = SEC_PER_SEC_def mSEC_PER_SEC_def uSEC_PER_SEC_def nSEC_PER_SEC_def
  pSEC_PER_SEC_def fSEC_PER_SEC_def aSEC_PER_SEC_def

section \<open>Lengths of time\<close>

record timelength =
  tl_sec :: u64
  tl_asec :: u64

definition scalar_to_timelength :: "u64 \<Rightarrow> u64 \<Rightarrow> u64 \<Rightarrow> timelength" where
  "scalar_to_timelength t dv ml =
     (if t = 0 \<or> dv = 0 \<or> ml = 0 then \<lparr>tl_sec = 0, tl_asec = 0\<rparr>
      else let sec = t div dv;
               asec = t - dv * sec
           in \<lparr>tl_sec = sec, tl_asec = asec * ml\<rparr>)"

definition timelength_add :: "timelength \<Rightarrow> timelength \<Rightarrow> timelength" where
  "timelength_add l1 l2 =
     (let asec = tl_asec l1 + tl_asec l2;
          sec = tl_sec l1 + tl_sec l2;
          tm = asec div aSEC_PER_SEC
      in \<lparr>tl_sec = sec + tm, tl_asec = asec - tm * aSEC_PER_SEC\<rparr>)"

definition timelength_cmp :: "timelength option \<Rightarrow> timelength option \<Rightarrow> int" where
  "timelength_cmp p1 p2 =
     (case (p1, p2) of
        (Some l1, Some l2) \<Rightarrow>
          if tl_sec l1 > tl_sec l2 then - 1
          else if tl_sec l1 < tl_sec l2 then 1
          else if tl_asec l1 > tl_asec l2 then - 1
          else if tl_asec l1 < tl_asec l2 then 1
          else 0
      | _ \<Rightarrow> 0)"

text \<open>The destination of \<open>timelength_max\<close> and \<open>timelength_min\<close> is a pointer too;
  the result is what it points to afterwards.\<close>

definition timelength_max ::
  "timelength option \<Rightarrow> timelength option \<Rightarrow> timelength option \<Rightarrow> timelength option" where
  "timelength_max sol l1 l2 =
     (if sol = None \<or> l1 = None \<or> l2 = None then sol
      else if timelength_cmp l1 l2 < 0 then l1 else l2)"

definition timelength_min ::
  "timelength option \<Rightarrow> timelength option \<Rightarrow> timelength option \<Rightarrow> timelength option" where
  "timelength_min sol l1 l2 =
     (if sol = None \<or> l1 = None \<or> l2 = None then sol
      else if timelength_cmp l1 l2 > 0 then l1 else l2)"

definition TL_FROM_SEC :: "u64 \<Rightarrow> timelength" where
  "TL_FROM_SEC t = scalar_to_timelength t SEC_PER_SEC aSEC_PER_SEC"
definition TL_FROM_mSEC :: "u64 \<Rightarrow> timelength" where
  "TL_FROM_mSEC t = scalar_to_timelength t mSEC_PER_SEC fSEC_PER_SEC"
definition TL_FROM_uSEC :: "u64 \<Rightarrow> timelength" where
  "TL_FROM_uSEC t = scalar_to_timelength t uSEC_PER_SEC pSEC_PER_SEC"
definition TL_FROM_nSEC :: "u64 \<Rightarrow> timelength" where
  "TL_FROM_nSEC t = scalar_to_timelength t nSEC_PER_SEC nSEC_PER_SEC"
definition TL_FROM_pSEC :: "u64 \<Rightarrow> timelength" where
  "TL_FROM_pSEC t = scalar_to_timelength t pSEC_PER_SEC uSEC_PER_SEC"
definition TL_FROM_fSEC :: "u64 \<Rightarrow> timelength" where
  "TL_FROM_fSEC t = scalar_to_timelength t fSEC_PER_SEC mSEC_PER_SEC"
definition TL_FROM_aSEC :: "u64 \<Rightarrow> timelength" where
  "TL_FROM_aSEC t = scalar_to_timelength t aSEC_PER_SEC SEC_PER_SEC"

lemmas TL_FROM_defs = TL_FROM_SEC_def TL_FROM_mSEC_def TL_FROM_uSEC_def TL_FROM_nSEC_def
  TL_FROM_pSEC_def TL_FROM_fSEC_def TL_FROM_aSEC_def

definition TL_TO_GEN :: "timelength \<Rightarrow> u64 \<Rightarrow> u64 \<Rightarrow> u64" where
  "TL_TO_GEN d f1 f2 = tl_sec d * f1 + tl_asec d div f2"

definition TL_TO_SEC :: "timelength \<Rightarrow> u64" where
  "TL_TO_SEC d = TL_TO_GEN d SEC_PER_SEC aSEC_PER_SEC"
definition TL_TO_mSEC :: "timelength \<Rightarrow> u64" where
  "TL_TO_mSEC d = TL_TO_GEN d mSEC_PER_SEC fSEC_PER_SEC"
definition TL_TO_uSEC :: "timelength \<Rightarrow> u64" where
  "TL_TO_uSEC d = TL_TO_GEN d uSEC_PER_SEC pSEC_PER_SEC"
definition TL_TO_nSEC :: "timelength \<Rightarrow> u64" where
  "TL_TO_nSEC d = TL_TO_GEN d nSEC_PER_SEC nSEC_PER_SEC"
definition TL_TO_pSEC :: "timelength \<Rightarrow> u64" where
  "TL_TO_pSEC d = TL_TO_GEN d pSEC_PER_SEC uSEC_PER_SEC"
definition TL_TO_fSEC :: "timelength \<Rightarrow> u64" where
  "TL_TO_fSEC d = TL_TO_GEN d fSEC_PER_SEC mSEC_PER_SEC"
definition TL_TO_aSEC :: "timelength \<Rightarrow> u64" where
  "TL_TO_aSEC d = TL_TO_GEN d aSEC_PER_SEC SEC_PER_SEC"

lemmas TL_TO_defs = TL_TO_SEC_def TL_TO_mSEC_def TL_TO_uSEC_def TL_TO_nSEC_def
  TL_TO_pSEC_def TL_TO_fSEC_def TL_TO_aSEC_def

section \<open>Points in time\<close>

record timepoint =
  tp_sec :: s64
  tp_asec :: u64

definition llabs :: "s64 \<Rightarrow> u64" where
  "llabs t = (if t <s 0 then - t else t)"

definition scalar_to_timepoint :: "s64 \<Rightarrow> u64 \<Rightarrow> u64 \<Rightarrow> timepoint" where
  "scalar_to_timepoint t dv ml =
     (if t = 0 \<or> dv = 0 \<or> ml = 0 then \<lparr>tp_sec = 0, tp_asec = 0\<rparr>
      else let neg = t <s 0;
               tm = llabs t;
               sec = tm div dv;
               asec = tm - dv * sec
           in if neg then
                let sec' = - sec; asec' = asec * ml
                in if asec' \<noteq> 0 then \<lparr>tp_sec = sec' - 1, tp_asec = aSEC_PER_SEC - asec'\<rparr>
                   else \<lparr>tp_sec = sec', tp_asec = asec'\<rparr>
              else \<lparr>tp_sec = sec, tp_asec = asec * ml\<rparr>)"

definition timepoint_add :: "timepoint \<Rightarrow> timelength \<Rightarrow> timepoint" where
  "timepoint_add t v =
     (let asec = tp_asec t + tl_asec v;
          sec = tp_sec t + tl_sec v;
          tm = asec div aSEC_PER_SEC
      in \<lparr>tp_sec = sec + tm, tp_asec = asec - tm * aSEC_PER_SEC\<rparr>)"

definition timepoint_sub :: "timepoint \<Rightarrow> timelength \<Rightarrow> timepoint" where
  "timepoint_sub t v =
     (let sec = tp_sec t - tl_sec v
      in if tp_asec t < tl_asec v
         then \<lparr>tp_sec = sec - 1, tp_asec = aSEC_PER_SEC - (tl_asec v - tp_asec t)\<rparr>
         else \<lparr>tp_sec = sec, tp_asec = tp_asec t - tl_asec v\<rparr>)"

definition timepoint_cmp :: "timepoint option \<Rightarrow> timepoint option \<Rightarrow> int" where
  "timepoint_cmp p1 p2 =
     (case (p1, p2) of
        (Some t1, Some t2) \<Rightarrow>
          if tp_sec t2 <s tp_sec t1 then - 1
          else if tp_sec t1 <s tp_sec t2 then 1
          else if tp_asec t1 > tp_asec t2 then - 1
          else if tp_asec t1 < tp_asec t2 then 1
          else 0
      | _ \<Rightarrow> 0)"

text \<open>The absolute value of the difference of the seconds is the 64-bit
  overload that C++ selects (in C the call would truncate to \<open>int\<close> first).\<close>

definition timepoint_diff ::
  "timelength option \<Rightarrow> timepoint option \<Rightarrow> timepoint option \<Rightarrow> timelength option" where
  "timepoint_diff v p1 p2 =
     (case (v, p1, p2) of
        (Some _, Some t1, Some t2) \<Rightarrow>
          Some \<lparr>tl_sec = llabs (tp_sec t1 - tp_sec t2),
                tl_asec = (if tp_asec t2 > tp_asec t1 then tp_asec t2 - tp_asec t1
                           else tp_asec t1 - tp_asec t2)\<rparr>
      | _ \<Rightarrow> v)"

record timespec =
  tv_sec :: s64
  tv_nsec :: s64

definition timepoint_from_timespec :: "timespec \<Rightarrow> timepoint" where
  "timepoint_from_timespec ts = \<lparr>tp_sec = tv_sec ts, tp_asec = tv_nsec ts * nSEC_PER_SEC\<rparr>"

definition timespec_from_timepoint :: "timepoint \<Rightarrow> timespec" where
  "timespec_from_timepoint t = \<lparr>tv_sec = tp_sec t, tv_nsec = tp_asec t div nSEC_PER_SEC\<rparr>"

definition TP_FROM_SEC :: "s64 \<Rightarrow> timepoint" where
  "TP_FROM_SEC t = scalar_to_timepoint t SEC_PER_SEC aSEC_PER_SEC"
definition TP_FROM_mSEC :: "s64 \<Rightarrow> timepoint" where
  "TP_FROM_mSEC t = scalar_to_timepoint t mSEC_PER_SEC fSEC_PER_SEC"
definition TP_FROM_uSEC :: "s64 \<Rightarrow> timepoint" where
  "TP_FROM_uSEC t = scalar_to_timepoint t uSEC_PER_SEC pSEC_PER_SEC"
definition TP_FROM_nSEC :: "s64 \<Rightarrow> timepoint" where
  "TP_FROM_nSEC t = scalar_to_timepoint t nSEC_PER_SEC nSEC_PER_SEC"
definition TP_FROM_pSEC :: "s64 \<Rightarrow> timepoint" where
  "TP_FROM_pSEC t = scalar_to_timepoint t pSEC_PER_SEC uSEC_PER_SEC"
definition TP_FROM_fSEC :: "s64 \<Rightarrow> timepoint" where
  "TP_FROM_fSEC t = scalar_to_timepoint t fSEC_PER_SEC mSEC_PER_SEC"
definition TP_FROM_aSEC :: "s64 \<Rightarrow> timepoint" where
  "TP_FROM_aSEC t = scalar_to_timepoint t aSEC_PER_SEC SEC_PER_SEC"

lemmas TP_FROM_defs = TP_FROM_SEC_def TP_FROM_mSEC_def TP_FROM_uSEC_def TP_FROM_nSEC_def
  TP_FROM_pSEC_def TP_FROM_fSEC_def TP_FROM_aSEC_def

text \<open>In \<open>TP_TO_GEN\<close> the signed seconds meet an unsigned factor, so the whole
  expression is computed modulo \<open>2 ^ 64\<close>.\<close>

definition TP_TO_GEN :: "timepoint \<Rightarrow> u64 \<Rightarrow> u64 \<Rightarrow> u64" where
  "TP_TO_GEN d f1 f2 = tp_sec d * f1 + tp_asec d div f2"

definition TP_TO_SEC :: "timepoint \<Rightarrow> u64" where
  "TP_TO_SEC d = TP_TO_GEN d SEC_PER_SEC aSEC_PER_SEC"
definition TP_TO_mSEC :: "timepoint \<Rightarrow> u64" where
  "TP_TO_mSEC d = TP_TO_GEN d mSEC_PER_SEC fSEC_PER_SEC"
definition TP_TO_uSEC :: "timepoint \<Rightarrow> u64" where
  "TP_TO_uSEC d = TP_TO_GEN d uSEC_PER_SEC pSEC_PER_SEC"
definition TP_TO_nSEC :: "timepoint \<Rightarrow> u64" where
  "TP_TO_nSEC d = TP_TO_GEN d nSEC_PER_SEC nSEC_PER_SEC"
definition TP_TO_pSEC :: "timepoint \<Rightarrow> u64" where
  "TP_TO_pSEC d = TP_TO_GEN d pSEC_PER_SEC uSEC_PER_SEC"
definition TP_TO_fSEC :: "timepoint \<Rightarrow> u64" where
  "TP_TO_fSEC d = TP_TO_GEN d fSEC_PER_SEC mSEC_PER_SEC"
definition TP_TO_aSEC :: "timepoint \<Rightarrow> u64" where
  "TP_TO_aSEC d = TP_TO_GEN d aSEC_PER_SEC SEC_PER_SEC"

lemmas TP_TO_defs = TP_TO_SEC_def TP_TO_mSEC_def TP_TO_uSEC_def TP_TO_nSEC_def
  TP_TO_pSEC_def TP_TO_fSEC_def TP_TO_aSEC_def

section \<open>Intervals and uncertain times\<close>

record timeinterval =
  below :: timelength
  above :: timelength

record utimepoint =
  utp_estimate :: timepoint
  utp_interval :: timeinterval

record utimelength =
  utl_estimate :: timelength
  utl_interval :: timeinterval

record timequality =
  tq_resolution :: timelength
  tq_accuracy :: timeinterval

definition utimepoint_add :: "utimepoint \<Rightarrow> utimelength \<Rightarrow> utimepoint" where
  "utimepoint_add t v =
     \<lparr>utp_estimate = timepoint_add (utp_estimate t) (utl_estimate v),
      utp_interval = \<lparr>below = timelength_add (below (utp_interval t)) (below (utl_interval v)),
                      above = timelength_add (above (utp_interval t)) (above (utl_interval v))\<rparr>\<rparr>"

definition utimepoint_sub :: "utimepoint \<Rightarrow> utimelength \<Rightarrow> utimepoint" where
  "utimepoint_sub t v =
     \<lparr>utp_estimate = timepoint_sub (utp_estimate t) (utl_estimate v),
      utp_interval = \<lparr>below = timelength_add (below (utp_interval t)) (below (utl_interval v)),
                      above = timelength_add (above (utp_interval t)) (above (utl_interval v))\<rparr>\<rparr>"

section \<open>The value of a length and of a point\<close>

definition tl_val :: "timelength \<Rightarrow> nat" where
  "tl_val l = unat (tl_sec l) * 10 ^ 18 + unat (tl_asec l)"

definition tl_norm :: "timelength \<Rightarrow> bool" where
  "tl_norm l \<longleftrightarrow> unat (tl_asec l) < 10 ^ 18"

definition tp_val :: "timepoint \<Rightarrow> int" where
  "tp_val t = sint (tp_sec t) * 10 ^ 18 + uint (tp_asec t)"

definition tp_norm :: "timepoint \<Rightarrow> bool" where
  "tp_norm t \<longleftrightarrow> uint (tp_asec t) < 10 ^ 18"

lemma unat_aSEC [simp]: "unat aSEC_PER_SEC = 10 ^ 18"
  by (simp add: aSEC_PER_SEC_def)

lemma uint_aSEC [simp]: "uint aSEC_PER_SEC = 10 ^ 18"
  by (simp add: aSEC_PER_SEC_def)

lemma unat_ratios [simp]:
  "unat SEC_PER_SEC = 1" "unat mSEC_PER_SEC = 10 ^ 3" "unat uSEC_PER_SEC = 10 ^ 6"
  "unat nSEC_PER_SEC = 10 ^ 9" "unat pSEC_PER_SEC = 10 ^ 12" "unat fSEC_PER_SEC = 10 ^ 15"
  by (simp_all add: ratio_defs)

text \<open>A remainder scaled to attoseconds does not wrap.\<close>

lemma unat_mod_scaled:
  fixes t dv ml :: u64
  assumes "unat dv * unat ml = 10 ^ 18"
  shows "unat (t mod dv * ml) = unat t mod unat dv * unat ml"
    and "unat t mod unat dv * unat ml < 10 ^ 18"
proof -
  have pos: "0 < unat dv" "0 < unat ml"
    using assms by (auto intro: gr0I)
  have "unat t mod unat dv < unat dv"
    using pos by simp
  then have "unat t mod unat dv * unat ml < unat dv * unat ml"
    using pos(2) by (rule mult_strict_right_mono)
  then show lt: "unat t mod unat dv * unat ml < 10 ^ 18"
    using assms by simp
  then show "unat (t mod dv * ml) = unat t mod unat dv * unat ml"
    by (subst unat_mult_nowrap) (simp_all add: unat_mod)
qed

lemma scaled_mod_div:
  fixes t dv ml :: u64
  assumes "unat dv * unat ml = 10 ^ 18"
  shows "t mod dv * ml div ml = t mod dv"
proof -
  have "0 < unat ml"
    using assms by (auto intro: gr0I)
  then have "unat (t mod dv * ml div ml) = unat (t mod dv)"
    using unat_mod_scaled(1) [OF assms, of t] by (simp add: unat_div unat_mod)
  then show ?thesis
    by (simp add: word_unat_eq_iff)
qed

lemma ratio_nonzero:
  fixes dv ml :: u64
  assumes "unat dv * unat ml = 10 ^ 18"
  shows "dv \<noteq> 0" "ml \<noteq> 0"
  using assms by auto

lemma scalar_to_timelength_val:
  assumes "unat dv * unat ml = 10 ^ 18"
  shows "tl_val (scalar_to_timelength t dv ml) = unat t * unat ml"
    and "tl_norm (scalar_to_timelength t dv ml)"
proof -
  have "unat t div unat dv * 10 ^ 18 + unat t mod unat dv * unat ml
      = (unat t div unat dv * unat dv + unat t mod unat dv) * unat ml"
    by (simp only: assms [symmetric] add_mult_distrib mult.assoc)
  then have "unat t div unat dv * 10 ^ 18 + unat t mod unat dv * unat ml = unat t * unat ml"
    by (simp only: div_mult_mod_eq)
  then show "tl_val (scalar_to_timelength t dv ml) = unat t * unat ml"
    using unat_mod_scaled(1) [OF assms, of t] ratio_nonzero [OF assms]
    by (simp add: tl_val_def scalar_to_timelength_def Let_def word_div_mod_eq unat_div)
  show "tl_norm (scalar_to_timelength t dv ml)"
    using unat_mod_scaled [OF assms, of t] ratio_nonzero [OF assms]
    by (simp add: tl_norm_def scalar_to_timelength_def Let_def word_div_mod_eq)
qed

lemma TL_TO_GEN_scalar:
  assumes "unat dv * unat ml = 10 ^ 18"
  shows "TL_TO_GEN (scalar_to_timelength t dv ml) dv ml = t"
  using ratio_nonzero [OF assms] scaled_mod_div [OF assms, of t]
  by (simp add: TL_TO_GEN_def scalar_to_timelength_def Let_def word_div_mod_eq
      div_mult_mod_eq)

lemma TL_TO_GEN_val:
  assumes "unat dv * unat ml = 10 ^ 18" "tl_val l div unat ml < 2 ^ 64"
  shows "unat (TL_TO_GEN l dv ml) = tl_val l div unat ml"
proof -
  have "0 < unat ml"
    using assms by (auto intro: gr0I)
  then have eq: "tl_val l div unat ml = unat (tl_sec l) * unat dv + unat (tl_asec l) div unat ml"
    unfolding tl_val_def assms(1) [symmetric]
    by (simp add: mult.assoc [symmetric] div_mult_self3)
  then have "unat (tl_sec l) * unat dv < 2 ^ 64"
    using assms(2) by linarith
  then show ?thesis
    using assms(2) eq unfolding TL_TO_GEN_def
    by (simp add: unat_add_nowrap unat_mult_nowrap unat_div)
qed

text \<open>Converting a count to a time length and back in the same unit is the identity on
  64-bit words, for all seven units.\<close>

lemma timelength_scalar_roundtrip:
  "TL_TO_SEC (TL_FROM_SEC t) = t \<and> TL_TO_mSEC (TL_FROM_mSEC t) = t \<and>
   TL_TO_uSEC (TL_FROM_uSEC t) = t \<and> TL_TO_nSEC (TL_FROM_nSEC t) = t \<and>
   TL_TO_pSEC (TL_FROM_pSEC t) = t \<and> TL_TO_fSEC (TL_FROM_fSEC t) = t \<and>
   TL_TO_aSEC (TL_FROM_aSEC t) = t"
  by (simp add: TL_FROM_defs TL_TO_defs TL_TO_GEN_scalar)

lemma timelength_add_val:
  assumes "tl_norm l1" "tl_norm l2" "tl_val l1 + tl_val l2 < 2 ^ 64 * 10 ^ 18"
  shows "tl_val (timelength_add l1 l2) = tl_val l1 + tl_val l2"
    and "tl_norm (timelength_add l1 l2)"
proof -
  let ?a = "tl_asec l1 + tl_asec l2" and ?s = "tl_sec l1 + tl_sec l2"
  have a: "unat ?a = unat (tl_asec l1) + unat (tl_asec l2)"
    using assms(1,2) by (simp add: tl_norm_def unat_add_nowrap)
  let ?tm = "?a div aSEC_PER_SEC"
  have tm: "unat ?tm = unat ?a div 10 ^ 18"
    by (simp add: unat_div)
  have split: "unat ?a = unat ?a div 10 ^ 18 * 10 ^ 18 + unat ?a mod 10 ^ 18"
    by simp
  have tot: "unat (tl_sec l1) + unat (tl_sec l2) + unat ?a div 10 ^ 18 < 2 ^ 64"
  proof -
    define q r where "q = unat ?a div 10 ^ 18" "r = unat ?a mod 10 ^ 18"
    then have "unat (tl_asec l1) + unat (tl_asec l2) = q * 10 ^ 18 + r"
      using a by simp
    with assms(3) show ?thesis
      unfolding tl_val_def q_r_def [symmetric] by simp
  qed
  have s: "unat (?s + ?tm) = unat (tl_sec l1) + unat (tl_sec l2) + unat ?a div 10 ^ 18"
    using tot tm by (simp add: unat_add_nowrap)
  have r: "?a - ?tm * aSEC_PER_SEC = ?a mod aSEC_PER_SEC"
    by (metis word_div_mod_eq mult.commute)
  have ru: "unat (?a mod aSEC_PER_SEC) = unat ?a mod 10 ^ 18"
    by (simp add: unat_mod)
  show "tl_val (timelength_add l1 l2) = tl_val l1 + tl_val l2"
    using s a split by (simp add: timelength_add_def Let_def tl_val_def r ru)
  show "tl_norm (timelength_add l1 l2)"
    by (simp add: timelength_add_def Let_def tl_norm_def r ru)
qed

lemma timelength_value_eq:
  "tl_norm a \<Longrightarrow> tl_norm b \<Longrightarrow>
   (tl_val a < tl_val b) = (tl_sec a < tl_sec b \<or> tl_sec a = tl_sec b \<and> tl_asec a < tl_asec b)"
  unfolding tl_norm_def tl_val_def word_less_nat_alt word_unat_eq_iff
  by (cases "unat (tl_sec a)" "unat (tl_sec b)" rule: linorder_cases) auto

lemma timelength_cmp_sgn:
  assumes "tl_norm a" "tl_norm b"
  shows "timelength_cmp (Some a) (Some b) = sgn (int (tl_val b) - int (tl_val a))"
proof (cases "tl_val a" "tl_val b" rule: linorder_cases)
  case less
  then show ?thesis
    using timelength_value_eq [OF assms] by (auto simp: timelength_cmp_def)
next
  case equal
  then show ?thesis
    using timelength_value_eq [OF assms] timelength_value_eq [OF assms(2,1)]
    by (auto simp: timelength_cmp_def)
next
  case greater
  then show ?thesis
    using timelength_value_eq [OF assms(2,1)] by (auto simp: timelength_cmp_def)
qed

text \<open>The comparison of normalised time lengths is that of their values, with the sign
  reversed as documented, and the maximum and minimum are those of the values.\<close>

lemma timelength_max_min_val:
  assumes "tl_norm a" "tl_norm b"
  shows "timelength_cmp (Some a) (Some b) = sgn (int (tl_val b) - int (tl_val a)) \<and>
         map_option tl_val (timelength_max (Some s) (Some a) (Some b))
           = Some (max (tl_val a) (tl_val b)) \<and>
         map_option tl_val (timelength_min (Some s) (Some a) (Some b))
           = Some (min (tl_val a) (tl_val b))"
  using timelength_cmp_sgn [OF assms]
  by (simp add: timelength_max_def timelength_min_def sgn_if max_def min_def)

section \<open>Points in time\<close>

lemma sint_uint_neg:
  fixes t :: s64
  assumes "sint t < 0"
  shows "uint t = sint t + 2 ^ 64"
proof -
  have "uint t = sint t mod 2 ^ 64"
    by (simp add: uint_sint take_bit_eq_mod)
  also have "sint t mod 2 ^ 64 = (sint t + 2 ^ 64) mod 2 ^ 64"
    by simp
  also have "\<dots> = sint t + 2 ^ 64"
    by (rule mod_pos_pos_trivial) (use assms sint_range64 [of t] in simp_all)
  finally show ?thesis .
qed

lemma sint_uint_nonneg:
  fixes t :: s64
  assumes "0 \<le> sint t"
  shows "uint t = sint t"
proof -
  have "uint t = sint t mod 2 ^ 64"
    by (simp add: uint_sint take_bit_eq_mod)
  also have "\<dots> = sint t"
    by (rule mod_pos_pos_trivial) (use assms sint_range64 [of t] in simp_all)
  finally show ?thesis .
qed

lemma uint_llabs: "uint (llabs t) = \<bar>sint t\<bar>"
proof (cases "sint t < 0")
  case True
  then have "uint (- t) = (- uint t) mod 2 ^ 64"
    by (simp add: uint_word_ariths)
  also have "\<dots> = (- sint t) mod 2 ^ 64"
    using True by (simp add: sint_uint_neg mod_diff_right_eq)
  also have "\<dots> = - sint t"
    by (rule mod_pos_pos_trivial) (use True sint_range64 [of t] in simp_all)
  finally show ?thesis
    using True by (simp add: llabs_def word_sless_sint)
next
  case False
  then show ?thesis
    by (simp add: llabs_def word_sless_sint sint_uint_nonneg)
qed

lemma llabs_neg_eq: "t <s 0 \<Longrightarrow> - llabs t = t"
  by (simp add: llabs_def)

lemma TP_TO_GEN_scalar:
  assumes "unat dv * unat ml = 10 ^ 18"
  shows "TP_TO_GEN (scalar_to_timepoint t dv ml) dv ml = t"
proof -
  let ?tm = "llabs t" let ?q = "llabs t div dv" let ?r = "llabs t mod dv"
  note nz = ratio_nonzero [OF assms]
  note sm = scaled_mod_div [OF assms, of ?tm] unat_mod_scaled [OF assms, of ?tm]
  have prod: "aSEC_PER_SEC = dv * ml"
    using assms by (simp add: word_unat_eq_iff unat_mult_nowrap)
  have rml: "?r * ml = 0 \<longleftrightarrow> ?r = 0"
  proof
    assume "?r * ml = 0"
    then have "?r * ml div ml = 0"
      by simp
    then show "?r = 0"
      by (simp only: sm(1))
  qed simp
  have sub: "(aSEC_PER_SEC - ?r * ml) div ml = dv - ?r"
  proof -
    have "?r \<le> dv"
      using nz(1) by (simp add: word_le_nat_alt unat_mod unat_gt_0 less_imp_le)
    then have "unat (dv - ?r) * unat ml \<le> 10 ^ 18"
      using assms by (metis unat_sub_le diff_le_self mult_le_mono1)
    then have "unat ((dv - ?r) * ml) = unat (dv - ?r) * unat ml"
      by (simp add: unat_mult_nowrap)
    moreover have "(dv - ?r) * ml = aSEC_PER_SEC - ?r * ml"
      by (simp add: prod left_diff_distrib)
    ultimately have "unat ((aSEC_PER_SEC - ?r * ml) div ml) = unat (dv - ?r)"
      using nz(2) by (simp add: unat_div unat_gt_0)
    then show ?thesis
      by (simp add: word_unat_eq_iff)
  qed
  have whole: "?q * dv + ?r = ?tm"
    by (simp add: div_mult_mod_eq)
  show ?thesis
  proof (cases "t = 0")
    case True
    then show ?thesis
      by (simp add: TP_TO_GEN_def scalar_to_timepoint_def)
  next
    case t: False
    show ?thesis
    proof (cases "t <s 0")
      case False
      then have "?tm = t"
        by (simp add: llabs_def)
      then show ?thesis
        using t nz False whole sm(1)
        by (simp add: TP_TO_GEN_def scalar_to_timepoint_def Let_def word_div_mod_eq)
    next
      case True
      have "(- ?q - 1) * dv + (dv - ?r) = - (?q * dv + ?r)"
        by (simp add: algebra_simps)
      moreover have "- ?tm = t"
        using True by (rule llabs_neg_eq)
      ultimately have borrow: "(- ?q - 1) * dv + (dv - ?r) = t"
        using whole by simp
      have exact: "- (?q * dv) = t" if "?r = 0"
        using whole \<open>- ?tm = t\<close> that by (metis add.right_neutral)
      have "TP_TO_GEN (scalar_to_timepoint t dv ml) dv ml
          = (if ?r * ml \<noteq> 0 then (- ?q - 1) * dv + (aSEC_PER_SEC - ?r * ml) div ml
             else - ?q * dv + ?r * ml div ml)"
        using t nz True
        by (simp add: TP_TO_GEN_def scalar_to_timepoint_def Let_def word_div_mod_eq)
      also have "\<dots> = t"
        unfolding sub sm(1) rml using borrow exact by simp
      finally show ?thesis .
    qed
  qed
qed

text \<open>Converting a count to a time point and back in the same unit is the identity on
  64-bit words, for all seven units.\<close>

lemma timepoint_scalar_roundtrip:
  "TP_TO_SEC (TP_FROM_SEC t) = t \<and> TP_TO_mSEC (TP_FROM_mSEC t) = t \<and>
   TP_TO_uSEC (TP_FROM_uSEC t) = t \<and> TP_TO_nSEC (TP_FROM_nSEC t) = t \<and>
   TP_TO_pSEC (TP_FROM_pSEC t) = t \<and> TP_TO_fSEC (TP_FROM_fSEC t) = t \<and>
   TP_TO_aSEC (TP_FROM_aSEC t) = t"
  by (simp add: TP_FROM_defs TP_TO_defs TP_TO_GEN_scalar)

lemma uint_sub_le:
  fixes a b :: "64 word"
  assumes "b \<le> a"
  shows "uint (a - b) = uint a - uint b"
  using assms uint_sub_lem [of b a] by (simp add: word_le_def)

lemma uint_mod_scaled:
  fixes t dv ml :: u64
  assumes "unat dv * unat ml = 10 ^ 18"
  shows "uint (t mod dv * ml) = uint t mod uint dv * uint ml"
    and "uint t mod uint dv * uint ml < 10 ^ 18"
proof -
  have eq: "uint t mod uint dv * uint ml = int (unat t mod unat dv * unat ml)"
    by (simp add: zmod_int)
  show "uint (t mod dv * ml) = uint t mod uint dv * uint ml"
    using unat_mod_scaled(1) [OF assms, of t] eq by (metis uint_nat)
  show "uint t mod uint dv * uint ml < 10 ^ 18"
  proof -
    have "int (unat t mod unat dv * unat ml) < int (10 ^ 18)"
      using unat_mod_scaled(2) [OF assms, of t] by (simp only: of_nat_less_iff)
    then show ?thesis
      unfolding eq by (simp only: of_nat_power of_nat_numeral)
  qed
qed

lemma scalar_to_timepoint_val:
  assumes "unat dv * unat ml = 10 ^ 18" "1 < unat dv"
  shows "tp_val (scalar_to_timepoint t dv ml) = sint t * uint ml"
    and "tp_norm (scalar_to_timepoint t dv ml)"
proof -
  let ?q = "llabs t div dv" let ?r = "llabs t mod dv"
  let ?Q = "\<bar>sint t\<bar> div uint dv" let ?R = "\<bar>sint t\<bar> mod uint dv"
  note nz = ratio_nonzero [OF assms(1)]
  have dvml: "uint dv * uint ml = 10 ^ 18"
  proof -
    have "uint dv * uint ml = int (unat dv * unat ml)"
      by simp
    then show ?thesis
      by (simp only: assms(1)) simp
  qed
  have dv2: "2 \<le> uint dv"
  proof -
    have "int 2 \<le> int (unat dv)"
      using assms(2) by (simp only: of_nat_le_iff)
    then show ?thesis
      by simp
  qed
  have rml: "uint (?r * ml) = ?R * uint ml" "?R * uint ml < 10 ^ 18" "0 \<le> ?R * uint ml"
    using uint_mod_scaled [OF assms(1), of "llabs t"] dv2 by (simp_all add: uint_llabs)
  have q: "uint ?q = ?Q"
    by (simp add: uint_div uint_llabs)
  have Q: "0 \<le> ?Q" "?Q \<le> 2 ^ 62"
  proof -
    show "0 \<le> ?Q"
      using dv2 by (simp add: pos_imp_zdiv_nonneg_iff)
    have "?Q \<le> \<bar>sint t\<bar> div 2"
      using dv2 by (intro zdiv_mono2) simp_all
    also have "\<dots> \<le> 2 ^ 63 div 2"
      by (rule zdiv_mono1) (use sint_range64 [of t] in auto)
    finally show "?Q \<le> 2 ^ 62"
      by simp
  qed
  have val: "?Q * 10 ^ 18 + ?R * uint ml = \<bar>sint t\<bar> * uint ml"
    by (simp only: dvml [symmetric] mult.assoc [symmetric] distrib_right [symmetric] div_mult_mod_eq)
  have pos: "sint ?q = ?Q"
    using q Q by (simp add: sint_eq_uint_small)
  have neg: "sint (- ?q) = - ?Q" "sint (- ?q - 1) = - ?Q - 1"
  proof -
    have "- ?q = word_of_int (- ?Q)" "- ?q - 1 = word_of_int (- ?Q - 1)"
      by (simp_all flip: q)
    moreover have "- (2 ^ 63) \<le> - ?Q - 1" "- ?Q < 2 ^ 63"
      using Q by simp_all
    ultimately show "sint (- ?q) = - ?Q" "sint (- ?q - 1) = - ?Q - 1"
      by (auto intro!: sint_eqI simp del: of_int_minus of_int_diff)
  qed
  have borrow: "uint (aSEC_PER_SEC - ?r * ml) = 10 ^ 18 - ?R * uint ml"
    using rml by (subst uint_sub_le) (simp_all add: word_le_def)
  have split: "scalar_to_timepoint t dv ml =
      (if t = 0 then \<lparr>tp_sec = 0, tp_asec = 0\<rparr>
       else if t <s 0 then
         (if ?r * ml \<noteq> 0 then \<lparr>tp_sec = - ?q - 1, tp_asec = aSEC_PER_SEC - ?r * ml\<rparr>
          else \<lparr>tp_sec = - ?q, tp_asec = ?r * ml\<rparr>)
       else \<lparr>tp_sec = ?q, tp_asec = ?r * ml\<rparr>)"
    using nz by (simp add: scalar_to_timepoint_def Let_def word_div_mod_eq)
  have zero: "?r * ml = 0 \<Longrightarrow> ?R * uint ml = 0"
    using rml(1) by simp
  have nzero: "?r * ml \<noteq> 0 \<Longrightarrow> 0 < ?R * uint ml"
    using rml(1,3) by (metis uint_0_iff order_le_less)
  show "tp_val (scalar_to_timepoint t dv ml) = sint t * uint ml"
    using val rml(1) pos neg borrow zero
    unfolding split tp_val_def word_sless_sint
    by (auto simp: abs_if split: if_splits)
  show "tp_norm (scalar_to_timepoint t dv ml)"
    using rml(1,2) borrow nzero unfolding split tp_norm_def by auto
qed

lemma timepoint_add_val:
  assumes "tp_norm t" "tl_norm v" "tp_val t + int (tl_val v) < 2 ^ 63 * 10 ^ 18"
  shows "tp_val (timepoint_add t v) = tp_val t + int (tl_val v)"
    and "tp_norm (timepoint_add t v)"
proof -
  let ?a = "tp_asec t + tl_asec v"
  let ?tm = "?a div aSEC_PER_SEC"
  have a: "uint ?a = uint (tp_asec t) + uint (tl_asec v)"
  proof -
    have "int (unat (tl_asec v)) < int (10 ^ 18)"
      using assms(2) unfolding tl_norm_def by (simp only: of_nat_less_iff)
    then show ?thesis
      using assms(1) by (simp add: tp_norm_def uint_word_ariths)
  qed
  define q r where "q = uint ?a div 10 ^ 18" "r = uint ?a mod 10 ^ 18"
  have qr: "uint (tp_asec t) + uint (tl_asec v) = q * 10 ^ 18 + r" "0 \<le> q" "0 \<le> r" "r < 10 ^ 18"
    using a by (simp_all add: q_r_def pos_imp_zdiv_nonneg_iff)
  have tm: "uint ?tm = q"
    by (simp add: uint_div q_r_def)
  have s: "sint (tp_sec t + tl_sec v + ?tm) = sint (tp_sec t) + uint (tl_sec v) + q"
  proof (rule sint_eqI)
    show "tp_sec t + tl_sec v + ?tm = word_of_int (sint (tp_sec t) + uint (tl_sec v) + q)"
      by (simp flip: tm)
    have "0 \<le> uint (tl_sec v)"
      by simp
    then show "- (2 ^ 63) \<le> sint (tp_sec t) + uint (tl_sec v) + q"
      using sint_range64 [of "tp_sec t"] qr(2) by linarith
    show "sint (tp_sec t) + uint (tl_sec v) + q < 2 ^ 63"
      using assms(3) qr unfolding tp_val_def tl_val_def by simp
  qed
  have r: "?a - ?tm * aSEC_PER_SEC = ?a mod aSEC_PER_SEC"
    by (metis word_div_mod_eq mult.commute)
  have ru: "uint (?a mod aSEC_PER_SEC) = r"
    by (simp add: uint_mod q_r_def)
  show "tp_val (timepoint_add t v) = tp_val t + int (tl_val v)"
    using s qr(1) by (simp add: timepoint_add_def Let_def tp_val_def tl_val_def r ru)
  show "tp_norm (timepoint_add t v)"
    using qr(4) by (simp add: timepoint_add_def Let_def tp_norm_def r ru)
qed

lemma TP_FROM_SEC_eq: "TP_FROM_SEC t = \<lparr>tp_sec = t, tp_asec = 0\<rparr>"
  by (simp add: TP_FROM_SEC_def scalar_to_timepoint_def Let_def llabs_def ratio_defs)

text \<open>A signed count of any of the seven units converts to the time point with that value,
  for every 64-bit count, negative ones included.\<close>

lemma timepoint_from_scalar_val:
  "tp_val (TP_FROM_SEC t) = sint t * 10 ^ 18 \<and>
   tp_val (TP_FROM_mSEC t) = sint t * 10 ^ 15 \<and>
   tp_val (TP_FROM_uSEC t) = sint t * 10 ^ 12 \<and>
   tp_val (TP_FROM_nSEC t) = sint t * 10 ^ 9 \<and>
   tp_val (TP_FROM_pSEC t) = sint t * 10 ^ 6 \<and>
   tp_val (TP_FROM_fSEC t) = sint t * 10 ^ 3 \<and>
   tp_val (TP_FROM_aSEC t) = sint t"
proof -
  have u: "uint fSEC_PER_SEC = 10 ^ 15" "uint pSEC_PER_SEC = 10 ^ 12"
    "uint nSEC_PER_SEC = 10 ^ 9" "uint uSEC_PER_SEC = 10 ^ 6" "uint mSEC_PER_SEC = 10 ^ 3"
    "uint SEC_PER_SEC = 1"
    by (simp_all add: ratio_defs)
  have "tp_val (TP_FROM_SEC t) = sint t * 10 ^ 18"
    by (simp add: TP_FROM_SEC_eq tp_val_def)
  then show ?thesis
    by (simp add: TP_FROM_mSEC_def TP_FROM_uSEC_def TP_FROM_nSEC_def TP_FROM_pSEC_def
        TP_FROM_fSEC_def TP_FROM_aSEC_def scalar_to_timepoint_val u)
qed

lemma timepoint_sub_val:
  assumes "tp_norm t" "tl_norm v" "- (2 ^ 63) * 10 ^ 18 \<le> tp_val t - int (tl_val v)"
  shows "tp_val (timepoint_sub t v) = tp_val t - int (tl_val v)"
    and "tp_norm (timepoint_sub t v)"
proof -
  define b :: int where "b = (if tp_asec t < tl_asec v then 1 else 0)"
  have ranges: "0 \<le> uint (tp_asec t)" "uint (tp_asec t) < 10 ^ 18"
    "0 \<le> uint (tl_asec v)" "uint (tl_asec v) < 10 ^ 18"
  proof -
    have "int (unat (tl_asec v)) < int (10 ^ 18)"
      using assms(2) unfolding tl_norm_def by (simp only: of_nat_less_iff)
    then show "uint (tl_asec v) < 10 ^ 18"
      by simp
  qed (use assms(1) in \<open>simp_all add: tp_norm_def\<close>)
  define a where "a = (if tp_asec t < tl_asec v then aSEC_PER_SEC - (tl_asec v - tp_asec t)
    else tp_asec t - tl_asec v)"
  have a: "uint a = uint (tp_asec t) - uint (tl_asec v) + b * 10 ^ 18"
  proof (cases "tp_asec t < tl_asec v")
    case True
    then have less: "uint (tl_asec v - tp_asec t) = uint (tl_asec v) - uint (tp_asec t)"
      by (simp add: uint_sub_le)
    moreover have "uint (aSEC_PER_SEC - (tl_asec v - tp_asec t))
        = uint aSEC_PER_SEC - uint (tl_asec v - tp_asec t)"
    proof (intro uint_sub_le)
      have "uint (tl_asec v) - uint (tp_asec t) \<le> 10 ^ 18"
        using ranges by linarith
      then show "tl_asec v - tp_asec t \<le> aSEC_PER_SEC"
        using less by (simp add: word_le_def)
    qed
    ultimately show ?thesis
      using True by (simp add: a_def b_def)
  next
    case False
    then show ?thesis
      by (simp add: a_def b_def uint_sub_le)
  qed
  have anorm: "0 \<le> uint a" "uint a < 10 ^ 18"
  proof -
    have "0 \<le> uint (tp_asec t) - uint (tl_asec v) + b * 10 ^ 18
        \<and> uint (tp_asec t) - uint (tl_asec v) + b * 10 ^ 18 < 10 ^ 18"
    proof (cases "uint (tp_asec t) < uint (tl_asec v)")
      case True
      then have b: "b = 1"
        by (simp add: b_def word_less_def)
      show ?thesis
        unfolding b by (intro conjI; simp;
            use True ranges(1,3) ranges(2,4) [simplified] in linarith)
    next
      case False
      then have b: "b = 0"
        by (simp add: b_def word_less_def)
      show ?thesis
        unfolding b by (intro conjI; simp;
            use False ranges(1,3) ranges(2,4) [simplified] in linarith)
    qed
    then show "0 \<le> uint a" "uint a < 10 ^ 18"
      unfolding a by simp_all
  qed
  have s: "sint (tp_sec t - tl_sec v - word_of_int b) = sint (tp_sec t) - uint (tl_sec v) - b"
  proof (rule sint_eqI)
    show "tp_sec t - tl_sec v - word_of_int b = word_of_int (sint (tp_sec t) - uint (tl_sec v) - b)"
      by simp
    have "0 \<le> uint (tl_sec v)" "0 \<le> b"
      by (simp_all add: b_def)
    then show "sint (tp_sec t) - uint (tl_sec v) - b < 2 ^ 63"
      using sint_range64 [of "tp_sec t"] by linarith
    show "- (2 ^ 63) \<le> sint (tp_sec t) - uint (tl_sec v) - b"
      using assms(3) a anorm unfolding tp_val_def tl_val_def by simp
  qed
  have eq: "timepoint_sub t v = \<lparr>tp_sec = tp_sec t - tl_sec v - word_of_int b, tp_asec = a\<rparr>"
    by (simp add: timepoint_sub_def Let_def a_def b_def)
  show "tp_val (timepoint_sub t v) = tp_val t - int (tl_val v)"
    using s a by (simp add: eq tp_val_def tl_val_def)
  show "tp_norm (timepoint_sub t v)"
    using anorm by (simp add: eq tp_norm_def)
qed

text \<open>Adding a length to a time point and subtracting it are exact and keep the attoseconds
  normalised, within the range of 64-bit seconds.\<close>

lemma timepoint_add_sub_val:
  assumes "tp_norm t" "tl_norm v"
    and "tp_val t + int (tl_val v) < 2 ^ 63 * 10 ^ 18"
    and "- (2 ^ 63) * 10 ^ 18 \<le> tp_val t - int (tl_val v)"
  shows "tp_val (timepoint_add t v) = tp_val t + int (tl_val v) \<and> tp_norm (timepoint_add t v) \<and>
         tp_val (timepoint_sub t v) = tp_val t - int (tl_val v) \<and> tp_norm (timepoint_sub t v)"
  using timepoint_add_val [OF assms(1-3)] timepoint_sub_val [OF assms(1,2,4)] by blast

text \<open>Two normalised points are compared by value.\<close>

lemma lex_sgn:
  fixes a b x y :: int
  assumes "0 \<le> x" "x < 10 ^ 18" "0 \<le> y" "y < 10 ^ 18"
  shows "sgn ((b * 10 ^ 18 + y) - (a * 10 ^ 18 + x))
       = (if b < a then - 1 else if a < b then 1 else sgn (y - x))"
  using assms by (cases a b rule: linorder_cases) (auto simp: sgn_if)

lemma timepoint_cmp_sgn:
  assumes "tp_norm a" "tp_norm b"
  shows "timepoint_cmp (Some a) (Some b) = sgn (tp_val b - tp_val a)"
  unfolding tp_val_def
  by (subst lex_sgn)
    (use assms in \<open>auto simp: timepoint_cmp_def tp_norm_def word_sless_sint word_less_def sgn_if\<close>)

lemma abs_add_split: "\<bar>d\<bar> + \<bar>a\<bar> = \<bar>d + a\<bar> \<longleftrightarrow> 0 \<le> d * (a :: int)"
  by (auto simp: abs_if zero_le_mult_iff)

lemma abs_lex_split:
  fixes d a K :: int
  assumes "0 < K"
  shows "\<bar>d\<bar> * K + \<bar>a\<bar> = \<bar>d * K + a\<bar> \<longleftrightarrow> 0 \<le> d * a"
proof -
  have "0 \<le> (d * K) * a \<longleftrightarrow> 0 \<le> d * a"
  proof -
    have "(d * K) * a = K * (d * a)"
      by simp
    then show ?thesis
      using assms zero_le_mult_iff [of K "d * a"] by (simp only:) linarith
  qed
  moreover have "\<bar>d * K\<bar> + \<bar>a\<bar> = \<bar>d * K + a\<bar> \<longleftrightarrow> 0 \<le> (d * K) * a"
    by (rule abs_add_split)
  ultimately show ?thesis
    using assms by (simp add: abs_mult)
qed

lemma timepoint_diff_fields:
  assumes "- (2 ^ 63) \<le> sint (tp_sec a) - sint (tp_sec b)" "sint (tp_sec a) - sint (tp_sec b) < 2 ^ 63"
  shows "map_option (int \<circ> tl_val) (timepoint_diff (Some v) (Some a) (Some b))
     = Some (\<bar>sint (tp_sec a) - sint (tp_sec b)\<bar> * 10 ^ 18
             + \<bar>uint (tp_asec a) - uint (tp_asec b)\<bar>)"
  using uint_llabs [of "tp_sec a - tp_sec b"] sint_sub_nowrap [OF assms]
  by (simp add: timepoint_diff_def tl_val_def uint_sub_le word_less_def word_le_def)

text \<open>C24: The difference of two time points is their distance exactly when seconds and
  attoseconds do not differ in opposite directions: the code takes the two absolute values
  separately and never borrows.\<close>

lemma timepoint_diff_exact_iff:
  assumes "- (2 ^ 63) \<le> sint (tp_sec a) - sint (tp_sec b)" "sint (tp_sec a) - sint (tp_sec b) < 2 ^ 63"
  shows "map_option (int \<circ> tl_val) (timepoint_diff (Some v) (Some a) (Some b))
           = Some \<bar>tp_val a - tp_val b\<bar>
     \<longleftrightarrow> 0 \<le> (sint (tp_sec a) - sint (tp_sec b)) * (uint (tp_asec a) - uint (tp_asec b))"
proof -
  have "tp_val a - tp_val b = (sint (tp_sec a) - sint (tp_sec b)) * 10 ^ 18
      + (uint (tp_asec a) - uint (tp_asec b))"
    by (simp add: tp_val_def algebra_simps)
  then show ?thesis
    unfolding timepoint_diff_fields [OF assms] by (simp only: option.inject) (rule abs_lex_split, simp)
qed

lemma timepoint_diff_exact_iff_witness:
  "map_option (int \<circ> tl_val)
     (timepoint_diff (Some \<lparr>tl_sec = 0, tl_asec = 0\<rparr>)
        (Some \<lparr>tp_sec = 2, tp_asec = 0\<rparr>) (Some \<lparr>tp_sec = 1, tp_asec = 500000000000000000\<rparr>))
     \<noteq> Some \<bar>tp_val \<lparr>tp_sec = 2, tp_asec = 0\<rparr>
             - tp_val \<lparr>tp_sec = 1, tp_asec = 500000000000000000\<rparr>\<bar>"
  by (subst timepoint_diff_exact_iff) simp_all

lemma timelength_max_min_val_witness:
  "map_option tl_val (timelength_min (Some (TL_FROM_SEC 7)) (Some (TL_FROM_nSEC 1500000000))
      (Some (TL_FROM_SEC 2))) = Some 1500000000000000000"
proof -
  have v: "tl_val (TL_FROM_nSEC 1500000000) = 1500000000000000000" "tl_norm (TL_FROM_nSEC 1500000000)"
    "tl_val (TL_FROM_SEC 2) = 2000000000000000000" "tl_norm (TL_FROM_SEC 2)"
    by (simp_all add: TL_FROM_nSEC_def TL_FROM_SEC_def scalar_to_timelength_val)
  show ?thesis
    using timelength_max_min_val [OF v(2,4), of "TL_FROM_SEC 7"] v(1,3) by simp
qed

lemma timepoint_add_sub_val_witness:
  "tp_val (timepoint_sub (TP_FROM_nSEC 500000000) (TL_FROM_SEC 2)) = - 1500000000000000000"
proof -
  have t: "tp_norm (TP_FROM_nSEC 500000000)" "tp_val (TP_FROM_nSEC 500000000) = 500000000000000000"
    by (simp_all add: TP_FROM_nSEC_def scalar_to_timepoint_val nSEC_PER_SEC_def)
  have v: "tl_norm (TL_FROM_SEC 2)" "tl_val (TL_FROM_SEC 2) = 2000000000000000000"
    by (simp_all add: TL_FROM_SEC_def scalar_to_timelength_val)
  show ?thesis
    using timepoint_add_sub_val [OF t(1) v(1)] t(2) v(2) by simp
qed

section \<open>Timespecs and uncertain times\<close>

text \<open>A \<open>timespec\<close> with nanoseconds in range survives the conversion to a point
  in time and back, and the point has its value.\<close>

lemma timespec_roundtrip:
  assumes "unat (tv_nsec ts) < 10 ^ 9"
  shows "timespec_from_timepoint (timepoint_from_timespec ts) = ts"
    and "tp_norm (timepoint_from_timespec ts)"
    and "tp_val (timepoint_from_timespec ts)
       = sint (tv_sec ts) * 10 ^ 18 + int (unat (tv_nsec ts)) * 10 ^ 9"
proof -
  have m: "unat (tv_nsec ts * nSEC_PER_SEC) = unat (tv_nsec ts) * 10 ^ 9"
    using assms by (simp add: unat_mult_nowrap)
  then have u: "uint (tv_nsec ts * nSEC_PER_SEC) = int (unat (tv_nsec ts)) * 10 ^ 9"
    by (metis of_nat_unat of_nat_mult of_nat_numeral of_nat_power)
  have "unat (tv_nsec ts * nSEC_PER_SEC div nSEC_PER_SEC) = unat (tv_nsec ts)"
    by (simp add: unat_div m)
  then have "tv_nsec ts * nSEC_PER_SEC div nSEC_PER_SEC = tv_nsec ts"
    by (simp only: word_unat_eq_iff)
  then show "timespec_from_timepoint (timepoint_from_timespec ts) = ts"
    by (simp add: timespec_from_timepoint_def timepoint_from_timespec_def)
  show "tp_val (timepoint_from_timespec ts)
       = sint (tv_sec ts) * 10 ^ 18 + int (unat (tv_nsec ts)) * 10 ^ 9"
    using u by (simp add: timepoint_from_timespec_def tp_val_def)
  have "int (unat (tv_nsec ts)) < int (10 ^ 9)"
    using assms by (simp only: of_nat_less_iff)
  then show "tp_norm (timepoint_from_timespec ts)"
    using u by (simp add: timepoint_from_timespec_def tp_norm_def)
qed

text \<open>The instants an uncertain point allows, and what adding an uncertain
  length does to them.\<close>

definition utp_earliest :: "utimepoint \<Rightarrow> int" where
  "utp_earliest t = tp_val (utp_estimate t) - int (tl_val (below (utp_interval t)))"

definition utp_latest :: "utimepoint \<Rightarrow> int" where
  "utp_latest t = tp_val (utp_estimate t) + int (tl_val (above (utp_interval t)))"

definition ti_norm :: "timeinterval \<Rightarrow> bool" where
  "ti_norm i \<longleftrightarrow> tl_norm (below i) \<and> tl_norm (above i)"

end
