(* ===== verification/Double_Fp.thy ===== *)
theory Double_Fp
  imports Qot_Prelude Complex_Main "HOL-Library.Log_Nat"
begin

text \<open>
  The \<open>double\<close> arithmetic of the code.  A finite \<open>double\<close> is the rational number
  it stands for, and every operation is the exact operation followed by
  \<open>rnd64\<close>, rounding to nearest with ties to even on 53 significant bits.  The
  exponent is unbounded: none of the quantities the code computes (nanosecond
  counts, drifts, variances) comes near the overflow or underflow limits of
  binary64.  Infinities and NaNs only arise from a division by zero, which is
  excluded or modelled as an error where the code divides; \<open>Svm_Line\<close>, whose code goes on
  with them, adds a value for them.

  The laws that clients rely on are the locale \<open>rounding\<close>; it is interpreted on
  \<open>rnd64\<close>.
\<close>

type_synonym double = rat

section \<open>Rounding\<close>

definition round_half_even :: "rat \<Rightarrow> int" where
  "round_half_even y =
     (let f = \<lfloor>y\<rfloor>; r = y - of_int f
      in if r < 1 / 2 then f else if 1 / 2 < r then f + 1
         else if even f then f else f + 1)"

text \<open>The binary exponent of a non-zero rational.\<close>

definition rexp :: "rat \<Rightarrow> int" where
  "rexp x = (let (n, d) = quotient_of \<bar>x\<bar>; k = bitlen n - bitlen d
             in if 2 powi k \<le> \<bar>x\<bar> then k else k - 1)"

definition rnd64 :: "rat \<Rightarrow> double" where
  "rnd64 x = (if x = 0 then 0
              else let u = 2 powi (rexp x - 52)
                   in of_int (round_half_even (x / u)) * u)"

definition d_of_s64 :: "s64 \<Rightarrow> double" where "d_of_s64 w = rnd64 (of_int (sint w))"
definition d_of_u64 :: "u64 \<Rightarrow> double" where "d_of_u64 w = rnd64 (of_int (uint w))"
definition d_add :: "double \<Rightarrow> double \<Rightarrow> double" where "d_add a b = rnd64 (a + b)"
definition d_sub :: "double \<Rightarrow> double \<Rightarrow> double" where "d_sub a b = rnd64 (a - b)"
definition d_mul :: "double \<Rightarrow> double \<Rightarrow> double" where "d_mul a b = rnd64 (a * b)"
definition d_div :: "double \<Rightarrow> double \<Rightarrow> double" where "d_div a b = rnd64 (a / b)"

text \<open>The conversion to \<open>int64_t\<close> truncates; out of range the hardware returns the
  smallest integer.\<close>

definition rtrunc :: "rat \<Rightarrow> int" where
  "rtrunc x = (if 0 \<le> x then \<lfloor>x\<rfloor> else \<lceil>x\<rceil>)"

definition s64_of_d :: "double \<Rightarrow> s64" where
  "s64_of_d x = (let i = rtrunc x
                 in if - (2 ^ 63) \<le> i \<and> i < 2 ^ 63 then word_of_int i else word_of_int (- (2 ^ 63)))"

section \<open>The laws of rounding\<close>

lemma round_half_even_int [simp]: "round_half_even (of_int i) = i"
  by (simp add: round_half_even_def Let_def)

lemma round_half_even_near: "\<bar>of_int (round_half_even y) - y\<bar> \<le> 1 / 2"
proof -
  have "of_int \<lfloor>y\<rfloor> \<le> y" "y < of_int \<lfloor>y\<rfloor> + 1"
    by linarith+
  then show ?thesis
    by (auto simp: round_half_even_def Let_def)
qed

lemma round_half_even_mono:
  assumes "x \<le> y"
  shows "round_half_even x \<le> round_half_even y"
proof (cases "\<lfloor>x\<rfloor> = \<lfloor>y\<rfloor>")
  case True
  with assms show ?thesis
    by (auto simp: round_half_even_def Let_def)
next
  case False
  with assms have "\<lfloor>x\<rfloor> + 1 \<le> \<lfloor>y\<rfloor>"
    using floor_mono [OF assms] by linarith
  moreover have "round_half_even x \<le> \<lfloor>x\<rfloor> + 1" "\<lfloor>y\<rfloor> \<le> round_half_even y"
    by (auto simp: round_half_even_def Let_def)
  ultimately show ?thesis
    by linarith
qed

lemma round_half_even_minus: "round_half_even (- y) = - round_half_even y"
proof (cases "of_int \<lfloor>y\<rfloor> = y")
  case True
  then obtain n where "y = of_int n"
    by metis
  then show ?thesis
    by (metis of_int_minus round_half_even_int)
next
  case False
  then have f: "\<lfloor>- y\<rfloor> = - \<lfloor>y\<rfloor> - 1"
    by linarith
  show ?thesis
    unfolding round_half_even_def f Let_def by auto
qed

lemma bitlen_bounds_rat:
  assumes "0 < n"
  shows "(2 :: rat) powi (bitlen n - 1) \<le> of_int n" "of_int n < (2 :: rat) powi (bitlen n)"
proof -
  have "2 ^ nat (bitlen n - 1) \<le> n" "n < 2 ^ nat (bitlen n)"
    using bitlen_bounds [OF assms] by simp_all
  then have "(2 :: rat) ^ nat (bitlen n - 1) \<le> of_int n" "of_int n < (2 :: rat) ^ nat (bitlen n)"
    by (metis of_int_le_iff of_int_power of_int_numeral)
      (metis \<open>n < 2 ^ nat (bitlen n)\<close> of_int_less_iff of_int_power of_int_numeral)
  moreover have "0 \<le> bitlen n - 1" "0 \<le> bitlen n"
    using assms bitlen_eq_zero_iff [of n] bitlen_nonneg [of n] by linarith+
  ultimately show "(2 :: rat) powi (bitlen n - 1) \<le> of_int n" "of_int n < (2 :: rat) powi (bitlen n)"
    by (simp_all add: power_int_def)
qed

lemma rexp_bounds:
  assumes "x \<noteq> 0"
  shows "2 powi rexp x \<le> \<bar>x\<bar>" "\<bar>x\<bar> < 2 powi (rexp x + 1)"
proof -
  obtain n d where q: "quotient_of \<bar>x\<bar> = (n, d)"
    by (cases "quotient_of \<bar>x\<bar>")
  have d: "0 < d" and x: "\<bar>x\<bar> = of_int n / of_int d"
    using quotient_of_denom_pos [OF q] quotient_of_div [OF q] by simp_all
  have n: "0 < n"
    using assms x d by (metis divide_le_0_iff of_int_0_less_iff of_int_le_0_iff not_le zero_less_abs_iff
        less_le_not_le linorder_not_less)
  let ?k = "bitlen n - bitlen d"
  note bn = bitlen_bounds_rat [OF n] and bd = bitlen_bounds_rat [OF d]
  have dr: "0 < (of_int d :: rat)"
    using d by simp
  have "2 powi (?k - 1) * of_int d < (2 :: rat) powi (?k - 1) * 2 powi (bitlen d)"
    using bd(2) by (intro mult_strict_left_mono) simp_all
  also have "\<dots> = 2 powi (bitlen n - 1)"
    by (simp flip: power_int_add)
  finally have lo: "2 powi (?k - 1) \<le> \<bar>x\<bar>"
    using bn(1) dr unfolding x by (simp add: pos_le_divide_eq)
  have "of_int n < (2 :: rat) powi (?k + 1) * 2 powi (bitlen d - 1)"
    using bn(2) by (simp flip: power_int_add)
  also have "\<dots> \<le> 2 powi (?k + 1) * of_int d"
    using bd(1) by (intro mult_left_mono) simp_all
  finally have hi: "\<bar>x\<bar> < 2 powi (?k + 1)"
    using dr unfolding x by (simp add: pos_divide_less_eq)
  show "2 powi rexp x \<le> \<bar>x\<bar>" "\<bar>x\<bar> < 2 powi (rexp x + 1)"
    using lo hi by (auto simp: rexp_def q Let_def)
qed

text \<open>Rounding on the grid of one exponent; \<open>rnd64\<close> uses the exponent of its
  argument, and any two arguments in one binade share the grid.\<close>

definition rnd_at :: "int \<Rightarrow> rat \<Rightarrow> rat" where
  "rnd_at e x = of_int (round_half_even (x / 2 powi (e - 52))) * 2 powi (e - 52)"

lemma rnd64_at: "x \<noteq> 0 \<Longrightarrow> rnd64 x = rnd_at (rexp x) x"
  by (simp add: rnd64_def rnd_at_def Let_def)

lemma rnd_at_mono: "x \<le> y \<Longrightarrow> rnd_at e x \<le> rnd_at e y"
  by (simp add: rnd_at_def round_half_even_mono divide_right_mono mult_right_mono)

lemma rnd_at_grid:
  assumes "e \<le> k + 52"
  shows "rnd_at e (of_int i * 2 powi k) = of_int i * 2 powi k"
proof -
  let ?m = "k - (e - 52)"
  have "(2 :: rat) powi k / 2 powi (e - 52) = 2 powi ?m"
    by (simp add: power_int_diff)
  also have "\<dots> = of_int (2 ^ nat ?m)"
    using assms by (simp add: power_int_def)
  finally have "of_int i * 2 powi k / 2 powi (e - 52) = (of_int (i * 2 ^ nat ?m) :: rat)"
    by (simp add: divide_simps)
  then have "rnd_at e (of_int i * 2 powi k) = of_int (i * 2 ^ nat ?m) * 2 powi (e - 52)"
    by (simp only: rnd_at_def round_half_even_int)
  then show ?thesis
    using \<open>2 powi k / 2 powi (e - 52) = 2 powi ?m\<close> \<open>2 powi ?m = of_int (2 ^ nat ?m)\<close>
    by (simp add: divide_simps)
qed

lemma rnd_at_minus: "rnd_at e (- x) = - rnd_at e x"
  by (simp add: rnd_at_def round_half_even_minus)

lemma rexp_minus [simp]: "rexp (- x) = rexp x"
  by (simp add: rexp_def)

lemma rnd64_0 [simp]: "rnd64 0 = 0"
  by (simp add: rnd64_def)

lemma rnd64_minus: "rnd64 (- x) = - rnd64 x"
  by (cases "x = 0") (simp_all add: rnd64_at rnd_at_minus)

lemma rnd64_bounds:
  assumes "0 < x"
  shows "2 powi rexp x \<le> rnd64 x" "rnd64 x \<le> 2 powi (rexp x + 1)"
proof -
  have x: "2 powi rexp x \<le> x" "x \<le> 2 powi (rexp x + 1)"
    using rexp_bounds [of x] assms by simp_all
  have "rnd_at (rexp x) (of_int 1 * 2 powi rexp x) \<le> rnd64 x"
    using x assms by (simp add: rnd64_at rnd_at_mono)
  then show "2 powi rexp x \<le> rnd64 x"
    by (subst (asm) rnd_at_grid) simp_all
  have "rnd64 x \<le> rnd_at (rexp x) (of_int 1 * 2 powi (rexp x + 1))"
    using x assms by (simp add: rnd64_at rnd_at_mono)
  then show "rnd64 x \<le> 2 powi (rexp x + 1)"
    by (subst (asm) rnd_at_grid) simp_all
qed

lemma rexp_mono:
  assumes "0 < x" "x \<le> y"
  shows "rexp x \<le> rexp y"
proof (rule ccontr)
  assume "\<not> ?thesis"
  then have "(2 :: rat) powi (rexp y + 1) \<le> 2 powi rexp x"
    by (intro power_int_increasing) simp_all
  with rexp_bounds [of x] rexp_bounds [of y] assms show False
    by simp
qed

lemma rnd64_mono_pos:
  assumes "0 < x" "x \<le> y"
  shows "rnd64 x \<le> rnd64 y"
proof (cases "rexp x = rexp y")
  case True
  with assms show ?thesis
    by (simp add: rnd64_at rnd_at_mono)
next
  case False
  then have "rexp x + 1 \<le> rexp y"
    using rexp_mono [OF assms] by simp
  then have "(2 :: rat) powi (rexp x + 1) \<le> 2 powi rexp y"
    by (intro power_int_increasing) simp_all
  with rnd64_bounds(2) [of x] rnd64_bounds(1) [of y] assms show ?thesis
    by simp
qed

lemma rnd64_pos: "0 < x \<Longrightarrow> 0 < rnd64 x"
  using rnd64_bounds(1) [of x] zero_less_power_int [of "2 :: rat" "rexp x"] by linarith

lemma rnd64_mono: "x \<le> y \<Longrightarrow> rnd64 x \<le> rnd64 y"
  by (cases "0 < x"; cases "0 < y"; cases "x = 0"; cases "y = 0")
    (use rnd64_mono_pos [of x y] rnd64_mono_pos [of "- y" "- x"] rnd64_pos [of y] rnd64_pos [of "- x"]
      in \<open>auto simp: rnd64_minus\<close>)

lemma rnd64_of_int:
  assumes "\<bar>i\<bar> \<le> 2 ^ 53"
  shows "rnd64 (of_int i) = of_int i"
proof (cases "i = 0")
  case False
  show ?thesis
  proof (cases "\<bar>i\<bar> = 2 ^ 53")
    case True
    have "rexp (of_int i) \<le> 53"
    proof (rule ccontr)
      assume "\<not> ?thesis"
      then have "(2 :: rat) powi 54 \<le> 2 powi rexp (of_int i)"
        by (intro power_int_increasing) simp_all
      with rexp_bounds(1) [of "of_int i"] False True show False
        by (simp flip: of_int_abs)
    qed
    moreover from True have "(of_int i :: rat) = of_int (sgn i) * 2 powi 53"
      by (cases "i > 0") (auto simp: sgn_if abs_if split: if_splits)
    ultimately show ?thesis
      using False rnd_at_grid [of "rexp (of_int i)" 53 "sgn i"] by (simp add: rnd64_at)
  next
    case less: False
    then have "\<bar>of_int i :: rat\<bar> < 2 powi 53"
      using assms by (simp flip: of_int_abs)
    have "rexp (of_int i) \<le> 52"
    proof (rule ccontr)
      assume "\<not> ?thesis"
      then have "(2 :: rat) powi 53 \<le> 2 powi rexp (of_int i)"
        by (intro power_int_increasing) simp_all
      with rexp_bounds(1) [of "of_int i"] False \<open>\<bar>of_int i :: rat\<bar> < 2 powi 53\<close> show False
        by simp
    qed
    then show ?thesis
      using False rnd_at_grid [of "rexp (of_int i)" 0 i] by (simp add: rnd64_at)
  qed
qed simp

lemma rnd64_error: "\<bar>rnd64 x - x\<bar> \<le> \<bar>x\<bar> / 2 ^ 53"
proof (cases "x = 0")
  case False
  let ?u = "2 powi (rexp x - 52) :: rat"
  have "rnd64 x - x = (of_int (round_half_even (x / ?u)) - x / ?u) * ?u"
    using False by (simp add: rnd64_at rnd_at_def left_diff_distrib)
  then have "\<bar>rnd64 x - x\<bar> = \<bar>of_int (round_half_even (x / ?u)) - x / ?u\<bar> * ?u"
    by (simp add: abs_mult)
  also have "\<dots> \<le> 1 / 2 * ?u"
    by (intro mult_right_mono round_half_even_near) simp
  also have "\<dots> = 2 powi rexp x / 2 ^ 53"
    by (simp add: power_int_diff)
  also have "\<dots> \<le> \<bar>x\<bar> / 2 ^ 53"
    using rexp_bounds(1) [OF False] by (simp add: divide_right_mono)
  finally show ?thesis .
qed simp

section \<open>The interface\<close>

locale rounding =
  fixes rnd :: "rat \<Rightarrow> rat"
  assumes rnd_mono: "x \<le> y \<Longrightarrow> rnd x \<le> rnd y"
    and rnd_minus: "rnd (- x) = - rnd x"
    and rnd_int: "\<bar>i\<bar> \<le> 2 ^ 53 \<Longrightarrow> rnd (of_int i) = of_int i"
    and rnd_error: "\<bar>rnd x - x\<bar> \<le> \<bar>x\<bar> / 2 ^ 53"
begin

lemma rnd_zero: "rnd 0 = 0"
  using rnd_int [of 0] by simp

lemma rnd_nonneg: "0 \<le> x \<Longrightarrow> 0 \<le> rnd x"
  using rnd_mono [of 0 x] rnd_zero by simp

lemma rnd_nonpos: "x \<le> 0 \<Longrightarrow> rnd x \<le> 0"
  using rnd_mono [of x 0] rnd_zero by simp

lemma rnd_factor: "\<exists>e. \<bar>e\<bar> \<le> 1 / 2 ^ 53 \<and> rnd x = x * (1 + e)"
proof (cases "x = 0")
  case True
  then show ?thesis
    using rnd_zero by (intro exI [of _ 0]) simp
next
  case False
  have "\<bar>(rnd x - x) / x\<bar> \<le> 1 / 2 ^ 53"
    using rnd_error [of x] False by (simp add: divide_simps mult.commute)
  moreover have "rnd x = x * (1 + (rnd x - x) / x)"
    using False by (simp add: field_simps)
  ultimately show ?thesis
    by blast
qed

text \<open>Three roundings in a row, as in \<open>((double)a / d) * c\<close>.\<close>

lemma three_factors:
  fixes e f g :: rat
  assumes "\<bar>e\<bar> \<le> 1 / 2 ^ 53" "\<bar>f\<bar> \<le> 1 / 2 ^ 53" "\<bar>g\<bar> \<le> 1 / 2 ^ 53"
  shows "\<bar>(1 + e) * (1 + f) * (1 + g) - 1\<bar> \<le> 1 / 2 ^ 51"
proof -
  have prod: "\<bar>a * b\<bar> \<le> c / 2 ^ 53" if "\<bar>a\<bar> \<le> 1 / 2 ^ 53" "\<bar>b\<bar> \<le> c" for a b c :: rat
    using mult_mono [OF that] that by (simp add: abs_mult)
  have ef: "\<bar>e * f\<bar> \<le> (1 / 2 ^ 53) / 2 ^ 53"
    by (rule prod) (use assms in simp_all)
  have "\<bar>e + f + e * f\<bar> \<le> \<bar>e\<bar> + \<bar>f\<bar> + \<bar>e * f\<bar>"
    by linarith
  also have "\<dots> \<le> 5 / 2 ^ 54"
    using assms ef by simp
  finally have p2: "\<bar>e + f + e * f\<bar> \<le> 5 / 2 ^ 54" .
  have "\<bar>g * (e + f + e * f)\<bar> \<le> (5 / 2 ^ 54) / 2 ^ 53"
    by (rule prod) (use assms p2 in simp_all)
  then have "\<bar>e + f + e * f\<bar> + \<bar>g\<bar> + \<bar>g * (e + f + e * f)\<bar>
      \<le> 5 / 2 ^ 54 + 1 / 2 ^ 53 + (5 / 2 ^ 54) / 2 ^ 53"
    using p2 assms(3) by (intro add_mono)
  also have "\<dots> \<le> 1 / 2 ^ 51"
    by simp
  finally have "\<bar>e + f + e * f\<bar> + \<bar>g\<bar> + \<bar>g * (e + f + e * f)\<bar> \<le> 1 / 2 ^ 51" .
  moreover have "(1 + e) * (1 + f) * (1 + g) - 1 = (e + f + e * f) + g + g * (e + f + e * f)"
    by (simp add: algebra_simps)
  moreover have "\<bar>(e + f + e * f) + g + g * (e + f + e * f)\<bar>
      \<le> \<bar>e + f + e * f\<bar> + \<bar>g\<bar> + \<bar>g * (e + f + e * f)\<bar>"
    by linarith
  ultimately show ?thesis
    by simp
qed

lemma rnd_scale_error:
  "\<bar>rnd (rnd (rnd a / d) * c) - a * c / d\<bar> \<le> \<bar>a * c / d\<bar> / 2 ^ 51"
proof -
  obtain e f g where r: "rnd a = a * (1 + e)" "rnd (rnd a / d) = rnd a / d * (1 + f)"
      "rnd (rnd (rnd a / d) * c) = rnd (rnd a / d) * c * (1 + g)"
    and b: "\<bar>e\<bar> \<le> 1 / 2 ^ 53" "\<bar>f\<bar> \<le> 1 / 2 ^ 53" "\<bar>g\<bar> \<le> 1 / 2 ^ 53"
    using rnd_factor by metis
  have "rnd (rnd (rnd a / d) * c) = a * (1 + e) / d * (1 + f) * c * (1 + g)"
    using r by (simp only:)
  also have "\<dots> = (a * c / d) * ((1 + e) * (1 + f) * (1 + g))"
    by simp
  finally have "rnd (rnd (rnd a / d) * c) - a * c / d = (a * c / d) * ((1 + e) * (1 + f) * (1 + g) - 1)"
    by (simp add: right_diff_distrib)
  then have "\<bar>rnd (rnd (rnd a / d) * c) - a * c / d\<bar>
      = \<bar>a * c / d\<bar> * \<bar>(1 + e) * (1 + f) * (1 + g) - 1\<bar>"
    by (simp add: abs_mult)
  also have "\<dots> \<le> \<bar>a * c / d\<bar> * (1 / 2 ^ 51)"
    by (intro mult_left_mono three_factors b) simp
  finally show ?thesis
    by simp
qed

lemma rnd_le_int: "\<bar>i\<bar> \<le> 2 ^ 53 \<Longrightarrow> x \<le> of_int i \<Longrightarrow> rnd x \<le> of_int i"
  using rnd_mono [of x "of_int i"] rnd_int [of i] by simp

lemma rnd_ge_int: "\<bar>i\<bar> \<le> 2 ^ 53 \<Longrightarrow> of_int i \<le> x \<Longrightarrow> of_int i \<le> rnd x"
  using rnd_mono [of "of_int i" x] rnd_int [of i] by simp

end

interpretation fp: rounding rnd64
  by unfold_locales (rule rnd64_mono rnd64_minus rnd64_of_int rnd64_error; assumption)+

end
