(* ===== verification/Qot_Types.thy ===== *)
theory Qot_Types
  imports Time_Math Double_Fp
begin

text \<open>
  The data types of \<open>src/src/qot_types.h\<close> that the services exchange: timelines,
  bindings, clock translation parameters and uncertainty bounds.  A character
  array that holds a NUL-terminated name is a \<open>string\<close>; a C \<open>int\<close> is an \<open>int\<close>.

  An enumeration read from a message can hold a value that names no enumerator
  (the code casts the received \<open>int\<close>); its datatype has a last constructor for
  those values.
\<close>

datatype qot_timeline_type =
    QOT_TIMELINE_LOCAL
  | QOT_TIMELINE_GLOBAL
  | Timeline_type_unnamed int

definition timeline_type_of_int :: "int \<Rightarrow> qot_timeline_type" where
  "timeline_type_of_int i =
     (if i = 0 then QOT_TIMELINE_LOCAL else if i = 1 then QOT_TIMELINE_GLOBAL
      else Timeline_type_unnamed i)"

fun int_of_timeline_type :: "qot_timeline_type \<Rightarrow> int" where
  "int_of_timeline_type QOT_TIMELINE_LOCAL = 0"
| "int_of_timeline_type QOT_TIMELINE_GLOBAL = 1"
| "int_of_timeline_type (Timeline_type_unnamed i) = i"

record qot_timeline =
  tln_name :: string
  tln_index :: int
  tln_type :: qot_timeline_type

record tl_translation =
  tr_last :: s64
  tr_mult :: s64
  tr_nsec :: s64
  tr_u_nsec :: s64
  tr_l_nsec :: s64
  tr_u_mult :: s64
  tr_l_mult :: s64
  tr_slope :: double

record qot_binding =
  bd_name :: string
  bd_demand :: timequality
  bd_id :: int
  bd_start_offset :: timepoint
  bd_period :: timelength

record qot_bounds =
  u_drift :: s64
  l_drift :: s64
  u_nsec :: s64
  l_nsec :: s64

record qot_stat =
  st_offset :: s64
  st_drift :: s64
  st_data_id :: s64

record stimepoint =
  stp_estimate :: timepoint
  stp_u_estimate :: timepoint
  stp_l_estimate :: timepoint

datatype qot_node_status = QOT_NODE_JOINED | QOT_NODE_LEFT

datatype qot_return =
    QOT_RETURN_TYPE_OK
  | QOT_RETURN_TYPE_ERR
  | Return_type_unnamed int

definition return_of_int :: "int \<Rightarrow> qot_return" where
  "return_of_int i =
     (if i = 0 then QOT_RETURN_TYPE_OK else if i = 1 then QOT_RETURN_TYPE_ERR
      else Return_type_unnamed i)"

fun int_of_return :: "qot_return \<Rightarrow> int" where
  "int_of_return QOT_RETURN_TYPE_OK = 0"
| "int_of_return QOT_RETURN_TYPE_ERR = 1"
| "int_of_return (Return_type_unnamed i) = i"

text \<open>A time server, from \<open>timeline-service/qot_tl_types.hpp\<close>.\<close>

record qot_server =
  sv_hostname :: string
  sv_type :: string
  sv_stratum :: int
  sv_info_timestamp :: u64
  sv_root_dispersion :: u64
  sv_root_delay :: u64
  sv_timeline_id :: int

text \<open>The values an enumeration can hold: an unnamed one is outside the range of
  the names.\<close>

definition timeline_type_ok :: "qot_timeline_type \<Rightarrow> bool" where
  "timeline_type_ok t \<longleftrightarrow> timeline_type_of_int (int_of_timeline_type t) = t
     \<and> int32 (int_of_timeline_type t)"

definition return_ok :: "qot_return \<Rightarrow> bool" where
  "return_ok r \<longleftrightarrow> return_of_int (int_of_return r) = r \<and> int32 (int_of_return r)"

section \<open>Names\<close>

text \<open>\<open>strcpy\<close> of a \<open>std::string\<close> into a name: the text up to the first NUL.  When it
  does not fit the array with its terminator the copy writes past the end,
  and no result is defined.\<close>

definition QOT_MAX_NAMELEN :: nat where "QOT_MAX_NAMELEN = 64"

definition c_str :: "string \<Rightarrow> string" where
  "c_str s = takeWhile (\<lambda>c. c \<noteq> CHR 0x00) s"

definition strcpy_name :: "string \<Rightarrow> string option" where
  "strcpy_name s = (if length (c_str s) < QOT_MAX_NAMELEN then Some (c_str s) else None)"

definition name_ok :: "string \<Rightarrow> bool" where
  "name_ok s \<longleftrightarrow> CHR 0x00 \<notin> set s \<and> length s < QOT_MAX_NAMELEN"

lemma strcpy_name_ok: "name_ok s \<Longrightarrow> strcpy_name s = Some s"
proof -
  assume ok: "name_ok s"
  then have "c_str s = s"
    unfolding c_str_def by (subst takeWhile_eq_all_conv) (auto simp: name_ok_def)
  with ok show ?thesis
    by (simp add: strcpy_name_def name_ok_def)
qed

lemma strcpy_name_is_ok: "strcpy_name s = Some t \<Longrightarrow> name_ok t"
  by (auto simp: strcpy_name_def name_ok_def c_str_def split: if_splits dest: set_takeWhileD)

section \<open>White space\<close>

definition is_space :: "char \<Rightarrow> bool" where
  "is_space c \<longleftrightarrow> c = CHR '' '' \<or> (of_char c :: nat) \<in> {9, 10, 11, 12, 13}"

section \<open>Decimal numbers\<close>

text \<open>What \<open>std::to_string\<close> and \<open>operator<<\<close> print for an integer.\<close>

fun show_nat :: "nat \<Rightarrow> string" where
  "show_nat n = (if n < 10 then [char_of (48 + n)]
                 else show_nat (n div 10) @ [char_of (48 + n mod 10)])"

declare show_nat.simps [simp del]

definition show_int :: "int \<Rightarrow> string" where
  "show_int i = (if i < 0 then ''-'' @ show_nat (nat (- i)) else show_nat (nat i))"

text \<open>The digits read back: \<open>std::stoi\<close> on a string of digits.\<close>

definition digits_val :: "string \<Rightarrow> nat" where
  "digits_val s = foldl (\<lambda>a c. a * 10 + (of_char c - 48)) 0 s"

lemma digits_val_show_nat: "digits_val (show_nat n) = n"
proof (induction n rule: show_nat.induct)
  case (1 n)
  show ?case
  proof (cases "n < 10")
    case True
    then show ?thesis
      by (simp add: show_nat.simps [of n] digits_val_def)
  next
    case False
    with 1 have "digits_val (show_nat (n div 10)) = n div 10"
      by simp
    with False show ?thesis
      by (simp add: show_nat.simps [of n] digits_val_def)
  qed
qed

lemma show_nat_inj: "show_nat m = show_nat n \<Longrightarrow> m = n"
  by (metis digits_val_show_nat)

end
