(* ===== verification/Ring_Buffers.thy ===== *)
theory Ring_Buffers
  imports Qot_Types "HOL-Library.Signed_Division"
begin

text \<open>
  The two circular buffers of clock parameters.

  \<open>CircularBuffer\<close> (\<open>api/cpp/clkparams_circbuffer.cpp\<close>) keeps the last clock
  translations an application received, \<open>CircBuffer\<close>
  (\<open>sync-service/sync/huygens/CircBuffer.cpp\<close>) the last offsets of a peer, with the
  slope and intercept of the line through the last two.  Both keep an insertion
  point, the number of valid slots and the size, and both search from the newest
  element to the oldest.

  The vector is only \<open>reserve\<close>d by the constructors and indexed afterwards; its
  storage is the function \<open>rb_buffer\<close> from slots to elements, whose initial
  content (unspecified in C++) is an argument of the constructors.

  The specification of both is a bounded list, the newest element first: the
  locale \<open>recent_buffer\<close>.
\<close>

section \<open>Storage and search order\<close>

record 'e ring =
  rb_buffer :: "int \<Rightarrow> 'e"
  rb_insert_point :: int
  rb_current_size :: int
  rb_buf_size :: int

text \<open>The slot the search loops of both classes visit in iteration \<open>i\<close>.\<close>

definition search_loc :: "int \<Rightarrow> int \<Rightarrow> int \<Rightarrow> int" where
  "search_loc insert_point current_size i =
     (if insert_point = 0 then current_size - 1 - i
      else let loc = insert_point - 1 - i
           in if loc < 0 then current_size + loc else loc)"

text \<open>The slots in the order of the iterations \<open>0, 1, \<dots>, current_size - 1\<close>.\<close>

definition visited :: "('e, 'z) ring_scheme \<Rightarrow> int list" where
  "visited b = map (search_loc (rb_insert_point b) (rb_current_size b)) [0..rb_current_size b - 1]"

section \<open>\<open>CircularBuffer\<close>\<close>

type_synonym circularbuffer = "tl_translation ring"

definition CIRBUFF_DEFSIZE_API :: int where "CIRBUFF_DEFSIZE_API = 10"

definition CircularBuffer :: "(int \<Rightarrow> tl_translation) \<Rightarrow> int \<Rightarrow> circularbuffer" where
  "CircularBuffer raw sz =
     \<lparr>rb_buffer = raw, rb_insert_point = 0, rb_current_size = 0,
      rb_buf_size = (if sz > 0 then sz else CIRBUFF_DEFSIZE_API)\<rparr>"

definition cb_AddElement :: "tl_translation \<Rightarrow> circularbuffer \<Rightarrow> circularbuffer" where
  "cb_AddElement params b =
     (let b1 = b\<lparr>rb_buffer := (rb_buffer b)(rb_insert_point b := params)\<rparr>;
          b2 = b1\<lparr>rb_insert_point := (rb_insert_point b + 1) mod rb_buf_size b\<rparr>
      in if rb_current_size b2 < rb_buf_size b2
         then b2\<lparr>rb_current_size := rb_current_size b2 + 1\<rparr> else b2)"

text \<open>\<open>FindParams\<close> returns the code's return value and the reference argument,
  \<open>None\<close> when it is left alone.\<close>

definition cb_FindParams :: "timepoint \<Rightarrow> circularbuffer \<Rightarrow> int \<times> tl_translation option" where
  "cb_FindParams coretime b =
     (let core_ns = TP_TO_nSEC coretime
      in if rb_current_size b = 0 then (- 1, None)
         else case find (\<lambda>loc. tr_last (rb_buffer b loc) <s core_ns) (visited b) of
                None \<Rightarrow> (- 1, None)
              | Some loc \<Rightarrow> (0, Some (rb_buffer b loc)))"

section \<open>\<open>CircBuffer\<close>\<close>

record peer_clk_params =
  pc_timestamp :: u64
  pc_offset_ns :: s64

record circbuffer = "peer_clk_params ring" +
  rb_prev_insert_point :: int
  rb_clk_params :: "tl_translation option"
  rb_latest_intercept :: s64
  rb_latest_slope :: double

definition CIRBUFF_DEFSIZE_PEER :: int where "CIRBUFF_DEFSIZE_PEER = 30"

definition CircBuffer :: "(int \<Rightarrow> peer_clk_params) \<Rightarrow> int \<Rightarrow> circbuffer" where
  "CircBuffer raw sz =
     \<lparr>rb_buffer = raw, rb_insert_point = 0, rb_current_size = 0,
      rb_buf_size = (if sz > 0 then sz else CIRBUFF_DEFSIZE_PEER),
      rb_prev_insert_point = - 1, rb_clk_params = None,
      rb_latest_intercept = 0, rb_latest_slope = 0\<rparr>"

text \<open>The line through two samples, as the code computes it: the slope in
  \<open>double\<close>, the intercept at the sample \<open>cur\<close>.\<close>

definition sample_slope :: "peer_clk_params \<Rightarrow> peer_clk_params \<Rightarrow> double" where
  "sample_slope new old =
     d_div (d_of_s64 (pc_offset_ns new - pc_offset_ns old))
           (d_of_u64 (pc_timestamp new - pc_timestamp old))"

definition sample_intercept :: "double \<Rightarrow> peer_clk_params \<Rightarrow> s64" where
  "sample_intercept slope cur =
     pc_offset_ns cur - s64_of_d (d_mul slope (d_of_u64 (pc_timestamp cur)))"

text \<open>\<open>AddElement\<close>: the locals \<open>intercept\<close> and \<open>slope\<close> are not initialised, so on the
  first sample the values stored at the end are whatever the stack held; \<open>junk\<close>
  is that pair.\<close>

definition pb_AddElement :: "s64 \<times> double \<Rightarrow> peer_clk_params \<Rightarrow> circbuffer \<Rightarrow> circbuffer" where
  "pb_AddElement junk params b =
     (if pc_timestamp params = 0 then b
      else if rb_prev_insert_point b \<ge> 0
           \<and> pc_timestamp params = pc_timestamp (rb_buffer b (rb_prev_insert_point b)) then b
      else let b1 = b\<lparr>rb_buffer := (rb_buffer b)(rb_insert_point b := params)\<rparr>;
               b2 = (if rb_current_size b1 < rb_buf_size b1
                     then b1\<lparr>rb_current_size := rb_current_size b1 + 1\<rparr> else b1);
               new = rb_buffer b2 (rb_insert_point b2);
               old = rb_buffer b2 (rb_prev_insert_point b2);
               (intercept, slope) =
                 (if rb_current_size b2 > 1
                  then let s = sample_slope new old in (sample_intercept s new, s) else junk);
               b3 = (if rb_current_size b2 > 1
                     then b2\<lparr>rb_clk_params := map_option
                            (\<lambda>c. c\<lparr>tr_last := 0,
                                   tr_mult := s64_of_d (d_mul (- slope) 1000000000),
                                   tr_nsec := - intercept,
                                   tr_slope := - slope\<rparr>) (rb_clk_params b2)\<rparr>
                     else b2)
           in b3\<lparr>rb_prev_insert_point := rb_insert_point b3,
                 rb_insert_point := (rb_insert_point b3 + 1) mod rb_buf_size b3,
                 rb_latest_intercept := intercept,
                 rb_latest_slope := slope\<rparr>)"

definition pb_GetOffset :: "u64 \<Rightarrow> circbuffer \<Rightarrow> s64" where
  "pb_GetOffset timestamp b =
     s64_of_d (d_mul (rb_latest_slope b) (d_of_u64 timestamp)) + rb_latest_intercept b"

definition pb_GetLatestDrift :: "circbuffer \<Rightarrow> double" where
  "pb_GetLatestDrift b = rb_latest_slope b"

text \<open>\<open>GetOffsettedTime\<close>: the division by \<open>1000000000ULL\<close> is unsigned, the
  remainder by \<open>1000000000LL\<close> signed.\<close>

definition pb_GetOffsettedTime :: "timespec \<Rightarrow> circbuffer \<Rightarrow> timespec" where
  "pb_GetOffsettedTime now b =
     (let now_ns = tv_sec now * 1000000000 + tv_nsec now;
          now_ns' = now_ns - (s64_of_d (d_mul (rb_latest_slope b) (d_of_s64 now_ns))
                              + rb_latest_intercept b)
      in \<lparr>tv_sec = now_ns' div 1000000000,
          tv_nsec = word_of_int (sint now_ns' smod 1000000000)\<rparr>)"

definition pb_SetClkParamVar :: "tl_translation option \<Rightarrow> circbuffer \<Rightarrow> circbuffer" where
  "pb_SetClkParamVar p b = b\<lparr>rb_clk_params := p\<rparr>"

text \<open>The loop of \<open>FindOffset\<close>; \<open>nxt\<close> is the variable \<open>next_loc\<close>, assigned in
  the iterations that find a timestamp not older than the one searched.\<close>

fun pb_offset_loop :: "circbuffer \<Rightarrow> u64 \<Rightarrow> int \<Rightarrow> int list \<Rightarrow> int \<Rightarrow> int \<times> s64 option" where
  "pb_offset_loop b timestamp i [] nxt = (- 1, None)"
| "pb_offset_loop b timestamp i (loc # locs) nxt =
     (let cur = rb_buffer b loc
      in if i = 0 \<and> timestamp > pc_timestamp cur then
           let prev = rb_buffer b (search_loc (rb_insert_point b) (rb_current_size b) (i + 1));
               slope = sample_slope cur prev
           in (0, Some (s64_of_d (d_mul slope (d_of_u64 timestamp)) + sample_intercept slope cur))
         else if timestamp > pc_timestamp cur then
           let slope = sample_slope (rb_buffer b nxt) cur
           in (0, Some (s64_of_d (d_mul slope (d_of_u64 timestamp)) + sample_intercept slope cur))
         else pb_offset_loop b timestamp (i + 1) locs loc)"

definition pb_FindOffset :: "u64 \<Rightarrow> circbuffer \<Rightarrow> int \<times> s64 option" where
  "pb_FindOffset timestamp b =
     (if rb_current_size b < 2 then (- 1, None)
      else pb_offset_loop b timestamp 0 (visited b) 0)"

definition pb_FindParams :: "u64 \<Rightarrow> circbuffer \<Rightarrow> int \<times> peer_clk_params option" where
  "pb_FindParams timestamp b =
     (if rb_current_size b = 0 then (- 1, None)
      else case find (\<lambda>loc. pc_timestamp (rb_buffer b loc) < timestamp) (visited b) of
             None \<Rightarrow> (- 1, None)
           | Some loc \<Rightarrow> (0, Some (rb_buffer b loc)))"

section \<open>The abstract buffer\<close>

text \<open>A bounded list of the most recent accepted elements.\<close>

definition recent_add :: "('e list \<Rightarrow> 'e \<Rightarrow> bool) \<Rightarrow> nat \<Rightarrow> 'e \<Rightarrow> 'e list \<Rightarrow> 'e list" where
  "recent_add acc n x xs = (if acc xs x then take n (x # xs) else xs)"

locale recent_items =
  fixes wf :: "'b \<Rightarrow> bool"
    and items :: "'b \<Rightarrow> 'e list"
    and cap :: "'b \<Rightarrow> nat"
    and accepts :: "'e list \<Rightarrow> 'e \<Rightarrow> bool"
    and push :: "'e \<Rightarrow> 'b \<Rightarrow> 'b"
  assumes push_wf: "wf b \<Longrightarrow> wf (push x b)"
    and push_items: "wf b \<Longrightarrow> items (push x b) = recent_add accepts (cap b) x (items b)"
    and push_cap: "wf b \<Longrightarrow> cap (push x b) = cap b"
    and cap_bound: "wf b \<Longrightarrow> length (items b) \<le> cap b"
begin

lemma fold_wf: "wf b \<Longrightarrow> wf (fold push xs b)"
  by (induction xs arbitrary: b) (simp_all add: push_wf)

lemma fold_cap: "wf b \<Longrightarrow> cap (fold push xs b) = cap b"
  by (induction xs arbitrary: b) (simp_all add: push_wf push_cap)

lemma fold_items:
  "wf b \<Longrightarrow> items (fold push xs b) = fold (recent_add accepts (cap b)) xs (items b)"
  by (induction xs arbitrary: b) (simp_all add: push_wf push_cap push_items)

lemma fold_bound: "wf b \<Longrightarrow> length (fold (recent_add accepts (cap b)) xs (items b)) \<le> cap b"
  using cap_bound [OF fold_wf, of b xs] by (simp add: fold_items fold_cap)

end

text \<open>A buffer that is also searched, from the newest element to the oldest.\<close>

locale recent_buffer = recent_items wf items cap accepts push
  for wf :: "'b \<Rightarrow> bool" and items :: "'b \<Rightarrow> 'e list" and cap :: "'b \<Rightarrow> nat"
    and accepts :: "'e list \<Rightarrow> 'e \<Rightarrow> bool" and push :: "'e \<Rightarrow> 'b \<Rightarrow> 'b" +
  fixes search :: "('e \<Rightarrow> bool) \<Rightarrow> 'b \<Rightarrow> 'e option"
  assumes search_items: "wf b \<Longrightarrow> search P b = find P (items b)"
begin

lemma fold_search:
  "wf b \<Longrightarrow> search P (fold push xs b) = find P (fold (recent_add accepts (cap b)) xs (items b))"
  by (simp add: search_items fold_wf fold_items)

end

lemma fold_recent_all:
  "fold (recent_add (\<lambda>_ _. True) n) xs ys = (if xs = [] then ys else take n (rev xs @ ys))"
proof (induction xs arbitrary: ys)
  case (Cons x xs)
  have "take n (rev xs @ take n (x # ys)) = take n (rev xs @ x # ys)"
    by (cases "n \<le> length xs") (simp_all add: take_append)
  then show ?case
    using Cons by (auto simp: recent_add_def)
qed simp

section \<open>The representation invariant\<close>

definition rb_inv :: "('e, 'z) ring_scheme \<Rightarrow> bool" where
  "rb_inv b \<longleftrightarrow> 0 < rb_buf_size b \<and> 0 \<le> rb_insert_point b \<and> rb_insert_point b < rb_buf_size b
     \<and> 0 \<le> rb_current_size b \<and> rb_current_size b \<le> rb_buf_size b
     \<and> (rb_current_size b < rb_buf_size b \<longrightarrow> rb_insert_point b = rb_current_size b)"

definition rb_items :: "('e, 'z) ring_scheme \<Rightarrow> 'e list" where
  "rb_items b = map (rb_buffer b) (visited b)"

definition rb_cap :: "('e, 'z) ring_scheme \<Rightarrow> nat" where
  "rb_cap b = nat (rb_buf_size b)"

definition rb_search :: "('e \<Rightarrow> bool) \<Rightarrow> ('e, 'z) ring_scheme \<Rightarrow> 'e option" where
  "rb_search P b = map_option (rb_buffer b) (find (\<lambda>loc. P (rb_buffer b loc)) (visited b))"

lemma search_loc_mod:
  assumes "rb_inv b" "0 \<le> i" "i < rb_current_size b"
  shows "search_loc (rb_insert_point b) (rb_current_size b) i
       = (rb_insert_point b - 1 - i) mod rb_buf_size b"
proof -
  have wrap: "k mod rb_buf_size b = rb_buf_size b + k" if "- rb_buf_size b \<le> k" "k < 0" for k
    using that mod_pos_pos_trivial [of "rb_buf_size b + k" "rb_buf_size b"] by simp
  have low: "- rb_buf_size b \<le> rb_insert_point b - 1 - i"
    using assms by (simp add: rb_inv_def)
  show ?thesis
    using assms wrap [OF low] by (auto simp: rb_inv_def search_loc_def Let_def)
qed

lemma rb_items_nth:
  assumes "rb_inv b"
  shows "rb_items b = map (\<lambda>i. rb_buffer b ((rb_insert_point b - 1 - int i) mod rb_buf_size b))
     [0..<nat (rb_current_size b)]"
proof -
  have "[0..rb_current_size b - 1] = map int [0..<nat (rb_current_size b)]"
    by (rule nth_equalityI) simp_all
  then show ?thesis
    using assms by (simp add: rb_items_def visited_def search_loc_mod)
qed

lemma length_visited [simp]: "length (visited b) = nat (rb_current_size b)"
  by (simp add: visited_def)

lemma length_rb_items [simp]: "length (rb_items b) = nat (rb_current_size b)"
  by (simp add: rb_items_def)

lemma rb_search_items: "rb_search P b = find P (rb_items b)"
proof -
  have "map_option f (find (\<lambda>l. P (f l)) ls) = find P (map f ls)" for f and ls :: "int list"
    by (induction ls) simp_all
  then show ?thesis
    by (simp add: rb_search_def rb_items_def)
qed

text \<open>Writing one element, in any record that extends \<open>ring\<close>.\<close>

lemma rb_push:
  assumes inv: "rb_inv b"
    and buf: "rb_buffer b' = (rb_buffer b)(rb_insert_point b := x)"
    and ins: "rb_insert_point b' = (rb_insert_point b + 1) mod rb_buf_size b"
    and cur: "rb_current_size b' = (if rb_current_size b < rb_buf_size b
                                    then rb_current_size b + 1 else rb_current_size b)"
    and size: "rb_buf_size b' = rb_buf_size b"
  shows "rb_inv b'" "rb_items b' = take (rb_cap b) (x # rb_items b)"
proof -
  let ?n = "rb_buf_size b" let ?p = "rb_insert_point b"
  have pos: "0 < ?n" and p: "0 \<le> ?p" "?p < ?n"
    using inv by (simp_all add: rb_inv_def)
  show inv': "rb_inv b'"
    using inv pos unfolding rb_inv_def ins cur size
    by (auto simp: mod_pos_pos_trivial)
  show "rb_items b' = take (rb_cap b) (x # rb_items b)"
  proof (rule nth_equalityI)
    show len: "length (rb_items b') = length (take (rb_cap b) (x # rb_items b))"
      using inv by (auto simp: cur rb_cap_def rb_inv_def)
    fix i
    assume "i < length (rb_items b')"
    then have i: "i < nat (rb_current_size b')"
      by simp
    have i': "int i < ?n"
      using i inv' size unfolding rb_inv_def by linarith
    have "((?p + 1) mod ?n - 1 - int i) mod ?n = (?p - int i) mod ?n"
      by (simp add: mod_diff_left_eq algebra_simps flip: mod_diff_left_eq [of "(?p + 1) mod ?n"])
    then have nth: "rb_items b' ! i = ((rb_buffer b)(?p := x)) ((?p - int i) mod ?n)"
      using i by (simp add: rb_items_nth [OF inv'] buf ins size)
    show "rb_items b' ! i = take (rb_cap b) (x # rb_items b) ! i"
    proof (cases i)
      case 0
      then show ?thesis
        using nth p pos by (simp add: rb_cap_def)
    next
      case (Suc j)
      have "(?p - int i) mod ?n \<noteq> ?p"
      proof
        assume "(?p - int i) mod ?n = ?p"
        then have "(?p - int i) mod ?n = ?p mod ?n"
          using p by simp
        then have "?n dvd int i"
          by (simp add: mod_eq_dvd_iff)
        with i' Suc show False
          by (simp add: zdvd_not_zless)
      qed
      moreover have "j < nat (rb_current_size b)"
        using i Suc inv by (auto simp: cur rb_inv_def split: if_splits)
      ultimately show ?thesis
        using nth Suc i' by (simp add: rb_items_nth [OF inv] rb_cap_def algebra_simps)
    qed
  qed
qed

section \<open>\<open>CircularBuffer\<close> implements the bounded list\<close>

lemma cb_AddElement_refines:
  assumes "rb_inv b"
  shows "rb_inv (cb_AddElement x b)"
    and "rb_items (cb_AddElement x b) = recent_add (\<lambda>_ _. True) (rb_cap b) x (rb_items b)"
    and "rb_cap (cb_AddElement x b) = rb_cap b"
  using rb_push [OF assms, of "cb_AddElement x b" x]
  by (simp_all add: cb_AddElement_def Let_def recent_add_def rb_cap_def)

lemma rb_items_cap: "rb_inv b \<Longrightarrow> length (rb_items b) \<le> rb_cap b"
  by (auto simp: rb_inv_def rb_cap_def intro: nat_mono)

interpretation cb: recent_buffer rb_inv rb_items rb_cap "\<lambda>_ _. True" cb_AddElement rb_search
  by unfold_locales (simp_all add: cb_AddElement_refines rb_search_items rb_items_cap del: length_rb_items)

lemma CircularBuffer_init [simp]:
  "rb_inv (CircularBuffer raw n)" "rb_items (CircularBuffer raw n) = []"
  "rb_cap (CircularBuffer raw n) = nat (if n > 0 then n else 10)"
  by (simp_all add: CircularBuffer_def rb_inv_def rb_items_def visited_def rb_cap_def
      CIRBUFF_DEFSIZE_API_def)

lemma cb_FindParams_search:
  "rb_inv b \<Longrightarrow> cb_FindParams t b =
     (case rb_search (\<lambda>p. tr_last p <s TP_TO_nSEC t) b of None \<Rightarrow> (- 1, None) | Some p \<Rightarrow> (0, Some p))"
  by (auto simp: cb_FindParams_def rb_search_def Let_def visited_def split: option.splits)

lemma cb_FindParams_recent:
  "cb_FindParams t (fold cb_AddElement xs (CircularBuffer raw n)) =
     (case find (\<lambda>p. tr_last p <s TP_TO_nSEC t) (take (nat (if n > 0 then n else 10)) (rev xs)) of
        None \<Rightarrow> (- 1, None) | Some p \<Rightarrow> (0, Some p))"
  by (simp add: cb_FindParams_search cb.fold_wf cb.fold_search fold_recent_all)

text \<open>C21: The buffer of clock parameters implements the list of the last n received elements: a
  search returns the newest element whose base is before the time searched, also after the
  insertion point has wrapped, and fails when there is none.\<close>

lemma circularbuffer_finds_newest_older:
  "cb_FindParams t (fold cb_AddElement xs (CircularBuffer raw n)) =
     (case find (\<lambda>p. tr_last p <s TP_TO_nSEC t) (take (nat (if n > 0 then n else 10)) (rev xs)) of
        None \<Rightarrow> (- 1, None) | Some p \<Rightarrow> (0, Some p))"
  by (rule cb_FindParams_recent)

section \<open>\<open>CircBuffer\<close> implements the bounded list of distinct samples\<close>

text \<open>What \<open>AddElement\<close> accepts: a non-zero timestamp that differs from the one
  of the newest element.\<close>

definition fresh_sample :: "peer_clk_params list \<Rightarrow> peer_clk_params \<Rightarrow> bool" where
  "fresh_sample ps p \<longleftrightarrow> pc_timestamp p \<noteq> 0
     \<and> (case ps of [] \<Rightarrow> True | q # _ \<Rightarrow> pc_timestamp p \<noteq> pc_timestamp q)"

definition pb_inv :: "circbuffer \<Rightarrow> bool" where
  "pb_inv b \<longleftrightarrow> rb_inv b
     \<and> rb_prev_insert_point b
       = (if rb_current_size b = 0 then - 1 else (rb_insert_point b - 1) mod rb_buf_size b)"

lemma pb_inv_rb: "pb_inv b \<Longrightarrow> rb_inv b"
  by (simp add: pb_inv_def)

lemma pb_prev_hd:
  assumes "pb_inv b" "0 < rb_current_size b"
  shows "rb_items b \<noteq> []" "hd (rb_items b) = rb_buffer b (rb_prev_insert_point b)"
    "0 \<le> rb_prev_insert_point b"
proof -
  have "rb_inv b"
    using assms by (simp add: pb_inv_def)
  then show ne: "rb_items b \<noteq> []" "0 \<le> rb_prev_insert_point b"
    using assms by (auto simp: pb_inv_def rb_inv_def simp flip: length_greater_0_conv)
  have "rb_items b ! 0 = rb_buffer b (rb_prev_insert_point b)"
    using assms rb_items_nth [OF \<open>rb_inv b\<close>] by (simp add: pb_inv_def)
  with ne show "hd (rb_items b) = rb_buffer b (rb_prev_insert_point b)"
    by (simp add: hd_conv_nth)
qed

lemma pb_fresh:
  assumes "pb_inv b"
  shows "fresh_sample (rb_items b) x \<longleftrightarrow> \<not> (pc_timestamp x = 0)
     \<and> \<not> (rb_prev_insert_point b \<ge> 0
          \<and> pc_timestamp x = pc_timestamp (rb_buffer b (rb_prev_insert_point b)))"
proof (cases "rb_current_size b = 0")
  case True
  then have "rb_items b = []"
    by (simp flip: length_0_conv)
  with True assms show ?thesis
    by (simp add: pb_inv_def fresh_sample_def)
next
  case False
  then have "0 < rb_current_size b"
    using assms by (simp add: pb_inv_def rb_inv_def)
  with pb_prev_hd [OF assms this] show ?thesis
    by (auto simp: fresh_sample_def split: list.splits)
qed

lemma pb_AddElement_fields:
  assumes "fresh_sample (rb_items b) x" "pb_inv b"
  shows "rb_buffer (pb_AddElement junk x b) = (rb_buffer b)(rb_insert_point b := x)"
    and "rb_insert_point (pb_AddElement junk x b) = (rb_insert_point b + 1) mod rb_buf_size b"
    and "rb_current_size (pb_AddElement junk x b) = (if rb_current_size b < rb_buf_size b
           then rb_current_size b + 1 else rb_current_size b)"
    and "rb_buf_size (pb_AddElement junk x b) = rb_buf_size b"
    and "rb_prev_insert_point (pb_AddElement junk x b) = rb_insert_point b"
  using assms pb_fresh [OF assms(2), of x]
  by (auto simp: pb_AddElement_def Let_def split_beta)

lemma pb_AddElement_refines:
  assumes "pb_inv b"
  shows "pb_inv (pb_AddElement junk x b)"
    and "rb_items (pb_AddElement junk x b) = recent_add fresh_sample (rb_cap b) x (rb_items b)"
    and "rb_cap (pb_AddElement junk x b) = rb_cap b"
proof -
  have inv: "rb_inv b"
    using assms by (simp add: pb_inv_def)
  have "pb_inv (pb_AddElement junk x b) \<and>
      rb_items (pb_AddElement junk x b) = recent_add fresh_sample (rb_cap b) x (rb_items b) \<and>
      rb_cap (pb_AddElement junk x b) = rb_cap b"
  proof (cases "fresh_sample (rb_items b) x")
    case False
    then have "pb_AddElement junk x b = b"
      using pb_fresh [OF assms, of x] by (auto simp: pb_AddElement_def)
    with False assms show ?thesis
      by (simp add: recent_add_def)
  next
    case True
    note f = pb_AddElement_fields [OF True assms, of junk]
    have "((rb_insert_point b + 1) mod rb_buf_size b - 1) mod rb_buf_size b = rb_insert_point b"
      using inv by (simp add: rb_inv_def mod_diff_left_eq)
    then show ?thesis
      using rb_push [OF inv f(1-4)] True f inv
      by (auto simp: pb_inv_def recent_add_def rb_cap_def rb_inv_def)
  qed
  then show "pb_inv (pb_AddElement junk x b)"
    "rb_items (pb_AddElement junk x b) = recent_add fresh_sample (rb_cap b) x (rb_items b)"
    "rb_cap (pb_AddElement junk x b) = rb_cap b"
    by simp_all
qed

interpretation pb: recent_buffer pb_inv rb_items rb_cap fresh_sample "pb_AddElement junk" rb_search
  for junk
  by unfold_locales
    (auto simp: pb_AddElement_refines rb_search_items rb_items_cap pb_inv_rb simp del: length_rb_items)

lemma CircBuffer_init [simp]:
  "pb_inv (CircBuffer raw n)" "rb_items (CircBuffer raw n) = []"
  "rb_cap (CircBuffer raw n) = nat (if n > 0 then n else 30)"
  by (simp_all add: CircBuffer_def pb_inv_def rb_inv_def rb_items_def visited_def rb_cap_def
      CIRBUFF_DEFSIZE_PEER_def)

lemma pb_FindParams_search:
  "rb_inv b \<Longrightarrow> pb_FindParams t b =
     (case rb_search (\<lambda>p. pc_timestamp p < t) b of None \<Rightarrow> (- 1, None) | Some p \<Rightarrow> (0, Some p))"
  by (auto simp: pb_FindParams_def rb_search_def visited_def split: option.splits)

text \<open>Two consecutive samples have different timestamps, so no slope divides by zero.\<close>

lemma distinct_adj_take: "distinct_adj xs \<Longrightarrow> distinct_adj (take n xs)"
  by (metis append_take_drop_id distinct_adj_appendD1)

lemma fresh_samples_distinct_adj:
  assumes "distinct_adj (map pc_timestamp ps)"
  shows "distinct_adj (map pc_timestamp (recent_add fresh_sample n p ps))"
proof (cases "fresh_sample ps p")
  case True
  then have "distinct_adj (map pc_timestamp (p # ps))"
    using assms by (cases ps) (auto simp: fresh_sample_def)
  then have "distinct_adj (take n (map pc_timestamp (p # ps)))"
    by (rule distinct_adj_take)
  moreover have "map pc_timestamp (recent_add fresh_sample n p ps) = take n (map pc_timestamp (p # ps))"
    using True by (simp only: recent_add_def if_True take_map)
  ultimately show ?thesis
    by (simp only:)
qed (use assms in \<open>simp add: recent_add_def\<close>)

lemma fold_fresh_distinct_adj:
  "distinct_adj (map pc_timestamp ps) \<Longrightarrow>
   distinct_adj (map pc_timestamp (fold (recent_add fresh_sample n) xs ps))"
  by (induction xs arbitrary: ps) (simp_all add: fresh_samples_distinct_adj)

text \<open>C22: The buffer of peer offsets implements the bounded list of accepted samples, newest
  first: samples without a timestamp or with the timestamp of the newest one are dropped,
  adjacent samples have different timestamps (so no slope divides by zero), and FindParams
  searches that list.\<close>

lemma circbuffer_refines_recent_samples:
  "rb_items (fold (pb_AddElement junk) xs (CircBuffer raw n))
     = fold (recent_add fresh_sample (nat (if n > 0 then n else 30))) xs [] \<and>
   distinct_adj (map pc_timestamp (rb_items (fold (pb_AddElement junk) xs (CircBuffer raw n)))) \<and>
   pb_FindParams t (fold (pb_AddElement junk) xs (CircBuffer raw n)) =
     (case find (\<lambda>p. pc_timestamp p < t)
             (fold (recent_add fresh_sample (nat (if n > 0 then n else 30))) xs []) of
        None \<Rightarrow> (- 1, None) | Some p \<Rightarrow> (0, Some p))"
proof -
  have wf: "pb_inv (fold (pb_AddElement junk) xs (CircBuffer raw n))"
    by (rule pb.fold_wf) simp
  have items: "rb_items (fold (pb_AddElement junk) xs (CircBuffer raw n))
     = fold (recent_add fresh_sample (nat (if n > 0 then n else 30))) xs []"
    by (subst pb.fold_items) simp_all
  have adj: "distinct_adj (map pc_timestamp
      (fold (recent_add fresh_sample (nat (if n > 0 then n else 30))) xs []))"
    by (rule fold_fresh_distinct_adj) simp
  show ?thesis
    unfolding pb_FindParams_search [OF pb_inv_rb [OF wf]] rb_search_items items
    using adj by blast
qed

section \<open>Interpolation\<close>

text \<open>The reference for \<open>FindOffset\<close>, on the list of samples: extrapolate the line
  of the two newest beyond the newest; otherwise interpolate between the
  neighbours that enclose the timestamp; fail below the oldest.\<close>

definition line_at :: "peer_clk_params \<Rightarrow> peer_clk_params \<Rightarrow> peer_clk_params \<Rightarrow> u64 \<Rightarrow> s64" where
  "line_at new old base t =
     s64_of_d (d_mul (sample_slope new old) (d_of_u64 t)) + sample_intercept (sample_slope new old) base"

fun enclosing :: "u64 \<Rightarrow> peer_clk_params list \<Rightarrow> (peer_clk_params \<times> peer_clk_params) option" where
  "enclosing t (p # q # ps) =
     (if pc_timestamp q < t then Some (p, q) else enclosing t (q # ps))"
| "enclosing t _ = None"

definition find_offset :: "u64 \<Rightarrow> peer_clk_params list \<Rightarrow> int \<times> s64 option" where
  "find_offset t ps =
     (case ps of
        p # q # _ \<Rightarrow>
          if pc_timestamp p < t then (0, Some (line_at p q p t))
          else (case enclosing t ps of
                  None \<Rightarrow> (- 1, None) | Some (n, old) \<Rightarrow> (0, Some (line_at n old old t)))
      | _ \<Rightarrow> (- 1, None))"

lemma pb_offset_loop_enclosing:
  "0 < i \<Longrightarrow> pb_offset_loop b t i locs nxt =
     (case enclosing t (rb_buffer b nxt # map (rb_buffer b) locs) of
        None \<Rightarrow> (- 1, None) | Some (n, old) \<Rightarrow> (0, Some (line_at n old old t)))"
  by (induction locs arbitrary: i nxt) (auto simp: Let_def line_at_def)

lemma pb_FindOffset_items:
  assumes "rb_inv b"
  shows "pb_FindOffset t b = find_offset t (rb_items b)"
proof (cases "rb_current_size b < 2")
  case True
  then have "length (rb_items b) < 2"
    by simp
  then have "find_offset t (rb_items b) = (- 1, None)"
    by (auto simp: find_offset_def simp del: length_rb_items split: list.splits)
  with True show ?thesis
    by (simp add: pb_FindOffset_def)
next
  case False
  define loc where "loc = search_loc (rb_insert_point b) (rb_current_size b)"
  have up: "[0..rb_current_size b - 1] = 0 # 1 # [2..rb_current_size b - 1]"
    using False by (simp add: upto_rec1)
  have vis: "visited b = loc 0 # loc 1 # map loc [2..rb_current_size b - 1]"
    by (simp add: visited_def up loc_def)
  show ?thesis
    using False
    by (auto simp: pb_FindOffset_def vis rb_items_def find_offset_def Let_def line_at_def
        pb_offset_loop_enclosing loc_def)
qed

text \<open>C23: FindOffset evaluates the line through the two samples that enclose the time searched,
  or through the two newest ones when the time is after both, and fails with fewer than
  two samples or for a time not after the oldest one.\<close>

lemma circbuffer_offset_interpolates:
  "pb_FindOffset t (fold (pb_AddElement junk) xs (CircBuffer raw n)) =
     find_offset t (fold (recent_add fresh_sample (nat (if n > 0 then n else 30))) xs [])"
  by (subst pb_FindOffset_items) (simp_all add: pb_inv_rb pb.fold_wf pb.fold_items)

text \<open>The published line: after every accepted sample but the first, slope and
  intercept are those of the line through the two newest samples.\<close>

lemma pb_AddElement_line:
  assumes "pb_inv b" "fresh_sample (rb_items b) x" "rb_items b = q # qs" "1 < rb_cap b"
  shows "rb_latest_slope (pb_AddElement junk x b) = sample_slope x q"
    and "rb_latest_intercept (pb_AddElement junk x b) = sample_intercept (sample_slope x q) x"
proof -
  have cur: "0 < rb_current_size b"
    using assms(3) length_rb_items [of b] by simp
  have prev: "rb_buffer b (rb_prev_insert_point b) = q" "0 \<le> rb_prev_insert_point b"
    using pb_prev_hd [OF assms(1) cur] assms(3) by simp_all
  have neq: "rb_insert_point b \<noteq> rb_prev_insert_point b"
  proof
    assume "rb_insert_point b = rb_prev_insert_point b"
    moreover have "rb_insert_point b mod rb_buf_size b = rb_insert_point b"
      using assms(1) by (simp add: pb_inv_def rb_inv_def)
    ultimately have "rb_insert_point b mod rb_buf_size b = (rb_insert_point b - 1) mod rb_buf_size b"
      using assms(1) cur by (simp add: pb_inv_def)
    then have "rb_buf_size b dvd 1"
      by (simp add: mod_eq_dvd_iff)
    with assms(4) show False
      by (simp add: rb_cap_def)
  qed
  have two: "rb_current_size b < rb_buf_size b \<or> 1 < rb_current_size b"
    using assms(1,4) cur by (auto simp: pb_inv_def rb_inv_def rb_cap_def)
  show "rb_latest_slope (pb_AddElement junk x b) = sample_slope x q"
    "rb_latest_intercept (pb_AddElement junk x b) = sample_intercept (sample_slope x q) x"
    using pb_fresh [OF assms(1), of x] assms(2) prev neq two cur
    by (auto simp: pb_AddElement_def Let_def)
qed

text \<open>The first sample publishes the uninitialised locals.\<close>

lemma pb_AddElement_first:
  "pc_timestamp x \<noteq> 0 \<Longrightarrow>
   rb_latest_slope (pb_AddElement junk x (CircBuffer raw n)) = snd junk \<and>
   rb_latest_intercept (pb_AddElement junk x (CircBuffer raw n)) = fst junk"
  by (simp add: pb_AddElement_def CircBuffer_def Let_def split_beta CIRBUFF_DEFSIZE_PEER_def)

end
