(* ===== verification/Clock_Translation.thy ===== *)
theory Clock_Translation
  imports Ring_Buffers
begin

text \<open>
  Reading a timeline clock, from \<open>api/cpp/qot_coreapi.cpp\<close>: the projection of core
  time to timeline time and back, the uncertainty of a reading, and the waits
  built on them.

  Everything is computed on 64-bit nanosecond counts that wrap; a division of
  \<open>int64_t\<close> truncates.  The inverse projection divides in \<open>double\<close>.  The clock
  parameters are pointers into shared memory, here the optional values behind
  them.  A function that dereferences a null pointer, or divides by zero, is
  \<open>None\<close>.
\<close>

section \<open>State of a binding\<close>

record timeline_binding =
  tb_info :: qot_timeline
  tb_binding :: qot_binding
  tb_status_flag :: int
  tb_clk_params :: "tl_translation option"
  tb_ov_clk_params :: "tl_translation option"
  tb_param_buffer :: "circularbuffer option"
  tb_nats_conn :: bool
  tb_nats_ok :: bool
  tb_nats_status_flag :: int

section \<open>Projections\<close>

definition s64div :: "s64 \<Rightarrow> s64 \<Rightarrow> s64" where
  "s64div a b = word_of_int (sint a sdiv sint b)"

definition giga :: s64 where "giga = 1000000000"

definition project_main :: "tl_translation \<Rightarrow> int \<Rightarrow> s64 \<Rightarrow> s64" where
  "project_main p period val =
     (if period \<noteq> 0 then val + s64div (tr_mult p * val) giga
      else let val = val - tr_last p
           in tr_nsec p + val + s64div (tr_mult p * val) giga)"

text \<open>The overlay multiplies after the division.\<close>

definition project_overlay :: "tl_translation \<Rightarrow> int \<Rightarrow> s64 \<Rightarrow> s64" where
  "project_overlay p period val =
     (if period \<noteq> 0 then val + tr_mult p * s64div val giga
      else let val = val - tr_last p
           in tr_nsec p + val + tr_mult p * s64div val giga)"

definition linear_bound :: "s64 \<Rightarrow> s64 \<Rightarrow> s64 \<Rightarrow> s64 \<Rightarrow> s64" where
  "linear_bound mult t lst nsec = s64div (mult * (t - lst)) giga + nsec"

definition qot_loc2rem ::
  "timeline_binding \<Rightarrow> utimepoint \<Rightarrow> int \<Rightarrow> int \<Rightarrow> (qot_return \<times> utimepoint) option" where
  "qot_loc2rem tb est period instant_flag =
     (if instant_flag = 0 then do {
        buf \<leftarrow> tb_param_buffer tb;
        Some (case cb_FindParams (utp_estimate est) buf of
            (r, Some params) \<Rightarrow>
              let val = TP_TO_nSEC (utp_estimate est);
                  u_bound = linear_bound (tr_u_mult params) val (tr_last params) (tr_u_nsec params);
                  l_bound = linear_bound (tr_l_mult params) val (tr_last params) (tr_l_nsec params)
              in (QOT_RETURN_TYPE_OK,
                  \<lparr>utp_estimate = TP_FROM_nSEC (project_main params period val),
                   utp_interval = \<lparr>below = TL_FROM_nSEC l_bound, above = TL_FROM_nSEC u_bound\<rparr>\<rparr>)
          | (r, None) \<Rightarrow> (QOT_RETURN_TYPE_ERR, est))
      }
      else case tb_clk_params tb of
             None \<Rightarrow> Some (QOT_RETURN_TYPE_ERR, est)
           | Some p \<Rightarrow>
               let val = project_main p period (TP_TO_nSEC (utp_estimate est));
                   val = (case tb_ov_clk_params tb of None \<Rightarrow> val | Some ov \<Rightarrow> project_overlay ov period val)
               in Some (QOT_RETURN_TYPE_OK, est\<lparr>utp_estimate := TP_FROM_nSEC val\<rparr>))"

text \<open>\<open>(int64_t)floor(((double)val / (double)(mult + 1000000000)) * 1000000000)\<close>.  A zero
  divisor gives an infinity or a NaN, which converts to the smallest integer.\<close>

definition unscale :: "s64 \<Rightarrow> s64 \<Rightarrow> s64" where
  "unscale mult val =
     (let d = d_of_s64 (mult + giga)
      in if d = 0 then word_of_int (- (2 ^ 63))
         else s64_of_d (of_int \<lfloor>d_mul (d_div (d_of_s64 val) d) 1000000000\<rfloor>))"

definition unproject :: "tl_translation \<Rightarrow> int \<Rightarrow> s64 \<Rightarrow> s64" where
  "unproject p period val =
     (if period \<noteq> 0 then unscale (tr_mult p) val
      else tr_last p + unscale (tr_mult p) (val - tr_nsec p))"

definition qot_rem2loc :: "timeline_binding \<Rightarrow> utimepoint \<Rightarrow> int \<Rightarrow> qot_return \<times> utimepoint" where
  "qot_rem2loc tb est period =
     (case tb_clk_params tb of
        None \<Rightarrow> (QOT_RETURN_TYPE_ERR, est)
      | Some p \<Rightarrow>
          let val = TP_TO_nSEC (utp_estimate est);
              val = (case tb_ov_clk_params tb of None \<Rightarrow> val | Some ov \<Rightarrow> unproject ov period val)
          in (QOT_RETURN_TYPE_OK, est\<lparr>utp_estimate := TP_FROM_nSEC (unproject p period val)\<rparr>))"

definition timeline_computeqot :: "timeline_binding \<Rightarrow> utimepoint \<Rightarrow> (qot_return \<times> utimepoint) option" where
  "timeline_computeqot tb est = do {
     p \<leftarrow> tb_clk_params tb;
     let coretime = TP_TO_nSEC (utp_estimate est);
     let u_bound = linear_bound (tr_u_mult p) coretime (tr_last p) (tr_u_nsec p);
     let l_bound = linear_bound (tr_l_mult p) coretime (tr_last p) (tr_l_nsec p);
     let (u_bound, l_bound) =
       (case tb_ov_clk_params tb of
          None \<Rightarrow> (u_bound, l_bound)
        | Some ov \<Rightarrow>
            (u_bound + linear_bound (tr_u_mult ov) (coretime + u_bound) (tr_last ov) (tr_u_nsec ov),
             l_bound + linear_bound (tr_l_mult ov) (coretime - l_bound) (tr_last ov) (tr_l_nsec ov)));
     Some (QOT_RETURN_TYPE_OK,
           est\<lparr>utp_interval := \<lparr>below = TL_FROM_nSEC l_bound, above = TL_FROM_nSEC u_bound\<rparr>\<rparr>)
   }"

text \<open>The core clock is \<open>CLOCK_REALTIME\<close>; its reading is an argument.\<close>

definition timeline_getcoretime :: "timespec \<Rightarrow> utimepoint \<Rightarrow> qot_return \<times> utimepoint" where
  "timeline_getcoretime now core_now =
     (QOT_RETURN_TYPE_OK, core_now\<lparr>utp_estimate := timepoint_from_timespec now\<rparr>)"

definition timeline_getvtime ::
  "timeline_binding \<Rightarrow> timespec \<Rightarrow> utimepoint \<Rightarrow> (qot_return \<times> utimepoint) option" where
  "timeline_getvtime tb now est = do {
     let (_, est) = timeline_getcoretime now est;
     (_, est) \<leftarrow> timeline_computeqot tb est;
     qot_loc2rem tb est 0 1
   }"

definition timeline_gettime ::
  "timeline_binding \<Rightarrow> timespec \<Rightarrow> utimepoint \<Rightarrow> (qot_return \<times> utimepoint) option" where
  "timeline_gettime tb now est = timeline_getvtime tb now est"

section \<open>Waiting\<close>

text \<open>A wait returns its code, the caller's argument afterwards and the absolute time
  handed to \<open>clock_nanosleep\<close>.\<close>

definition timeline_waituntil ::
  "timeline_binding \<Rightarrow> utimepoint \<Rightarrow> qot_return \<times> utimepoint \<times> timespec option" where
  "timeline_waituntil tb utp =
     (case qot_rem2loc tb utp 0 of
        (rv, utp') \<Rightarrow>
          if rv = QOT_RETURN_TYPE_ERR then (QOT_RETURN_TYPE_ERR, utp', None)
          else (QOT_RETURN_TYPE_OK, utp, Some (timespec_from_timepoint (utp_estimate utp'))))"

text \<open>The next instant of the period grid; \<open>None\<close> for a period of zero nanoseconds.\<close>

definition next_wakeup :: "timepoint \<Rightarrow> timelength \<Rightarrow> timepoint \<Rightarrow> timepoint option" where
  "next_wakeup start_offset period now =
     (if timepoint_cmp (Some start_offset) (Some now) < 0 then Some start_offset
      else do {
        elapsed_time \<leftarrow> timepoint_diff (Some \<lparr>tl_sec = 0, tl_asec = 0\<rparr>) (Some now) (Some start_offset);
        let elapsed_ns = TL_TO_nSEC elapsed_time;
        let period_ns = TL_TO_nSEC period;
        if period_ns = 0 then None
        else do {
          let num_periods = elapsed_ns div period_ns;
          let num_periods = (if elapsed_ns mod period_ns \<noteq> 0 then num_periods + 1 else num_periods);
          let elapsed_ns = period_ns * num_periods;
          Some (timepoint_add start_offset (TL_FROM_nSEC elapsed_ns))
        }
      })"

definition timeline_waituntil_nextperiod ::
  "timeline_binding \<Rightarrow> timespec \<Rightarrow> utimepoint \<Rightarrow> utimepoint
     \<Rightarrow> (qot_return \<times> utimepoint \<times> timespec option) option" where
  "timeline_waituntil_nextperiod tb now raw utp = do {
     (rv, wait_until_time) \<leftarrow> timeline_getvtime tb now raw;
     if rv = QOT_RETURN_TYPE_ERR then Some (QOT_RETURN_TYPE_ERR, utp, None)
     else do {
       wakeup \<leftarrow> next_wakeup (bd_start_offset (tb_binding tb)) (bd_period (tb_binding tb))
                   (utp_estimate wait_until_time);
       let (rv, w) = qot_rem2loc tb (wait_until_time\<lparr>utp_estimate := wakeup\<rparr>) 0;
       if rv = QOT_RETURN_TYPE_ERR then Some (QOT_RETURN_TYPE_ERR, utp, None)
       else Some (QOT_RETURN_TYPE_OK, w, Some (timespec_from_timepoint (utp_estimate w)))
     }
   }"

text \<open>\<open>timeline_sleep\<close> projects the absolute wake-up time back as if it were a
  duration (\<open>period\<close> is 1).\<close>

definition timeline_sleep ::
  "timeline_binding \<Rightarrow> timespec \<Rightarrow> utimepoint \<Rightarrow> utimelength \<Rightarrow> (qot_return \<times> timespec option) option" where
  "timeline_sleep tb now raw utl = do {
     (rv, t) \<leftarrow> timeline_getvtime tb now raw;
     if rv = QOT_RETURN_TYPE_ERR then Some (QOT_RETURN_TYPE_ERR, None)
     else do {
       let t = \<lparr>utp_estimate = timepoint_add (utp_estimate t) (utl_estimate utl),
                utp_interval = utl_interval utl\<rparr>;
       let (rv, w) = qot_rem2loc tb t 1;
       if rv = QOT_RETURN_TYPE_ERR then Some (QOT_RETURN_TYPE_ERR, None)
       else Some (QOT_RETURN_TYPE_OK, Some (timespec_from_timepoint (utp_estimate w)))
     }
   }"

text \<open>Both conversions ignore the result of the projection and always succeed.\<close>

definition timeline_core2rem :: "timeline_binding \<Rightarrow> timeinterval \<Rightarrow> timepoint \<Rightarrow> (qot_return \<times> timepoint) option" where
  "timeline_core2rem tb junk est = do {
     (_, utp) \<leftarrow> qot_loc2rem tb \<lparr>utp_estimate = est, utp_interval = junk\<rparr> 0 0;
     Some (QOT_RETURN_TYPE_OK, utp_estimate utp)
   }"

definition timeline_rem2core :: "timeline_binding \<Rightarrow> timeinterval \<Rightarrow> timepoint \<Rightarrow> qot_return \<times> timepoint" where
  "timeline_rem2core tb junk est =
     (let (_, utp) = qot_rem2loc tb \<lparr>utp_estimate = est, utp_interval = junk\<rparr> 0
      in (QOT_RETURN_TYPE_OK, utp_estimate utp))"

text \<open>Timers are not implemented on top of the service.\<close>

definition timeline_timer_create :: "timeline_binding \<Rightarrow> qot_return" where
  "timeline_timer_create tb = QOT_RETURN_TYPE_ERR"

definition timeline_timer_cancel :: "timeline_binding \<Rightarrow> qot_return" where
  "timeline_timer_cancel tb = QOT_RETURN_TYPE_ERR"

section \<open>The wake-up is on the period grid\<close>

lemma grid_round_up:
  fixes e P :: nat
  assumes "0 < P"
  defines "k \<equiv> e div P + (if e mod P \<noteq> 0 then 1 else 0)"
  shows "e \<le> P * k" "P * k < e + P"
proof -
  have aux: "e \<le> x \<and> x < e + P" if "m + r = e" "r < P" "x = m + (if r \<noteq> 0 then P else 0)" for m r x
    using that assms(1) by (auto split: if_splits)
  have "P * k = P * (e div P) + (if e mod P \<noteq> 0 then P else 0)"
    by (simp add: k_def distrib_left)
  then have "e \<le> P * k \<and> P * k < e + P"
    using assms(1) by (intro aux [of "P * (e div P)" "e mod P"]) simp_all
  then show "e \<le> P * k" "P * k < e + P"
    by simp_all
qed

lemma TL_TO_nSEC_val: "tl_val l div 10 ^ 9 < 2 ^ 64 \<Longrightarrow> unat (TL_TO_nSEC l) = tl_val l div 10 ^ 9"
  unfolding TL_TO_nSEC_def using TL_TO_GEN_val [of nSEC_PER_SEC nSEC_PER_SEC l] by simp

lemma TL_FROM_nSEC_val: "tl_val (TL_FROM_nSEC t) = unat t * 10 ^ 9" "tl_norm (TL_FROM_nSEC t)"
  by (simp_all add: TL_FROM_nSEC_def scalar_to_timelength_val)

text \<open>The case where the start offset is past and no borrow is involved.\<close>

lemma next_wakeup_past:
  assumes norm: "tp_norm st" "tp_norm now"
    and order: "tp_val st \<le> tp_val now" and borrow: "uint (tp_asec st) \<le> uint (tp_asec now)"
    and span: "tp_val now - tp_val st < 2 ^ 63 * 10 ^ 9"
    and P: "tl_val period = P * 10 ^ 9" "0 < P" "P < 2 ^ 63"
    and fits: "tp_val now + int P * 10 ^ 9 < 2 ^ 63 * 10 ^ 18"
  shows "\<exists>k wake. next_wakeup st period now = Some wake \<and>
     tp_val wake = tp_val st + int (k * P) * 10 ^ 9 \<and>
     tp_val now - 10 ^ 9 < tp_val wake \<and> tp_val wake < tp_val now + int P * 10 ^ 9"
proof -
  let ?E = "tp_val now - tp_val st"
  define ds da where "ds = sint (tp_sec now) - sint (tp_sec st)"
    and "da = uint (tp_asec now) - uint (tp_asec st)"
  have E: "?E = ds * 10 ^ 18 + da" and da: "0 \<le> da" "da < 10 ^ 18"
    using borrow norm uint_ge_0 [of "tp_asec st"]
    by (auto simp: ds_def da_def tp_val_def tp_norm_def algebra_simps)
      (smt (verit) uint_ge_0)?
  have ds: "0 \<le> ds" "ds < 2 ^ 63"
  proof -
    show "0 \<le> ds"
    proof (rule ccontr)
      assume "\<not> 0 \<le> ds"
      then have "ds * 10 ^ 18 + da < 0"
        using da by simp
      with E order show False
        by simp
    qed
    show "ds < 2 ^ 63"
      using E span da by simp
  qed
  obtain d where d: "timepoint_diff (Some \<lparr>tl_sec = 0, tl_asec = 0\<rparr>) (Some now) (Some st) = Some d"
    by (simp add: timepoint_diff_def)
  have "map_option (int \<circ> tl_val) (Some d) = Some (\<bar>ds\<bar> * 10 ^ 18 + \<bar>da\<bar>)"
    unfolding d [symmetric] ds_def da_def
    by (rule timepoint_diff_fields) (use ds in \<open>simp_all add: ds_def\<close>)
  then have dv: "int (tl_val d) = ?E"
    using ds da E by simp
  define e where "e = tl_val d div 10 ^ 9"
  have e: "int e \<le> ?E div 10 ^ 9" "e < 2 ^ 63" "tl_val d < (e + 1) * 10 ^ 9" "e * 10 ^ 9 \<le> tl_val d"
  proof -
    show "e * 10 ^ 9 \<le> tl_val d" "tl_val d < (e + 1) * 10 ^ 9"
      unfolding e_def by (simp_all add: div_times_less_eq_dividend dividend_less_div_times)
    then show "e < 2 ^ 63"
      using dv span by simp
    show "int e \<le> ?E div 10 ^ 9"
      by (simp add: e_def dv [symmetric] zdiv_int)
  qed
  have en: "unat (TL_TO_nSEC d) = e"
    unfolding e_def by (rule TL_TO_nSEC_val) (use e(2) in \<open>simp add: e_def\<close>)
  have pn: "unat (TL_TO_nSEC period) = P"
    using TL_TO_nSEC_val [of period] P by simp
  define k where "k = e div P + (if e mod P \<noteq> 0 then 1 else 0)"
  have k: "e \<le> P * k" "P * k < e + P"
    unfolding k_def using grid_round_up [OF P(2), of e] by simp_all
  have divP: "e div P < 2 ^ 63"
    using e(2) div_le_dividend [of e P] by linarith
  let ?n = "TL_TO_nSEC d div TL_TO_nSEC period"
  have n: "unat ?n = e div P" "unat (TL_TO_nSEC d mod TL_TO_nSEC period) = e mod P"
    by (simp_all add: unat_div unat_mod en pn)
  let ?num = "if TL_TO_nSEC d mod TL_TO_nSEC period \<noteq> 0 then ?n + 1 else ?n"
  have num: "unat ?num = k"
  proof -
    have "(TL_TO_nSEC d mod TL_TO_nSEC period \<noteq> 0) = (e mod P \<noteq> 0)"
      using n(2) by (metis unat_eq_zero)
    moreover have "unat (?n + 1) = e div P + 1"
      using n(1) divP by (subst unat_add_nowrap) simp_all
    ultimately show ?thesis
      using n(1) by (simp add: k_def)
  qed
  have prod: "unat (TL_TO_nSEC period * ?num) = P * k"
    using k(2) e(2) P(3) by (subst unat_mult_nowrap) (simp_all only: num pn, simp)
  let ?l = "TL_FROM_nSEC (TL_TO_nSEC period * ?num)"
  have lval: "tl_val ?l = P * k * 10 ^ 9" "tl_norm ?l"
    by (simp_all only: TL_FROM_nSEC_val prod)
  have kub: "int (P * k) * 10 ^ 9 < ?E + int P * 10 ^ 9"
  proof -
    have "P * k * 10 ^ 9 + 10 ^ 9 \<le> (e + P) * 10 ^ 9"
      using k(2) by simp
    then have "P * k * 10 ^ 9 < tl_val d + P * 10 ^ 9"
      using e(4) by (simp add: algebra_simps)
    then have "int (P * k * 10 ^ 9) < int (tl_val d + P * 10 ^ 9)"
      by (simp only: of_nat_less_iff)
    then show ?thesis
      using dv by simp
  qed
  have add: "tp_val (timepoint_add st ?l) = tp_val st + int (tl_val ?l)"
    by (rule timepoint_add_val [OF norm(1) lval(2)]) (use kub lval(1) fits in simp)
  have cmp: "\<not> timepoint_cmp (Some st) (Some now) < 0"
    using timepoint_cmp_sgn [OF norm] order by (simp add: sgn_if)
  have nz: "TL_TO_nSEC period \<noteq> 0"
    using pn P(2) by auto
  have "next_wakeup st period now = Some (timepoint_add st ?l)"
    using cmp d nz by (simp add: next_wakeup_def Let_def)
  moreover have "tp_val (timepoint_add st ?l) = tp_val st + int (k * P) * 10 ^ 9"
    using add lval(1) by (simp add: mult.commute)
  moreover have "?E < int (k * P) * 10 ^ 9 + 10 ^ 9"
  proof -
    have "(e + 1) * 10 ^ 9 \<le> P * k * 10 ^ 9 + 10 ^ 9"
      using k(1) by simp
    then have "tl_val d < k * P * 10 ^ 9 + 10 ^ 9"
      using e(3) by (simp add: algebra_simps)
    then have "int (tl_val d) < int (k * P * 10 ^ 9 + 10 ^ 9)"
      by (simp only: of_nat_less_iff)
    then show ?thesis
      using dv by simp
  qed
  ultimately show ?thesis
    using kub by (intro exI [of _ k] exI [of _ "timepoint_add st ?l"]) (simp add: mult.commute)
qed

text \<open>C20: When the subsecond part of the start offset does not exceed that of the present time,
  the wake-up instant of a periodic wait is on the grid of the period, not more than a
  nanosecond in the past, and less than one period ahead once the start has passed.\<close>

lemma next_wakeup_on_grid:
  assumes "tp_norm st" "tp_norm now"
    and "tp_val st \<le> tp_val now \<Longrightarrow> uint (tp_asec st) \<le> uint (tp_asec now)"
    and "tp_val now - tp_val st < 2 ^ 63 * 10 ^ 9"
    and "tl_val period = P * 10 ^ 9" "0 < P" "P < 2 ^ 63"
    and "tp_val now + int P * 10 ^ 9 < 2 ^ 63 * 10 ^ 18"
  shows "\<exists>k wake. next_wakeup st period now = Some wake \<and>
     tp_val wake = tp_val st + int (k * P) * 10 ^ 9 \<and>
     tp_val now - 10 ^ 9 < tp_val wake \<and>
     (tp_val st \<le> tp_val now \<longrightarrow> tp_val wake < tp_val now + int P * 10 ^ 9)"
proof (cases "tp_val st \<le> tp_val now")
  case True
  then show ?thesis
    using next_wakeup_past [OF assms(1,2) True assms(3) [OF True] assms(4-8)] by blast
next
  case False
  then have "timepoint_cmp (Some st) (Some now) < 0"
    using timepoint_cmp_sgn [OF assms(1,2)] by (simp add: sgn_if)
  with False show ?thesis
    by (intro exI [of _ 0] exI [of _ st]) (simp add: next_wakeup_def)
qed

lemma next_wakeup_on_grid_witness:
  "\<exists>wake. next_wakeup \<lparr>tp_sec = 1, tp_asec = 0\<rparr> \<lparr>tl_sec = 2, tl_asec = 0\<rparr>
       \<lparr>tp_sec = 4, tp_asec = 500000000000000000\<rparr> = Some wake \<and>
     4499999999000000000 < tp_val wake \<and> tp_val wake < 6500000000000000000"
proof -
  let ?s = "\<lparr>tp_sec = 1, tp_asec = 0\<rparr>" let ?n = "\<lparr>tp_sec = 4, tp_asec = 500000000000000000\<rparr>"
  let ?p = "\<lparr>tl_sec = 2, tl_asec = 0\<rparr>"
  have v: "tp_val ?s = 1000000000000000000" "tp_val ?n = 4500000000000000000" "tp_norm ?s" "tp_norm ?n"
    "tl_val ?p = 2000000000 * 10 ^ 9"
    by (simp_all add: tp_val_def tp_norm_def tl_val_def)
  have "\<exists>k wake. next_wakeup ?s ?p ?n = Some wake \<and>
     tp_val wake = tp_val ?s + int (k * 2000000000) * 10 ^ 9 \<and>
     tp_val ?n - 10 ^ 9 < tp_val wake \<and>
     (tp_val ?s \<le> tp_val ?n \<longrightarrow> tp_val wake < tp_val ?n + int 2000000000 * 10 ^ 9)"
    by (rule next_wakeup_on_grid) (use v in simp_all)
  then show ?thesis
    using v(1,2) by auto
qed

text \<open>Otherwise a period can be skipped: with a start at 0.9 s and a period of 1 s, a wait
  at 2.0 s wakes up at 3.9 s although 2.9 s is on the grid and still ahead.\<close>

lemma next_wakeup_skips_period:
  "next_wakeup \<lparr>tp_sec = 0, tp_asec = 900000000000000000\<rparr> \<lparr>tl_sec = 1, tl_asec = 0\<rparr> \<lparr>tp_sec = 2, tp_asec = 0\<rparr>
     = Some \<lparr>tp_sec = 3, tp_asec = 900000000000000000\<rparr> \<and>
   tp_val \<lparr>tp_sec = 2, tp_asec = 0\<rparr> < tp_val \<lparr>tp_sec = 2, tp_asec = 900000000000000000\<rparr>"
  by (simp add: next_wakeup_def timepoint_cmp_def timepoint_diff_def llabs_def TL_TO_nSEC_def TL_TO_GEN_def
      TL_FROM_nSEC_def scalar_to_timelength_def timepoint_add_def ratio_defs Let_def tp_val_def
      word_sless_sint)

section \<open>Projecting back\<close>

definition unscale_ideal :: "s64 \<Rightarrow> s64 \<Rightarrow> rat" where
  "unscale_ideal mult val = of_int (sint val) * 1000000000 / of_int (sint mult + 1000000000)"

lemma s64_of_d_int:
  "- (2 ^ 63) \<le> i \<Longrightarrow> i < 2 ^ 63 \<Longrightarrow> sint (s64_of_d (of_int i)) = i"
  by (auto simp: s64_of_d_def rtrunc_def Let_def intro!: sint_eqI)

lemma unscale_error:
  assumes D: "0 < sint mult + 10 ^ 9" "sint mult + 10 ^ 9 \<le> 2 ^ 53"
    and range: "\<bar>unscale_ideal mult val\<bar> < 2 ^ 62"
  shows "\<bar>of_int (sint (unscale mult val)) - unscale_ideal mult val\<bar>
       \<le> \<bar>unscale_ideal mult val\<bar> / 2 ^ 51 + 1"
proof -
  have "sint (mult + giga) = sint mult + sint giga"
    by (rule sint_add_nowrap) (use D in \<open>simp_all add: giga_def\<close>)
  then have sD: "sint (mult + giga) = sint mult + 10 ^ 9"
    by (simp add: giga_def)
  have d: "d_of_s64 (mult + giga) = of_int (sint mult + 10 ^ 9)"
    unfolding d_of_s64_def sD by (rule fp.rnd_int) (use D in simp)
  let ?r = "d_mul (d_div (d_of_s64 val) (of_int (sint mult + 10 ^ 9))) 1000000000"
  let ?i = "unscale_ideal mult val"
  have err: "\<bar>?r - ?i\<bar> \<le> \<bar>?i\<bar> / 2 ^ 51"
    using fp.rnd_scale_error [of "of_int (sint val)" "of_int (sint mult + 10 ^ 9)" 1000000000]
    by (simp add: d_mul_def d_div_def d_of_s64_def unscale_ideal_def)
  have "\<bar>?i\<bar> / 2 ^ 51 \<le> 2 ^ 62 / 2 ^ 51"
    using range by (intro divide_right_mono) simp_all
  then have "\<bar>?r\<bar> < 2 ^ 62 + 2 ^ 12"
    using err range by (simp add: abs_if split: if_splits)
  then have fl: "- (2 ^ 63) \<le> \<lfloor>?r\<rfloor>" "\<lfloor>?r\<rfloor> < 2 ^ 63"
    by (simp_all add: le_floor_iff floor_less_iff abs_if split: if_splits)
  have nz: "(of_int (sint mult + 10 ^ 9) :: rat) \<noteq> 0"
    using D(1) by (metis of_int_0_eq_iff less_irrefl)
  have "sint (unscale mult val) = \<lfloor>?r\<rfloor>"
    using nz s64_of_d_int [OF fl] by (simp add: unscale_def d Let_def)
  moreover have "\<bar>of_int \<lfloor>?r\<rfloor> - ?r\<bar> \<le> 1"
    by linarith
  ultimately show ?thesis
    using err by linarith
qed

lemma sdiv_near: "\<bar>of_int (x sdiv 1000000000) - of_int x / (1000000000 :: rat)\<bar> \<le> 1"
proof -
  let ?G = "1000000000 :: int"
  have near: "\<bar>of_int (y div ?G) - of_int y / (1000000000 :: rat)\<bar> \<le> 1" for y
  proof -
    have "y = (y div ?G) * ?G + y mod ?G"
      by simp
    then have "(of_int y :: rat) = of_int (y div ?G) * 1000000000 + of_int (y mod ?G)"
      by (metis of_int_add of_int_mult of_int_numeral)
    then have "of_int y / 1000000000 = of_int (y div ?G) + of_int (y mod ?G) / (1000000000 :: rat)"
      by (simp add: add_divide_distrib)
    moreover have "0 \<le> of_int (y mod ?G) / (1000000000 :: rat)" "of_int (y mod ?G) / (1000000000 :: rat) \<le> 1"
      using pos_mod_bound [of ?G y] by (simp_all add: order_less_imp_le)
    ultimately show ?thesis
      by linarith
  qed
  show ?thesis
  proof (cases "0 \<le> x")
    case True
    then show ?thesis
      using near [of x] by (simp add: signed_divide_int_def sgn_if)
  next
    case False
    then have "x sdiv ?G = - ((- x) div ?G)"
      by (simp add: signed_divide_int_def)
    then show ?thesis
      using near [of "- x"] by (simp add: abs_minus_commute)
  qed
qed

lemma sdiv_bound: "\<bar>x :: int\<bar> < 2 ^ 62 \<Longrightarrow> \<bar>x sdiv 1000000000\<bar> < 2 ^ 33"
proof -
  assume x: "\<bar>x\<bar> < 2 ^ 62"
  have "\<bar>x\<bar> div 1000000000 \<le> 2 ^ 62 div 1000000000"
    using x by (intro zdiv_mono1) simp_all
  moreover have "\<bar>x sdiv 1000000000\<bar> \<le> \<bar>x\<bar> div 1000000000"
    by (cases "0 \<le> x") (simp_all add: signed_divide_int_def abs_mult sgn_if abs_if pos_imp_zdiv_nonneg_iff)
  ultimately show ?thesis
    by simp
qed

lemma TP_nSEC_inverse: "TP_TO_nSEC (TP_FROM_nSEC v) = v"
  by (simp add: TP_FROM_nSEC_def TP_TO_nSEC_def TP_TO_GEN_scalar)

lemma TP_FROM_nSEC_val: "tp_val (TP_FROM_nSEC v) = sint v * 10 ^ 9"
  by (simp add: TP_FROM_nSEC_def scalar_to_timepoint_val) (simp add: nSEC_PER_SEC_def)

text \<open>Projecting a reading forward and back.\<close>

lemma project_unproject_error:
  assumes m: "- 500000000 \<le> sint (tr_mult p)" "sint (tr_mult p) \<le> 10 ^ 9"
    and v: "\<bar>sint v - sint (tr_last p)\<bar> < 2 ^ 60" and l: "\<bar>sint (tr_last p)\<bar> < 2 ^ 61"
    and prod: "\<bar>sint (tr_mult p) * (sint v - sint (tr_last p))\<bar> < 2 ^ 62"
  shows "\<bar>sint (unproject p 0 (project_main p 0 v)) - sint v\<bar> \<le> \<bar>sint v - sint (tr_last p)\<bar> div 2 ^ 51 + 4"
proof -
  let ?x = "v - tr_last p" let ?X = "sint v - sint (tr_last p)" let ?m = "sint (tr_mult p)"
  have x: "sint ?x = ?X"
    by (rule sint_sub_nowrap) (use v in simp_all)
  have mx: "sint (tr_mult p * ?x) = ?m * ?X"
  proof (rule sint_eqI)
    show "tr_mult p * ?x = word_of_int (?m * ?X)"
      by (simp flip: x)
  qed (use prod in simp_all)
  let ?q = "(?m * ?X) sdiv 1000000000"
  have qb: "\<bar>?q\<bar> < 2 ^ 33"
    using prod by (rule sdiv_bound)
  have div: "sint (s64div (tr_mult p * ?x) giga) = ?q"
    unfolding s64div_def mx
    by (rule sint_eqI) (use qb in \<open>simp_all add: giga_def\<close>)
  let ?w = "?x + s64div (tr_mult p * ?x) giga"
  have w: "sint ?w = ?X + ?q"
    using sint_add_nowrap [of ?x "s64div (tr_mult p * ?x) giga"] x div v qb by simp
  have pm: "project_main p 0 v - tr_nsec p = ?w"
    by (simp add: project_main_def Let_def)
  let ?D = "of_int (?m + 1000000000) :: rat"
  have D: "500000000 \<le> ?D"
  proof -
    have "(of_int 500000000 :: rat) \<le> ?D"
      using m by (simp only: of_int_le_iff)
    then show ?thesis
      by simp
  qed
  define e :: rat where "e = of_int ?q - of_int (?m * ?X) / 1000000000"
  have e: "\<bar>e\<bar> \<le> 1"
    unfolding e_def by (rule sdiv_near)
  have ideal: "unscale_ideal (tr_mult p) ?w = of_int ?X + e * 1000000000 / ?D"
  proof -
    have "(of_int (?X + ?q) :: rat) * 1000000000 = of_int ?X * ?D + e * 1000000000"
    proof -
      have "e * 1000000000 = of_int ?q * 1000000000 - of_int (?m * ?X)"
        by (simp add: e_def left_diff_distrib)
      then show ?thesis
        by (simp add: algebra_simps)
    qed
    then have "(of_int (?X + ?q) :: rat) * 1000000000 / ?D = (of_int ?X * ?D + e * 1000000000) / ?D"
      by (simp only:)
    also have "\<dots> = of_int ?X + e * 1000000000 / ?D"
      using D by (simp add: add_divide_distrib)
    finally show ?thesis
      by (simp only: unscale_ideal_def w)
  qed
  have frac: "\<bar>e * 1000000000 / ?D\<bar> \<le> 2"
  proof -
    have "\<bar>e * 1000000000 / ?D\<bar> = \<bar>e\<bar> * (1000000000 / ?D)"
      using D by (simp add: abs_mult)
    also have "\<dots> \<le> 1 * 2"
      using e D by (intro mult_mono) (simp_all add: divide_le_eq)
    finally show ?thesis
      by simp
  qed
  have XR: "\<bar>of_int ?X :: rat\<bar> < 2 ^ 60"
  proof -
    have "(of_int \<bar>?X\<bar> :: rat) < of_int (2 ^ 60)"
      using v by (simp only: of_int_less_iff)
    then show ?thesis
      by simp
  qed
  have ib: "\<bar>unscale_ideal (tr_mult p) ?w\<bar> \<le> \<bar>of_int ?X\<bar> + 2"
    unfolding ideal using frac by linarith
  let ?u = "sint (unscale (tr_mult p) ?w)"
  have "\<bar>of_int ?u - unscale_ideal (tr_mult p) ?w\<bar> \<le> \<bar>unscale_ideal (tr_mult p) ?w\<bar> / 2 ^ 51 + 1"
    by (rule unscale_error) (use m ib XR in simp_all)
  also have "\<dots> \<le> (\<bar>of_int ?X\<bar> + 2) / 2 ^ 51 + 1"
    using ib by (simp add: divide_right_mono)
  finally have "\<bar>of_int ?u - of_int ?X\<bar> \<le> (\<bar>of_int ?X\<bar> + 2) / (2 :: rat) ^ 51 + 3"
    using frac unfolding ideal by linarith
  then have bound: "of_int \<bar>?u - ?X\<bar> \<le> of_int \<bar>?X\<bar> / (2 :: rat) ^ 51 + 4"
    by (simp add: add_divide_distrib)
  have "\<bar>?u - ?X\<bar> - 4 \<le> \<bar>?X\<bar> div 2 ^ 51"
  proof -
    have "of_int (\<bar>?u - ?X\<bar> - 4) \<le> of_int \<bar>?X\<bar> / (of_int (2 ^ 51) :: rat)"
      using bound by simp
    then show ?thesis
      by (metis floor_divide_of_int_eq le_floor_iff)
  qed
  moreover have "\<bar>?X\<bar> div 2 ^ 51 \<le> 2 ^ 60 div 2 ^ 51"
    using v by (intro zdiv_mono1) simp_all
  ultimately have small: "\<bar>?u - ?X\<bar> \<le> \<bar>?X\<bar> div 2 ^ 51 + 4" "\<bar>?u - ?X\<bar> \<le> 2 ^ 10"
    by simp_all
  have "sint (unproject p 0 (project_main p 0 v)) = sint (tr_last p) + ?u"
    unfolding unproject_def pm using l v small(2) by (simp add: sint_add_nowrap)
  then show ?thesis
    using small(1) by simp
qed

text \<open>C18: Without an overlay clock (a global timeline), with a factor from -0.5 to 1 (in units
  of 10^-9), a base below 2^61 ns, a core time less than 2^60 ns from the base and the
  product of factor and distance below 2^62: projecting the core time to timeline time and
  back, in integer and double arithmetic, returns the original time up to four nanoseconds
  and one part in 2^51 of the distance from the base.\<close>

lemma core_timeline_roundtrip:
  assumes "tb_clk_params tb = Some p" "tb_ov_clk_params tb = None"
    and "- 500000000 \<le> sint (tr_mult p)" "sint (tr_mult p) \<le> 10 ^ 9"
    and "\<bar>sint v - sint (tr_last p)\<bar> < 2 ^ 60" "\<bar>sint (tr_last p)\<bar> < 2 ^ 61"
    and "\<bar>sint (tr_mult p) * (sint v - sint (tr_last p))\<bar> < 2 ^ 62"
  shows "\<exists>e1 e2. qot_loc2rem tb \<lparr>utp_estimate = TP_FROM_nSEC v, utp_interval = iv\<rparr> 0 1
         = Some (QOT_RETURN_TYPE_OK, e1) \<and>
       qot_rem2loc tb e1 0 = (QOT_RETURN_TYPE_OK, e2) \<and>
       \<bar>tp_val (utp_estimate e2) - sint v * 10 ^ 9\<bar>
         \<le> (\<bar>sint v - sint (tr_last p)\<bar> div 2 ^ 51 + 4) * 10 ^ 9"
proof -
  let ?u = "unproject p 0 (project_main p 0 v)"
  let ?e1 = "\<lparr>utp_estimate = TP_FROM_nSEC (project_main p 0 v), utp_interval = iv\<rparr>"
  let ?e2 = "\<lparr>utp_estimate = TP_FROM_nSEC ?u, utp_interval = iv\<rparr>"
  have fwd: "qot_loc2rem tb \<lparr>utp_estimate = TP_FROM_nSEC v, utp_interval = iv\<rparr> 0 1
      = Some (QOT_RETURN_TYPE_OK, ?e1)"
    by (simp add: qot_loc2rem_def assms(1,2) TP_nSEC_inverse)
  have bwd: "qot_rem2loc tb ?e1 0 = (QOT_RETURN_TYPE_OK, ?e2)"
    by (simp add: qot_rem2loc_def assms(1,2) TP_nSEC_inverse)
  have "tp_val (TP_FROM_nSEC ?u) - sint v * 10 ^ 9 = (sint ?u - sint v) * 10 ^ 9"
    by (simp only: TP_FROM_nSEC_val left_diff_distrib)
  then have "\<bar>tp_val (TP_FROM_nSEC ?u) - sint v * 10 ^ 9\<bar> = \<bar>sint ?u - sint v\<bar> * 10 ^ 9"
    by (simp only: abs_mult) simp
  also have "\<dots> \<le> (\<bar>sint v - sint (tr_last p)\<bar> div 2 ^ 51 + 4) * 10 ^ 9"
    by (rule mult_right_mono [OF project_unproject_error [OF assms(3-7)]]) simp
  finally have "\<bar>tp_val (utp_estimate ?e2) - sint v * 10 ^ 9\<bar>
      \<le> (\<bar>sint v - sint (tr_last p)\<bar> div 2 ^ 51 + 4) * 10 ^ 9"
    by (simp only: utimepoint.select_convs)
  with fwd bwd show ?thesis
    by blast
qed

text \<open>C19: A conversion through the parameter buffer uses the newest received parameters whose
  base lies before the time converted, among the last ones that fit the buffer, for the
  estimate and for both uncertainty bounds, and fails exactly when there are none.\<close>

lemma core2rem_uses_newest_older_parameters:
  assumes "tb_param_buffer tb = Some (fold cb_AddElement xs (CircularBuffer raw n))"
  shows "qot_loc2rem tb est period 0 = Some
     (case find (\<lambda>p. tr_last p <s TP_TO_nSEC (utp_estimate est)) (take (nat (if n > 0 then n else 10)) (rev xs)) of
        None \<Rightarrow> (QOT_RETURN_TYPE_ERR, est)
      | Some p \<Rightarrow> (QOT_RETURN_TYPE_OK,
          \<lparr>utp_estimate = TP_FROM_nSEC (project_main p period (TP_TO_nSEC (utp_estimate est))),
           utp_interval =
             \<lparr>below = TL_FROM_nSEC (linear_bound (tr_l_mult p) (TP_TO_nSEC (utp_estimate est)) (tr_last p) (tr_l_nsec p)),
              above = TL_FROM_nSEC (linear_bound (tr_u_mult p) (TP_TO_nSEC (utp_estimate est)) (tr_last p) (tr_u_nsec p))\<rparr>\<rparr>))"
proof -
  let ?l = "take (nat (if n > 0 then n else 10)) (rev xs)"
  let ?t = "utp_estimate est"
  have find: "cb_FindParams ?t (fold cb_AddElement xs (CircularBuffer raw n)) =
     (case find (\<lambda>p. tr_last p <s TP_TO_nSEC ?t) ?l of None \<Rightarrow> (- 1, None) | Some p \<Rightarrow> (0, Some p))"
    by (rule cb_FindParams_recent)
  show ?thesis
    by (cases "find (\<lambda>p. tr_last p <s TP_TO_nSEC ?t) ?l")
      (simp_all only: qot_loc2rem_def assms find option.case prod.case Let_def bind.bind_lunit if_True simp_thms)
qed

definition ex_tr :: "s64 \<Rightarrow> s64 \<Rightarrow> tl_translation" where
  "ex_tr lst mult = \<lparr>tr_last = lst, tr_mult = mult, tr_nsec = 5, tr_u_nsec = 7, tr_l_nsec = 7,
     tr_u_mult = 0, tr_l_mult = 0, tr_slope = 0\<rparr>"

definition ex_tb :: timeline_binding where
  "ex_tb = \<lparr>tb_info = \<lparr>tln_name = ''gl_tl'', tln_index = 0, tln_type = QOT_TIMELINE_GLOBAL\<rparr>,
     tb_binding = \<lparr>bd_name = ''app'', bd_demand = \<lparr>tq_resolution = \<lparr>tl_sec = 0, tl_asec = 0\<rparr>,
       tq_accuracy = \<lparr>below = \<lparr>tl_sec = 0, tl_asec = 0\<rparr>, above = \<lparr>tl_sec = 0, tl_asec = 0\<rparr>\<rparr>\<rparr>,
       bd_id = 0, bd_start_offset = \<lparr>tp_sec = 0, tp_asec = 0\<rparr>, bd_period = \<lparr>tl_sec = 1, tl_asec = 0\<rparr>\<rparr>,
     tb_status_flag = 0, tb_clk_params = Some (ex_tr 1000 300), tb_ov_clk_params = None,
     tb_param_buffer = Some (fold cb_AddElement [ex_tr 10 0, ex_tr 20 0] (CircularBuffer (\<lambda>_. ex_tr 0 0) 10)),
     tb_nats_conn = True, tb_nats_ok = True, tb_nats_status_flag = 1\<rparr>"

lemma core_timeline_roundtrip_witness:
  "\<exists>e1 e2. qot_loc2rem ex_tb \<lparr>utp_estimate = TP_FROM_nSEC 5000,
         utp_interval = \<lparr>below = \<lparr>tl_sec = 0, tl_asec = 0\<rparr>, above = \<lparr>tl_sec = 0, tl_asec = 0\<rparr>\<rparr>\<rparr> 0 1
       = Some (QOT_RETURN_TYPE_OK, e1) \<and>
     qot_rem2loc ex_tb e1 0 = (QOT_RETURN_TYPE_OK, e2) \<and>
     \<bar>tp_val (utp_estimate e2) - 5000 * 10 ^ 9\<bar> \<le> 4 * 10 ^ 9"
proof -
  have p: "tb_clk_params ex_tb = Some (ex_tr 1000 300)" "tb_ov_clk_params ex_tb = None"
    by (simp_all add: ex_tb_def)
  have f: "sint (tr_mult (ex_tr 1000 300)) = 300" "sint (tr_last (ex_tr 1000 300)) = 1000" "sint (5000 :: s64) = 5000"
    by (simp_all add: ex_tr_def)
  show ?thesis
    using core_timeline_roundtrip [OF p, of 5000 "\<lparr>below = \<lparr>tl_sec = 0, tl_asec = 0\<rparr>, above = \<lparr>tl_sec = 0, tl_asec = 0\<rparr>\<rparr>",
        unfolded f] by simp
qed

lemma core2rem_uses_newest_older_parameters_witness:
  "map_option fst (qot_loc2rem ex_tb \<lparr>utp_estimate = TP_FROM_nSEC 15,
         utp_interval = \<lparr>below = \<lparr>tl_sec = 0, tl_asec = 0\<rparr>, above = \<lparr>tl_sec = 0, tl_asec = 0\<rparr>\<rparr>\<rparr> 0 0)
       = Some QOT_RETURN_TYPE_OK"
proof -
  have "tb_param_buffer ex_tb = Some (fold cb_AddElement [ex_tr 10 0, ex_tr 20 0] (CircularBuffer (\<lambda>_. ex_tr 0 0) 10))"
    by (simp add: ex_tb_def)
  from core2rem_uses_newest_older_parameters [OF this] show ?thesis
    by (simp add: TP_nSEC_inverse ex_tr_def word_sless_sint)
qed

end
