(* ===== verification/Wire_Json.thy ===== *)
theory Wire_Json
  imports Qot_Types "HOL-Library.AList"
begin

text \<open>
  The messages of the two services and their JSON form: the timeline service's
  \<open>qot_timeline_msg_t\<close> (\<open>timeline-service/qot_tlmsg_serialize.cpp\<close>), the sync service's
  \<open>qot_sync_msg_t\<close> (\<open>sync-service/qot_syncmsg_serialize.cpp\<close>) and the clock parameters
  published over NATS (\<open>sync-service/qot_clkparams_serialize.cpp\<close>).

  A JSON value is a tree; an object is an association list with one entry per
  key.  Reading a missing key gives null, and \<open>get\<close> of a value of the wrong type
  throws, which is \<open>None\<close>.  The text form of the tree (the library's \<open>dump\<close> and
  \<open>parse\<close>) is a parameter of the services.
\<close>

section \<open>JSON values\<close>

datatype json =
    JNull
  | JInt int
  | JStr string
  | JObj "(string \<times> json) list"

definition jget :: "string \<Rightarrow> json \<Rightarrow> json option" where
  "jget k j = (case j of
      JObj fs \<Rightarrow> Some (case map_of fs k of None \<Rightarrow> JNull | Some v \<Rightarrow> v)
    | JNull \<Rightarrow> Some JNull
    | _ \<Rightarrow> None)"

fun jpath :: "string list \<Rightarrow> json \<Rightarrow> json option" where
  "jpath [] j = Some j"
| "jpath (k # ks) j = jget k j \<bind> jpath ks"

fun jset :: "string list \<Rightarrow> json \<Rightarrow> json \<Rightarrow> json" where
  "jset [] v j = v"
| "jset (k # ks) v (JObj fs) =
     JObj (AList.update k (jset ks v (case map_of fs k of None \<Rightarrow> JNull | Some w \<Rightarrow> w)) fs)"
| "jset (k # ks) v j = JObj [(k, jset ks v JNull)]"

definition jint :: "string list \<Rightarrow> json \<Rightarrow> int option" where
  "jint ks j = jpath ks j \<bind> (\<lambda>v. case v of JInt i \<Rightarrow> Some (s32 i) | _ \<Rightarrow> None)"

definition ju64 :: "string list \<Rightarrow> json \<Rightarrow> u64 option" where
  "ju64 ks j = jpath ks j \<bind> (\<lambda>v. case v of JInt i \<Rightarrow> Some (word_of_int i) | _ \<Rightarrow> None)"

definition js64 :: "string list \<Rightarrow> json \<Rightarrow> s64 option" where
  "js64 ks j = jpath ks j \<bind> (\<lambda>v. case v of JInt i \<Rightarrow> Some (word_of_int i) | _ \<Rightarrow> None)"

definition jstr :: "string list \<Rightarrow> json \<Rightarrow> string option" where
  "jstr ks j = jpath ks j \<bind> (\<lambda>v. case v of JStr s \<Rightarrow> Some s | _ \<Rightarrow> None)"

lemmas jread_defs = jint_def ju64_def js64_def jstr_def

section \<open>The messages\<close>

datatype tlmsg_type =
    TIMELINE_CREATE | TIMELINE_DESTROY | TIMELINE_UPDATE | TIMELINE_BIND | TIMELINE_UNBIND
  | TIMELINE_QUALITY | TIMELINE_INFO | TIMELINE_SHM_CLOCK | TIMELINE_SHM_CLKSYNC
  | TIMELINE_OV_SHM_CLOCK | TIMELINE_OV_SHM_CLKSYNC | TIMELINE_GET_SERVER | TIMELINE_SET_SERVER
  | TIMELINE_REQ_LATENCY | TIMELINE_GET_LATENCY | TIMELINE_UNDEFINED
  | Tlmsg_unnamed int

definition tlmsg_names :: "(int \<times> tlmsg_type) list" where
  "tlmsg_names =
     [(0, TIMELINE_CREATE), (1, TIMELINE_DESTROY), (2, TIMELINE_UPDATE), (3, TIMELINE_BIND),
      (4, TIMELINE_UNBIND), (5, TIMELINE_QUALITY), (6, TIMELINE_INFO), (7, TIMELINE_SHM_CLOCK),
      (8, TIMELINE_SHM_CLKSYNC), (9, TIMELINE_OV_SHM_CLOCK), (10, TIMELINE_OV_SHM_CLKSYNC),
      (11, TIMELINE_GET_SERVER), (12, TIMELINE_SET_SERVER), (13, TIMELINE_REQ_LATENCY),
      (14, TIMELINE_GET_LATENCY), (15, TIMELINE_UNDEFINED)]"

definition tlmsg_of_int :: "int \<Rightarrow> tlmsg_type" where
  "tlmsg_of_int i = (case map_of tlmsg_names i of Some t \<Rightarrow> t | None \<Rightarrow> Tlmsg_unnamed i)"

fun int_of_tlmsg :: "tlmsg_type \<Rightarrow> int" where
  "int_of_tlmsg TIMELINE_CREATE = 0"
| "int_of_tlmsg TIMELINE_DESTROY = 1"
| "int_of_tlmsg TIMELINE_UPDATE = 2"
| "int_of_tlmsg TIMELINE_BIND = 3"
| "int_of_tlmsg TIMELINE_UNBIND = 4"
| "int_of_tlmsg TIMELINE_QUALITY = 5"
| "int_of_tlmsg TIMELINE_INFO = 6"
| "int_of_tlmsg TIMELINE_SHM_CLOCK = 7"
| "int_of_tlmsg TIMELINE_SHM_CLKSYNC = 8"
| "int_of_tlmsg TIMELINE_OV_SHM_CLOCK = 9"
| "int_of_tlmsg TIMELINE_OV_SHM_CLKSYNC = 10"
| "int_of_tlmsg TIMELINE_GET_SERVER = 11"
| "int_of_tlmsg TIMELINE_SET_SERVER = 12"
| "int_of_tlmsg TIMELINE_REQ_LATENCY = 13"
| "int_of_tlmsg TIMELINE_GET_LATENCY = 14"
| "int_of_tlmsg TIMELINE_UNDEFINED = 15"
| "int_of_tlmsg (Tlmsg_unnamed i) = i"

record tlmsg =
  tm_info :: qot_timeline
  tm_binding :: qot_binding
  tm_demand :: timequality
  tm_msgtype :: tlmsg_type
  tm_retval :: qot_return
  tm_aux_data :: string

datatype csmsg_type =
    TL_CREATE_UPDATE | TL_DESTROY | PEER_START | PEER_STOP | GLOB_SYNC_UPDATE | SET_NODE_UUID
  | TL_UNDEFINED | Csmsg_unnamed int

definition csmsg_of_int :: "int \<Rightarrow> csmsg_type" where
  "csmsg_of_int i =
     (if i = 0 then TL_CREATE_UPDATE else if i = 1 then TL_DESTROY else if i = 2 then PEER_START
      else if i = 3 then PEER_STOP else if i = 4 then GLOB_SYNC_UPDATE
      else if i = 5 then SET_NODE_UUID else if i = 6 then TL_UNDEFINED else Csmsg_unnamed i)"

fun int_of_csmsg :: "csmsg_type \<Rightarrow> int" where
  "int_of_csmsg TL_CREATE_UPDATE = 0"
| "int_of_csmsg TL_DESTROY = 1"
| "int_of_csmsg PEER_START = 2"
| "int_of_csmsg PEER_STOP = 3"
| "int_of_csmsg GLOB_SYNC_UPDATE = 4"
| "int_of_csmsg SET_NODE_UUID = 5"
| "int_of_csmsg TL_UNDEFINED = 6"
| "int_of_csmsg (Csmsg_unnamed i) = i"

record syncmsg =
  sm_info :: qot_timeline
  sm_demand :: timequality
  sm_msgtype :: csmsg_type
  sm_data :: string
  sm_retval :: qot_return

definition tlmsg_type_ok :: "tlmsg_type \<Rightarrow> bool" where
  "tlmsg_type_ok t \<longleftrightarrow> tlmsg_of_int (int_of_tlmsg t) = t \<and> int32 (int_of_tlmsg t)"

definition csmsg_type_ok :: "csmsg_type \<Rightarrow> bool" where
  "csmsg_type_ok t \<longleftrightarrow> csmsg_of_int (int_of_csmsg t) = t \<and> int32 (int_of_csmsg t)"

section \<open>Reads from a socket\<close>

datatype read_result = Read_error | Read_bytes string

definition MAX_BUF_LENGTH :: nat where "MAX_BUF_LENGTH = 4096"

section \<open>Serialisation\<close>

definition ju :: "u64 \<Rightarrow> json" where "ju w = JInt (uint w)"
definition js :: "s64 \<Rightarrow> json" where "js w = JInt (sint w)"

definition serialize_tlmsg :: "tlmsg \<Rightarrow> json" where
  "serialize_tlmsg msg =
     fold (\<lambda>(path, v) j. jset path v j)
       [([''info'', ''name''], JStr (tln_name (tm_info msg))),
        ([''info'', ''index''], JInt (tln_index (tm_info msg))),
        ([''info'', ''type''], JInt (int_of_timeline_type (tln_type (tm_info msg)))),
        ([''binding'', ''name''], JStr (bd_name (tm_binding msg))),
        ([''binding'', ''id''], JInt (bd_id (tm_binding msg))),
        ([''demand'', ''resolution'', ''sec''], ju (tl_sec (tq_resolution (tm_demand msg)))),
        ([''demand'', ''resolution'', ''asec''], ju (tl_asec (tq_resolution (tm_demand msg)))),
        ([''demand'', ''accuracy'', ''above'', ''sec''],
           ju (tl_sec (above (tq_accuracy (tm_demand msg))))),
        ([''demand'', ''accuracy'', ''above'', ''asec''],
           ju (tl_asec (above (tq_accuracy (tm_demand msg))))),
        ([''demand'', ''accuracy'', ''below'', ''sec''],
           ju (tl_sec (below (tq_accuracy (tm_demand msg))))),
        ([''demand'', ''accuracy'', ''below'', ''asec''],
           ju (tl_asec (below (tq_accuracy (tm_demand msg))))),
        ([''msgtype''], JInt (int_of_tlmsg (tm_msgtype msg))),
        ([''retval''], JInt (int_of_return (tm_retval msg))),
        ([''data''], JStr (tm_aux_data msg))]
       JNull"

text \<open>The demand, read the same way by both deserialisers.\<close>

definition read_demand :: "json \<Rightarrow> timequality option" where
  "read_demand data = do {
     rs \<leftarrow> ju64 [''demand'', ''resolution'', ''sec''] data;
     ra \<leftarrow> ju64 [''demand'', ''resolution'', ''asec''] data;
     as \<leftarrow> ju64 [''demand'', ''accuracy'', ''above'', ''sec''] data;
     aa \<leftarrow> ju64 [''demand'', ''accuracy'', ''above'', ''asec''] data;
     bs \<leftarrow> ju64 [''demand'', ''accuracy'', ''below'', ''sec''] data;
     ba \<leftarrow> ju64 [''demand'', ''accuracy'', ''below'', ''asec''] data;
     Some \<lparr>tq_resolution = \<lparr>tl_sec = rs, tl_asec = ra\<rparr>,
           tq_accuracy = \<lparr>below = \<lparr>tl_sec = bs, tl_asec = ba\<rparr>,
                          above = \<lparr>tl_sec = as, tl_asec = aa\<rparr>\<rparr>\<rparr>
   }"

text \<open>Deserialisation writes into an existing message: the scheduling parameters of
  the binding keep the values they had.\<close>

definition deserialize_tlmsg :: "json \<Rightarrow> tlmsg \<Rightarrow> tlmsg option" where
  "deserialize_tlmsg data msg = do {
     nm \<leftarrow> jstr [''info'', ''name''] data \<bind> strcpy_name;
     ix \<leftarrow> jint [''info'', ''index''] data;
     ty \<leftarrow> jint [''info'', ''type''] data;
     bn \<leftarrow> jstr [''binding'', ''name''] data \<bind> strcpy_name;
     bi \<leftarrow> jint [''binding'', ''id''] data;
     dem \<leftarrow> read_demand data;
     mt \<leftarrow> jint [''msgtype''] data;
     rv \<leftarrow> jint [''retval''] data;
     ax \<leftarrow> jstr [''data''] data;
     Some (msg\<lparr>tm_info := \<lparr>tln_name = nm, tln_index = ix, tln_type = timeline_type_of_int ty\<rparr>,
               tm_binding := (tm_binding msg)\<lparr>bd_name := bn, bd_id := bi, bd_demand := dem\<rparr>,
               tm_demand := dem,
               tm_msgtype := tlmsg_of_int mt,
               tm_retval := return_of_int rv,
               tm_aux_data := ax\<rparr>)
   }"

definition serialize_syncmsg :: "syncmsg \<Rightarrow> json" where
  "serialize_syncmsg msg =
     fold (\<lambda>(path, v) j. jset path v j)
       [([''info'', ''name''], JStr (tln_name (sm_info msg))),
        ([''info'', ''index''], JInt (tln_index (sm_info msg))),
        ([''info'', ''type''], JInt (int_of_timeline_type (tln_type (sm_info msg)))),
        ([''demand'', ''resolution'', ''sec''], ju (tl_sec (tq_resolution (sm_demand msg)))),
        ([''demand'', ''resolution'', ''asec''], ju (tl_asec (tq_resolution (sm_demand msg)))),
        ([''demand'', ''accuracy'', ''above'', ''sec''],
           ju (tl_sec (above (tq_accuracy (sm_demand msg))))),
        ([''demand'', ''accuracy'', ''above'', ''asec''],
           ju (tl_asec (above (tq_accuracy (sm_demand msg))))),
        ([''demand'', ''accuracy'', ''below'', ''sec''],
           ju (tl_sec (below (tq_accuracy (sm_demand msg))))),
        ([''demand'', ''accuracy'', ''below'', ''asec''],
           ju (tl_asec (below (tq_accuracy (sm_demand msg))))),
        ([''data''], JStr (sm_data msg)),
        ([''msgtype''], JInt (int_of_csmsg (sm_msgtype msg))),
        ([''retval''], JInt (int_of_return (sm_retval msg)))]
       JNull"

definition deserialize_syncmsg :: "json \<Rightarrow> syncmsg \<Rightarrow> syncmsg option" where
  "deserialize_syncmsg data msg = do {
     nm \<leftarrow> jstr [''info'', ''name''] data \<bind> strcpy_name;
     ix \<leftarrow> jint [''info'', ''index''] data;
     ty \<leftarrow> jint [''info'', ''type''] data;
     dem \<leftarrow> read_demand data;
     dt \<leftarrow> jstr [''data''] data;
     mt \<leftarrow> jint [''msgtype''] data;
     rv \<leftarrow> jint [''retval''] data;
     Some (msg\<lparr>sm_info := \<lparr>tln_name = nm, tln_index = ix, tln_type = timeline_type_of_int ty\<rparr>,
               sm_demand := dem,
               sm_data := dt,
               sm_msgtype := csmsg_of_int mt,
               sm_retval := return_of_int rv\<rparr>)
   }"

definition serialize_clkparams :: "tl_translation \<Rightarrow> json" where
  "serialize_clkparams p =
     fold (\<lambda>(path, v) j. jset path v j)
       [([''last''], js (tr_last p)), ([''mult''], js (tr_mult p)), ([''nsec''], js (tr_nsec p)),
        ([''u_nsec''], js (tr_u_nsec p)), ([''l_nsec''], js (tr_l_nsec p)),
        ([''u_mult''], js (tr_u_mult p)), ([''l_mult''], js (tr_l_mult p))]
       JNull"

definition deserialize_clkparams :: "json \<Rightarrow> tl_translation \<Rightarrow> tl_translation option" where
  "deserialize_clkparams data p = do {
     la \<leftarrow> js64 [''last''] data;
     mu \<leftarrow> js64 [''mult''] data;
     ns \<leftarrow> js64 [''nsec''] data;
     un \<leftarrow> js64 [''u_nsec''] data;
     ln \<leftarrow> js64 [''l_nsec''] data;
     um \<leftarrow> js64 [''u_mult''] data;
     lm \<leftarrow> js64 [''l_mult''] data;
     Some (p\<lparr>tr_last := la, tr_mult := mu, tr_nsec := ns, tr_u_nsec := un, tr_l_nsec := ln,
             tr_u_mult := um, tr_l_mult := lm\<rparr>)
   }"

section \<open>Round trips\<close>

lemmas json_eval = jread_defs jget_def ju_def js_def read_demand_def

definition tlmsg_ok :: "tlmsg \<Rightarrow> bool" where
  "tlmsg_ok m \<longleftrightarrow> name_ok (tln_name (tm_info m)) \<and> int32 (tln_index (tm_info m))
     \<and> timeline_type_ok (tln_type (tm_info m)) \<and> name_ok (bd_name (tm_binding m))
     \<and> int32 (bd_id (tm_binding m)) \<and> tlmsg_type_ok (tm_msgtype m) \<and> return_ok (tm_retval m)"

definition syncmsg_ok :: "syncmsg \<Rightarrow> bool" where
  "syncmsg_ok m \<longleftrightarrow> name_ok (tln_name (sm_info m)) \<and> int32 (tln_index (sm_info m))
     \<and> timeline_type_ok (tln_type (sm_info m)) \<and> csmsg_type_ok (sm_msgtype m)
     \<and> return_ok (sm_retval m)"

lemma tlmsg_read_back:
  assumes "tlmsg_ok m"
  shows "deserialize_tlmsg (serialize_tlmsg m) m0 =
     Some (m\<lparr>tm_binding := (tm_binding m0)\<lparr>bd_name := bd_name (tm_binding m),
                 bd_id := bd_id (tm_binding m), bd_demand := tm_demand m\<rparr>\<rparr>)"
  using assms
  by (simp add: serialize_tlmsg_def deserialize_tlmsg_def json_eval tlmsg_ok_def
      strcpy_name_ok timeline_type_ok_def tlmsg_type_ok_def return_ok_def)

text \<open>C25: A timeline service message read back from its JSON form is the original; the binding
  read back takes its demand from the message and keeps the scheduling parameters it had
  before.\<close>

lemma tlmsg_roundtrip:
  assumes "tlmsg_ok m"
  shows "deserialize_tlmsg (serialize_tlmsg m) m0 =
     Some (m\<lparr>tm_binding := (tm_binding m0)\<lparr>bd_name := bd_name (tm_binding m),
                 bd_id := bd_id (tm_binding m), bd_demand := tm_demand m\<rparr>\<rparr>)"
  using assms by (rule tlmsg_read_back)

lemma clkparams_read_back:
  "deserialize_clkparams (serialize_clkparams p) p0 = Some (p\<lparr>tr_slope := tr_slope p0\<rparr>)"
  by (simp add: serialize_clkparams_def deserialize_clkparams_def json_eval)

lemma syncmsg_read_back:
  assumes "syncmsg_ok m"
  shows "deserialize_syncmsg (serialize_syncmsg m) m0 = Some m"
  using assms
  by (simp add: serialize_syncmsg_def deserialize_syncmsg_def json_eval syncmsg_ok_def strcpy_name_ok
      timeline_type_ok_def csmsg_type_ok_def return_ok_def)

text \<open>A sync service message read back from its JSON form is the original, and so are
  published clock parameters, except for the slope, which is not transmitted.\<close>

lemma syncmsg_clkparams_roundtrip:
  assumes "syncmsg_ok m"
  shows "deserialize_syncmsg (serialize_syncmsg m) m0 = Some m
     \<and> deserialize_clkparams (serialize_clkparams p) p0 = Some (p\<lparr>tr_slope := tr_slope p0\<rparr>)"
  using syncmsg_read_back [OF assms] clkparams_read_back by simp

lemma tlmsg_roundtrip_witness:
  "\<exists>m. tlmsg_ok m \<and> tm_aux_data m = ''hello'' \<and>
     map_option tm_aux_data (deserialize_tlmsg (serialize_tlmsg m) m) = Some ''hello''"
proof -
  let ?t = "\<lparr>tl_sec = 1, tl_asec = 2\<rparr>"
  let ?q = "\<lparr>tq_resolution = ?t, tq_accuracy = \<lparr>below = ?t, above = ?t\<rparr>\<rparr>"
  let ?m = "\<lparr>tm_info = \<lparr>tln_name = ''tl'', tln_index = 3, tln_type = QOT_TIMELINE_GLOBAL\<rparr>,
     tm_binding = \<lparr>bd_name = ''app'', bd_demand = ?q, bd_id = 1,
       bd_start_offset = \<lparr>tp_sec = 0, tp_asec = 0\<rparr>, bd_period = ?t\<rparr>,
     tm_demand = ?q, tm_msgtype = TIMELINE_BIND, tm_retval = QOT_RETURN_TYPE_OK, tm_aux_data = ''hello''\<rparr>"
  have "tlmsg_ok ?m"
    by (simp add: tlmsg_ok_def name_ok_def QOT_MAX_NAMELEN_def int32_def timeline_type_ok_def
        timeline_type_of_int_def tlmsg_type_ok_def tlmsg_of_int_def tlmsg_names_def return_ok_def
        return_of_int_def)
  with tlmsg_roundtrip [OF this, of ?m] show ?thesis
    by (intro exI [of _ ?m]) simp
qed

lemma syncmsg_clkparams_roundtrip_witness:
  "\<exists>m. syncmsg_ok m \<and> deserialize_syncmsg (serialize_syncmsg m) m = Some m"
proof -
  let ?t = "\<lparr>tl_sec = 1, tl_asec = 2\<rparr>"
  let ?m = "\<lparr>sm_info = \<lparr>tln_name = ''tl'', tln_index = 3, tln_type = QOT_TIMELINE_GLOBAL\<rparr>,
     sm_demand = \<lparr>tq_resolution = ?t, tq_accuracy = \<lparr>below = ?t, above = ?t\<rparr>\<rparr>,
     sm_msgtype = PEER_START, sm_data = ''10.0.0.1'', sm_retval = QOT_RETURN_TYPE_OK\<rparr>"
  have "syncmsg_ok ?m"
    by (simp add: syncmsg_ok_def name_ok_def QOT_MAX_NAMELEN_def int32_def timeline_type_ok_def
        timeline_type_of_int_def csmsg_type_ok_def csmsg_of_int_def return_ok_def return_of_int_def)
  with syncmsg_clkparams_roundtrip [OF this, of ?m] show ?thesis
    by (intro exI [of _ ?m]) simp
qed

end
