(* ===== verification/Core_Api.thy ===== *)
theory Core_Api
  imports Clock_Translation Wire_Json "HOL-Library.Multiset"
begin

text \<open>
  The client library, \<open>TimelineBinding\<close> of \<open>api/cpp/qot_coreapi.cpp\<close> with
  \<open>QOT_TIMELINE_SERVICE\<close> and \<open>NATS_SERVICE\<close>: construction, exchanging a message with
  the timeline service, binding, unbinding, the requested quality, and the
  subscription to the published clock parameters.

  What the library calls (sockets, \<open>mmap\<close>, NATS, the JSON library) is the record
  \<open>host\<close>, over a state \<open>'w\<close> of the outside.  A call is \<open>None\<close> when it never comes back: a
  receive that blocks for ever, an exception nobody catches, a copy past the end
  of an array.
\<close>

section \<open>The outside\<close>

record 'w host =
  h_dump :: "json \<Rightarrow> string"
  h_parse :: "string \<Rightarrow> json option"
  h_send :: "string \<Rightarrow> 'w \<Rightarrow> int \<times> 'w"
  h_recv :: "'w \<Rightarrow> (read_result \<times> 'w) option"
  h_recv_fd :: "'w \<Rightarrow> (int option \<times> 'w) option"
  h_mmap :: "int \<Rightarrow> 'w \<Rightarrow> tl_translation option \<times> 'w"
  h_munmap :: "tl_translation option \<Rightarrow> 'w \<Rightarrow> 'w"
  h_close :: "'w \<Rightarrow> 'w"
  h_new_buffer :: "'w \<Rightarrow> 'w"
  h_delete_buffer :: "'w \<Rightarrow> 'w"
  h_nats_connect :: "'w \<Rightarrow> int \<times> 'w"
  h_nats_subscribe :: "string \<Rightarrow> 'w \<Rightarrow> int \<times> 'w"
  h_nats_destroy_sub :: "'w \<Rightarrow> 'w"
  h_nats_destroy_conn :: "'w \<Rightarrow> 'w"
  h_raw :: "int \<Rightarrow> tl_translation"

definition NATS_OK :: int where "NATS_OK = 0"

section \<open>Construction\<close>

text \<open>The first constructor retries \<open>connect\<close> until it succeeds; the list holds the
  results of its attempts.  Members the constructor does not set keep what the
  memory \<open>junk\<close> held.\<close>

definition TimelineBinding :: "timeline_binding \<Rightarrow> int \<Rightarrow> bool list \<Rightarrow> timeline_binding option" where
  "TimelineBinding junk sock connects =
     (if True \<notin> set connects then None
      else Some (junk\<lparr>tb_status_flag := (if sock < 0 then 1 else 0), tb_clk_params := None,
                      tb_ov_clk_params := None, tb_param_buffer := None,
                      tb_nats_status_flag := 0\<rparr>))"

definition TimelineBinding_timeout ::
  "'w host \<Rightarrow> timeline_binding \<Rightarrow> int \<Rightarrow> bool \<Rightarrow> bool \<Rightarrow> 'w \<Rightarrow> timeline_binding \<times> 'w" where
  "TimelineBinding_timeout h junk sock connect1 connect2 w =
     (let flag = (if sock < 0 then 1 else 0);
          (flag, w) = (if connect1 then (flag, w)
                       else if connect2 then (flag, w) else (2, h_close h w))
      in (junk\<lparr>tb_status_flag := flag, tb_clk_params := None, tb_ov_clk_params := None,
               tb_param_buffer := None, tb_nats_status_flag := 0\<rparr>, w))"

definition TimelineBinding_destroy :: "'w host \<Rightarrow> timeline_binding \<Rightarrow> 'w \<Rightarrow> 'w" where
  "TimelineBinding_destroy h tb w = (if tb_status_flag tb = 0 then h_close h w else w)"

section \<open>Exchanging a message\<close>

text \<open>The receive loop: the whole buffer is appended after every \<open>recv\<close>, whatever its
  result, once something has arrived.\<close>

partial_function (option) client_recv ::
  "('w, 'z) host_scheme \<Rightarrow> string \<Rightarrow> bool \<Rightarrow> string \<Rightarrow> 'w \<Rightarrow> (string option \<times> 'w) option" where
  "client_recv h buffer recv_flag rcv w = do {
     (r, w) \<leftarrow> h_recv h w;
     (case r of
        Read_error \<Rightarrow> if \<not> recv_flag then Some (None, w) else Some (Some (rcv @ buffer), w)
      | Read_bytes bs \<Rightarrow>
          if length bs = MAX_BUF_LENGTH
          then client_recv h (bs @ drop (length bs) buffer) True (rcv @ bs @ drop (length bs) buffer) w
          else Some (Some (rcv @ bs @ drop (length bs) buffer), w))
   }"

text \<open>A request for a descriptor is answered by the descriptor; every other request
  by a message.  A failed \<open>send\<close> is treated like a request for a descriptor.\<close>

definition send_message :: "'w host \<Rightarrow> tlmsg \<Rightarrow> 'w \<Rightarrow> (qot_return \<times> tlmsg \<times> 'w) option" where
  "send_message h msg w = do {
     let msg = msg\<lparr>tm_aux_data := ''NULL''\<rparr>;
     let (bytesSent, w) = h_send h (h_dump h (serialize_tlmsg msg)) w;
     if tm_msgtype msg \<noteq> TIMELINE_SHM_CLOCK \<and> tm_msgtype msg \<noteq> TIMELINE_OV_SHM_CLOCK \<and> bytesSent > 0
     then do {
       (rcv, w) \<leftarrow> client_recv h (replicate MAX_BUF_LENGTH (CHR 0x00)) False [] w;
       (case rcv of
          None \<Rightarrow> Some (QOT_RETURN_TYPE_ERR, msg, w)
        | Some text \<Rightarrow> do {
            data \<leftarrow> h_parse h text;
            msg \<leftarrow> deserialize_tlmsg data msg;
            Some (tm_retval msg, msg, w)
          })
     }
     else Some (QOT_RETURN_TYPE_OK, msg\<lparr>tm_retval := QOT_RETURN_TYPE_OK\<rparr>, w)
   }"

section \<open>Published clock parameters\<close>

definition timeline_param_handler ::
  "'w host \<Rightarrow> tl_translation \<Rightarrow> string \<Rightarrow> timeline_binding \<Rightarrow> timeline_binding option" where
  "timeline_param_handler h junk text tb = do {
     data \<leftarrow> h_parse h (c_str text);
     p \<leftarrow> deserialize_clkparams data junk;
     Some (case tb_param_buffer tb of
             None \<Rightarrow> tb
           | Some b \<Rightarrow> tb\<lparr>tb_param_buffer := Some (cb_AddElement p b)\<rparr>)
   }"

definition natsSubscribe ::
  "'w host \<Rightarrow> string \<Rightarrow> timeline_binding \<Rightarrow> 'w \<Rightarrow> int \<times> timeline_binding \<times> 'w" where
  "natsSubscribe h topic tb w =
     (let (s, w) = h_nats_connect h w
      in if s = NATS_OK
         then let tb = tb\<lparr>tb_nats_conn := True, tb_nats_status_flag := 1,
                          tb_param_buffer := Some (CircularBuffer (h_raw h) CIRBUFF_DEFSIZE_API)\<rparr>;
                  (s, w) = h_nats_subscribe h topic (h_new_buffer h w)
              in (s, tb\<lparr>tb_nats_ok := (s = NATS_OK)\<rparr>, w)
         else (s, tb\<lparr>tb_nats_ok := False\<rparr>, w))"

text \<open>Destroying a connection and deleting a buffer through null pointers do nothing.\<close>

definition natsUnSubscribe ::
  "'w host \<Rightarrow> timeline_binding \<Rightarrow> 'w \<Rightarrow> int \<times> timeline_binding \<times> 'w" where
  "natsUnSubscribe h tb w =
     (let destroy = (\<lambda>w. if tb_nats_conn tb then h_nats_destroy_conn h w else w);
          delete = (\<lambda>w. if tb_param_buffer tb \<noteq> None then h_delete_buffer h w else w);
          w = (if tb_nats_ok tb then delete (destroy (h_nats_destroy_sub h w))
               else if tb_nats_status_flag tb = 1 then delete (destroy w) else w)
      in (0, tb\<lparr>tb_param_buffer := None, tb_nats_conn := False\<rparr>, w))"

section \<open>Binding\<close>

text \<open>Copying the names into the binding: the return value, the binding afterwards.
  A UUID of exactly \<open>QOT_MAX_NAMELEN\<close> characters and any longer application name
  pass the checks and overflow the array.\<close>

definition bind_prepare ::
  "string \<Rightarrow> string \<Rightarrow> timelength \<Rightarrow> timeinterval \<Rightarrow> timeline_binding
     \<Rightarrow> (qot_return \<times> timeline_binding) option" where
  "bind_prepare uuid name res acc tb =
     (if length (c_str uuid) > QOT_MAX_NAMELEN then Some (QOT_RETURN_TYPE_ERR, tb)
      else let ty = (if take 3 uuid = ''gl_'' then QOT_TIMELINE_GLOBAL else QOT_TIMELINE_LOCAL);
               tb = tb\<lparr>tb_info := (tb_info tb)\<lparr>tln_type := ty\<rparr>\<rparr>
           in if length uuid > QOT_MAX_NAMELEN then Some (QOT_RETURN_TYPE_ERR, tb)
              else do {
                u \<leftarrow> strcpy_name uuid;
                n \<leftarrow> strcpy_name name;
                Some (QOT_RETURN_TYPE_OK,
                  tb\<lparr>tb_info := (tb_info tb)\<lparr>tln_name := u, tln_index := 0\<rparr>,
                     tb_binding := \<lparr>bd_name = n,
                       bd_demand = \<lparr>tq_resolution = res, tq_accuracy = acc\<rparr>,
                       bd_id = - 1, bd_start_offset = TP_FROM_SEC 0, bd_period = TL_FROM_SEC 0\<rparr>\<rparr>)
              })"

definition bind_create ::
  "'w host \<Rightarrow> string \<Rightarrow> timeline_binding \<Rightarrow> 'w
     \<Rightarrow> (qot_return \<times> tlmsg \<times> timeline_binding \<times> 'w) option" where
  "bind_create h uuid tb w = do {
     let tl_msg = \<lparr>tm_info = tb_info tb, tm_binding = tb_binding tb,
       tm_demand = bd_demand (tb_binding tb), tm_msgtype = TIMELINE_CREATE,
       tm_retval = QOT_RETURN_TYPE_ERR, tm_aux_data = []\<rparr>;
     (r, tl_msg, w) \<leftarrow> send_message h tl_msg w;
     if r = QOT_RETURN_TYPE_ERR then Some (QOT_RETURN_TYPE_ERR, tl_msg, tb, w)
     else do {
       u \<leftarrow> strcpy_name uuid;
       Some (QOT_RETURN_TYPE_OK, tl_msg, tb\<lparr>tb_info := (tm_info tl_msg)\<lparr>tln_name := u\<rparr>\<rparr>, w)
     }
   }"

text \<open>Asking for a clock's shared memory: the descriptor arrives as ancillary data and
  is mapped read-only.\<close>

definition request_clock ::
  "'w host \<Rightarrow> tlmsg_type \<Rightarrow> tlmsg \<Rightarrow> timeline_binding \<Rightarrow> 'w
     \<Rightarrow> (tl_translation option \<times> tlmsg \<times> 'w) option" where
  "request_clock h mt tl_msg tb w = do {
     let tl_msg = tl_msg\<lparr>tm_info := tb_info tb, tm_msgtype := mt, tm_retval := QOT_RETURN_TYPE_ERR\<rparr>;
     (r, tl_msg, w) \<leftarrow> send_message h tl_msg w;
     if r = QOT_RETURN_TYPE_ERR then Some (None, tl_msg, w)
     else do {
       (fd, w) \<leftarrow> h_recv_fd h w;
       (case fd of
          None \<Rightarrow> Some (None, tl_msg, w)
        | Some clk_fd \<Rightarrow> (case h_mmap h clk_fd w of (p, w) \<Rightarrow> Some (p, tl_msg, w)))
     }
   }"

definition bind_clock ::
  "'w host \<Rightarrow> tlmsg \<Rightarrow> timeline_binding \<Rightarrow> 'w
     \<Rightarrow> (qot_return \<times> tlmsg \<times> timeline_binding \<times> 'w) option" where
  "bind_clock h tl_msg tb w = do {
     (p, tl_msg, w) \<leftarrow> request_clock h TIMELINE_SHM_CLOCK tl_msg tb w;
     (case p of
        None \<Rightarrow> Some (QOT_RETURN_TYPE_ERR, tl_msg, tb, w)
      | Some params \<Rightarrow> Some (QOT_RETURN_TYPE_OK, tl_msg, tb\<lparr>tb_clk_params := Some params\<rparr>, w))
   }"

definition bind_overlay ::
  "'w host \<Rightarrow> tlmsg \<Rightarrow> timeline_binding \<Rightarrow> 'w
     \<Rightarrow> (qot_return \<times> tlmsg \<times> timeline_binding \<times> 'w) option" where
  "bind_overlay h tl_msg tb w =
     (if tln_type (tb_info tb) = QOT_TIMELINE_LOCAL
      then do {
        (p, tl_msg, w) \<leftarrow> request_clock h TIMELINE_OV_SHM_CLOCK tl_msg tb w;
        (case p of
           None \<Rightarrow> Some (QOT_RETURN_TYPE_ERR, tl_msg, tb, w)
         | Some params \<Rightarrow> Some (QOT_RETURN_TYPE_OK, tl_msg, tb\<lparr>tb_ov_clk_params := Some params\<rparr>, w))
      }
      else Some (QOT_RETURN_TYPE_OK, tl_msg, tb\<lparr>tb_ov_clk_params := None\<rparr>, w))"

definition bind_join ::
  "'w host \<Rightarrow> string \<Rightarrow> tlmsg \<Rightarrow> timeline_binding \<Rightarrow> 'w \<Rightarrow> (qot_return \<times> timeline_binding \<times> 'w) option" where
  "bind_join h uuid tl_msg tb w = do {
     let tl_msg = tl_msg\<lparr>tm_info := tb_info tb, tm_binding := tb_binding tb, tm_msgtype := TIMELINE_BIND,
       tm_demand := bd_demand (tb_binding tb), tm_retval := QOT_RETURN_TYPE_ERR\<rparr>;
     (r, tl_msg, w) \<leftarrow> send_message h tl_msg w;
     if r = QOT_RETURN_TYPE_ERR then Some (QOT_RETURN_TYPE_ERR, tb, w)
     else do {
       let tb = tb\<lparr>tb_binding := tm_binding tl_msg, tb_nats_conn := False\<rparr>;
       let (_, tb, w) = natsSubscribe h (''qot.timeline.'' @ uuid @ ''.params'') tb w;
       Some (QOT_RETURN_TYPE_OK, tb, w)
     }
   }"

definition timeline_bind ::
  "'w host \<Rightarrow> string \<Rightarrow> string \<Rightarrow> timelength \<Rightarrow> timeinterval \<Rightarrow> timeline_binding \<Rightarrow> 'w
     \<Rightarrow> (qot_return \<times> timeline_binding \<times> 'w) option" where
  "timeline_bind h uuid name res acc tb w = do {
     (r, tb) \<leftarrow> bind_prepare uuid name res acc tb;
     if r = QOT_RETURN_TYPE_ERR then Some (r, tb, w)
     else do {
       (r, m, tb, w) \<leftarrow> bind_create h uuid tb w;
       if r = QOT_RETURN_TYPE_ERR then Some (r, tb, w)
       else do {
         (r, m, tb, w) \<leftarrow> bind_clock h m tb w;
         if r = QOT_RETURN_TYPE_ERR then Some (r, tb, w)
         else do {
           (r, m, tb, w) \<leftarrow> bind_overlay h m tb w;
           if r = QOT_RETURN_TYPE_ERR then Some (r, tb, w)
           else bind_join h uuid m tb w
         }
       }
     }
   }"

section \<open>Unbinding and the requested quality\<close>

definition tb_msg :: "tlmsg_type \<Rightarrow> timeline_binding \<Rightarrow> tlmsg" where
  "tb_msg mt tb = \<lparr>tm_info = tb_info tb, tm_binding = tb_binding tb,
     tm_demand = bd_demand (tb_binding tb), tm_msgtype = mt, tm_retval = QOT_RETURN_TYPE_ERR,
     tm_aux_data = []\<rparr>"

definition timeline_unbind ::
  "'w host \<Rightarrow> timeline_binding \<Rightarrow> 'w \<Rightarrow> (qot_return \<times> timeline_binding \<times> 'w) option" where
  "timeline_unbind h tb w = do {
     (r, _, w) \<leftarrow> send_message h (tb_msg TIMELINE_UNBIND tb) w;
     if r = QOT_RETURN_TYPE_ERR then Some (QOT_RETURN_TYPE_ERR, tb, w)
     else do {
       let w = h_munmap h (tb_clk_params tb) w;
       let tb = tb\<lparr>tb_clk_params := None\<rparr>;
       let (tb, w) = (if tln_type (tb_info tb) = QOT_TIMELINE_LOCAL
                      then (tb\<lparr>tb_ov_clk_params := None\<rparr>, h_munmap h (tb_ov_clk_params tb) w)
                      else (tb, w));
       (r, _, w) \<leftarrow> send_message h (tb_msg TIMELINE_DESTROY tb) w;
       if r = QOT_RETURN_TYPE_ERR then Some (QOT_RETURN_TYPE_ERR, tb, w)
       else let (_, tb, w) = natsUnSubscribe h tb w in Some (QOT_RETURN_TYPE_OK, tb, w)
     }
   }"

definition timeline_get_accuracy :: "timeline_binding \<Rightarrow> qot_return \<times> timeinterval" where
  "timeline_get_accuracy tb = (QOT_RETURN_TYPE_OK, tq_accuracy (bd_demand (tb_binding tb)))"

definition timeline_get_resolution :: "timeline_binding \<Rightarrow> qot_return \<times> timelength" where
  "timeline_get_resolution tb = (QOT_RETURN_TYPE_OK, tq_resolution (bd_demand (tb_binding tb)))"

definition timeline_get_name :: "timeline_binding \<Rightarrow> qot_return \<times> string" where
  "timeline_get_name tb = (QOT_RETURN_TYPE_OK, bd_name (tb_binding tb))"

definition timeline_get_uuid :: "timeline_binding \<Rightarrow> qot_return \<times> string" where
  "timeline_get_uuid tb = (QOT_RETURN_TYPE_OK, tln_name (tb_info tb))"

text \<open>The setters return the code, the reference argument and the binding; a failed
  request leaves the new value in the binding.\<close>

definition timeline_set_accuracy ::
  "'w host \<Rightarrow> timeinterval \<Rightarrow> timeline_binding \<Rightarrow> 'w
     \<Rightarrow> (qot_return \<times> timeinterval \<times> timeline_binding \<times> 'w) option" where
  "timeline_set_accuracy h acc tb w = do {
     let b = tb_binding tb;
     let tb = tb\<lparr>tb_binding := b\<lparr>bd_demand := (bd_demand b)\<lparr>tq_accuracy := acc\<rparr>\<rparr>\<rparr>;
     (r, m, w) \<leftarrow> send_message h (tb_msg TIMELINE_UPDATE tb) w;
     if r = QOT_RETURN_TYPE_ERR then Some (QOT_RETURN_TYPE_ERR, acc, tb, w)
     else do {
       let acc = tq_accuracy (bd_demand (tm_binding m));
       Some (QOT_RETURN_TYPE_OK, acc,
             tb\<lparr>tb_binding := b\<lparr>bd_demand := (bd_demand b)\<lparr>tq_accuracy := acc\<rparr>\<rparr>\<rparr>, w)
     }
   }"

definition timeline_set_resolution ::
  "'w host \<Rightarrow> timelength \<Rightarrow> timeline_binding \<Rightarrow> 'w
     \<Rightarrow> (qot_return \<times> timelength \<times> timeline_binding \<times> 'w) option" where
  "timeline_set_resolution h res tb w = do {
     let b = tb_binding tb;
     let tb = tb\<lparr>tb_binding := b\<lparr>bd_demand := (bd_demand b)\<lparr>tq_resolution := res\<rparr>\<rparr>\<rparr>;
     (r, m, w) \<leftarrow> send_message h (tb_msg TIMELINE_UPDATE tb) w;
     if r = QOT_RETURN_TYPE_ERR then Some (QOT_RETURN_TYPE_ERR, res, tb, w)
     else do {
       let res = tq_resolution (bd_demand (tm_binding m));
       Some (QOT_RETURN_TYPE_OK, res,
             tb\<lparr>tb_binding := b\<lparr>bd_demand := (bd_demand b)\<lparr>tq_resolution := res\<rparr>\<rparr>\<rparr>, w)
     }
   }"

definition timeline_set_schedparams ::
  "timelength \<Rightarrow> timepoint \<Rightarrow> timeline_binding \<Rightarrow> qot_return \<times> timeline_binding" where
  "timeline_set_schedparams period start_offset tb =
     (QOT_RETURN_TYPE_OK,
      tb\<lparr>tb_binding := (tb_binding tb)\<lparr>bd_start_offset := start_offset, bd_period := period\<rparr>\<rparr>)"


section \<open>A request and its reply\<close>

lemma client_recv_one:
  assumes "h_recv h w = Some (Read_bytes bs, w')" "length bs < MAX_BUF_LENGTH"
  shows "client_recv h (replicate MAX_BUF_LENGTH (CHR 0x00)) False [] w
       = Some (Some (bs @ replicate (MAX_BUF_LENGTH - length bs) (CHR 0x00)), w')"
  using assms by (subst client_recv.simps) simp

lemma send_message_reply:
  assumes "tm_msgtype msg \<noteq> TIMELINE_SHM_CLOCK" "tm_msgtype msg \<noteq> TIMELINE_OV_SHM_CLOCK"
    and "h_send h (h_dump h (serialize_tlmsg (msg\<lparr>tm_aux_data := ''NULL''\<rparr>))) w = (n, w1)" "0 < n"
    and "h_recv h w1 = Some (Read_bytes rcv, w2)" "length rcv < MAX_BUF_LENGTH"
    and "h_parse h (rcv @ replicate (MAX_BUF_LENGTH - length rcv) (CHR 0x00)) = Some data"
  shows "send_message h msg w =
     map_option (\<lambda>m. (tm_retval m, m, w2)) (deserialize_tlmsg data (msg\<lparr>tm_aux_data := ''NULL''\<rparr>))"
  using assms
  by (simp add: send_message_def Let_def client_recv_one split: option.split)
    (auto simp: map_option_case split: option.split)

lemma send_message_no_send:
  assumes "\<And>t. fst (h_send h t w) \<le> 0"
  shows "send_message h msg w = Some (QOT_RETURN_TYPE_OK,
     msg\<lparr>tm_aux_data := ''NULL'', tm_retval := QOT_RETURN_TYPE_OK\<rparr>,
     snd (h_send h (h_dump h (serialize_tlmsg (msg\<lparr>tm_aux_data := ''NULL''\<rparr>))) w))"
  using assms [of "h_dump h (serialize_tlmsg (msg\<lparr>tm_aux_data := ''NULL''\<rparr>))"]
  by (cases "h_send h (h_dump h (serialize_tlmsg (msg\<lparr>tm_aux_data := ''NULL''\<rparr>))) w")
    (auto simp: send_message_def)

text \<open>What a successful exchange leaves alone in the message.\<close>

lemma deserialize_keeps_sched:
  "deserialize_tlmsg data m = Some m' \<Longrightarrow>
     bd_start_offset (tm_binding m') = bd_start_offset (tm_binding m) \<and>
     bd_period (tm_binding m') = bd_period (tm_binding m)"
  by (auto simp: deserialize_tlmsg_def bind_eq_Some_conv)

lemma send_message_keeps_sched:
  assumes "send_message h m w = Some (r, m', w')"
  shows "bd_start_offset (tm_binding m') = bd_start_offset (tm_binding m) \<and>
         bd_period (tm_binding m') = bd_period (tm_binding m)"
proof -
  consider "tm_binding m' = tm_binding m"
    | data where "deserialize_tlmsg data (m\<lparr>tm_aux_data := ''NULL''\<rparr>) = Some m'"
    using assms
    by (auto simp: send_message_def Let_def bind_eq_Some_conv split: prod.splits if_splits option.splits)
  then show ?thesis
    by cases (auto dest: deserialize_keeps_sched)
qed

text \<open>C16: A request of the client library, other than for a clock's descriptor, that is sent
  and whose reply fits one read that does not fill the buffer returns the reply's code and
  takes the reply's contents, the scheduling parameters of its own binding excepted; the
  parser reads the text with the zero bytes of the fresh buffer that follow it.\<close>

lemma request_returns_reply:
  assumes "tm_msgtype msg \<noteq> TIMELINE_SHM_CLOCK" "tm_msgtype msg \<noteq> TIMELINE_OV_SHM_CLOCK"
    and "h_send h (h_dump h (serialize_tlmsg (msg\<lparr>tm_aux_data := ''NULL''\<rparr>))) w = (n, w1)" "0 < n"
    and "h_recv h w1 = Some (Read_bytes (h_dump h (serialize_tlmsg rep)), w2)"
    and "length (h_dump h (serialize_tlmsg rep)) < MAX_BUF_LENGTH"
    and "h_parse h (h_dump h (serialize_tlmsg rep) @
           replicate (MAX_BUF_LENGTH - length (h_dump h (serialize_tlmsg rep))) (CHR 0x00)) = Some (serialize_tlmsg rep)"
    and "tlmsg_ok rep"
  shows "send_message h msg w =
     Some (tm_retval rep,
           rep\<lparr>tm_binding := (tm_binding msg)\<lparr>bd_name := bd_name (tm_binding rep),
                 bd_id := bd_id (tm_binding rep), bd_demand := tm_demand rep\<rparr>\<rparr>, w2)"
  using send_message_reply [OF assms(1-7)] tlmsg_read_back [OF assms(8)] by simp

text \<open>When the request cannot be sent, the client library still reports success: setting
  the accuracy and unbinding return QOT_RETURN_TYPE_OK although the service has not been
  reached.\<close>

lemma failed_send_reported_as_success:
  assumes "h_send h = (\<lambda>_ w. (- 1, w))"
  shows "timeline_set_accuracy h acc tb w = Some (QOT_RETURN_TYPE_OK, acc,
           tb\<lparr>tb_binding := (tb_binding tb)\<lparr>bd_demand := (bd_demand (tb_binding tb))\<lparr>tq_accuracy := acc\<rparr>\<rparr>\<rparr>, w) \<and>
         map_option fst (timeline_unbind h tb w) = Some QOT_RETURN_TYPE_OK"
  using assms
  by (simp_all add: timeline_set_accuracy_def timeline_unbind_def send_message_no_send tb_msg_def Let_def
      split: prod.split)

section \<open>What a successful binding leaves behind\<close>

lemma bind_prepare_ok:
  assumes "bind_prepare uuid name res acc tb = Some (r, tb')" "r \<noteq> QOT_RETURN_TYPE_ERR"
  shows "strcpy_name uuid = Some (tln_name (tb_info tb'))"
    "bd_start_offset (tb_binding tb') = TP_FROM_SEC 0" "bd_period (tb_binding tb') = TL_FROM_SEC 0"
  using assms by (auto simp: bind_prepare_def Let_def bind_eq_Some_conv split: if_splits)

lemma bind_create_ok:
  assumes "bind_create h uuid tb w = Some (r, m, tb', w')" "r \<noteq> QOT_RETURN_TYPE_ERR"
  shows "strcpy_name uuid = Some (tln_name (tb_info tb'))" "tb_binding tb' = tb_binding tb"
  using assms by (auto simp: bind_create_def Let_def bind_eq_Some_conv split: if_splits)

lemma bind_clock_ok:
  assumes "bind_clock h m tb w = Some (r, m', tb', w')" "r \<noteq> QOT_RETURN_TYPE_ERR"
  obtains p where "tb' = tb\<lparr>tb_clk_params := Some p\<rparr>"
  using assms by (auto simp: bind_clock_def bind_eq_Some_conv split: option.splits)

lemma bind_overlay_ok:
  assumes "bind_overlay h m tb w = Some (r, m', tb', w')" "r \<noteq> QOT_RETURN_TYPE_ERR"
  obtains p where "tb' = tb\<lparr>tb_ov_clk_params := p\<rparr>"
    "p \<noteq> None \<longleftrightarrow> tln_type (tb_info tb) = QOT_TIMELINE_LOCAL"
  using assms by (auto simp: bind_overlay_def bind_eq_Some_conv split: option.splits if_splits)

lemma natsSubscribe_frame:
  assumes "natsSubscribe h topic tb w = (s, tb', w')"
  shows "tb_info tb' = tb_info tb" "tb_binding tb' = tb_binding tb"
    "tb_clk_params tb' = tb_clk_params tb" "tb_ov_clk_params tb' = tb_ov_clk_params tb"
    "tb_nats_ok tb' \<Longrightarrow> tb_param_buffer tb' = Some (CircularBuffer (h_raw h) CIRBUFF_DEFSIZE_API)"
  using assms by (auto simp: natsSubscribe_def Let_def split: prod.splits if_splits)

lemma bind_join_ok:
  assumes "bind_join h uuid m tb w = Some (r, tb', w')" "r \<noteq> QOT_RETURN_TYPE_ERR"
  shows "tb_info tb' = tb_info tb" "tb_clk_params tb' = tb_clk_params tb"
    "tb_ov_clk_params tb' = tb_ov_clk_params tb"
    "tb_nats_ok tb' \<Longrightarrow> tb_param_buffer tb' = Some (CircularBuffer (h_raw h) CIRBUFF_DEFSIZE_API)"
    "bd_start_offset (tb_binding tb') = bd_start_offset (tb_binding tb)"
    "bd_period (tb_binding tb') = bd_period (tb_binding tb)"
  using assms
  by (auto simp: bind_join_def bind_eq_Some_conv split: if_splits prod.splits
      dest!: send_message_keeps_sched dest: natsSubscribe_frame)

text \<open>The steps of a successful call, in order.\<close>

lemma timeline_bind_steps:
  assumes "timeline_bind h uuid name res acc tb w = Some (QOT_RETURN_TYPE_OK, tb', w')"
  obtains r1 tb1 r2 m2 tb2 w2 r3 m3 tb3 w3 r4 m4 tb4 w4
  where "bind_prepare uuid name res acc tb = Some (r1, tb1)" "r1 \<noteq> QOT_RETURN_TYPE_ERR"
    "bind_create h uuid tb1 w = Some (r2, m2, tb2, w2)" "r2 \<noteq> QOT_RETURN_TYPE_ERR"
    "bind_clock h m2 tb2 w2 = Some (r3, m3, tb3, w3)" "r3 \<noteq> QOT_RETURN_TYPE_ERR"
    "bind_overlay h m3 tb3 w3 = Some (r4, m4, tb4, w4)" "r4 \<noteq> QOT_RETURN_TYPE_ERR"
    "bind_join h uuid m4 tb4 w4 = Some (QOT_RETURN_TYPE_OK, tb', w')"
  using assms by (auto simp: timeline_bind_def bind_eq_Some_conv split: if_splits)

lemma timeline_bind_facts:
  assumes "timeline_bind h uuid name res acc tb w = Some (QOT_RETURN_TYPE_OK, tb', w')"
  shows "strcpy_name uuid = Some (tln_name (tb_info tb'))" "tb_clk_params tb' \<noteq> None"
    "tb_ov_clk_params tb' \<noteq> None \<longleftrightarrow> tln_type (tb_info tb') = QOT_TIMELINE_LOCAL"
    "bd_start_offset (tb_binding tb') = TP_FROM_SEC 0" "bd_period (tb_binding tb') = TL_FROM_SEC 0"
    "tb_nats_ok tb' \<Longrightarrow> tb_param_buffer tb' = Some (CircularBuffer (h_raw h) CIRBUFF_DEFSIZE_API)"
proof -
  obtain r1 tb1 r2 m2 tb2 w2 r3 m3 tb3 w3 r4 m4 tb4 w4 where
    s: "bind_prepare uuid name res acc tb = Some (r1, tb1)" "r1 \<noteq> QOT_RETURN_TYPE_ERR"
    "bind_create h uuid tb1 w = Some (r2, m2, tb2, w2)" "r2 \<noteq> QOT_RETURN_TYPE_ERR"
    "bind_clock h m2 tb2 w2 = Some (r3, m3, tb3, w3)" "r3 \<noteq> QOT_RETURN_TYPE_ERR"
    "bind_overlay h m3 tb3 w3 = Some (r4, m4, tb4, w4)" "r4 \<noteq> QOT_RETURN_TYPE_ERR"
    "bind_join h uuid m4 tb4 w4 = Some (QOT_RETURN_TYPE_OK, tb', w')"
    using assms by (rule timeline_bind_steps)
  obtain p where p: "tb3 = tb2\<lparr>tb_clk_params := Some p\<rparr>"
    using s(5,6) by (rule bind_clock_ok)
  obtain q where q: "tb4 = tb3\<lparr>tb_ov_clk_params := q\<rparr>"
    "q \<noteq> None \<longleftrightarrow> tln_type (tb_info tb3) = QOT_TIMELINE_LOCAL"
    using s(7,8) by (rule bind_overlay_ok)
  note join = bind_join_ok [OF s(9)]
  note facts = join p q bind_prepare_ok [OF s(1,2)] bind_create_ok [OF s(3,4)]
  show "strcpy_name uuid = Some (tln_name (tb_info tb'))" "tb_clk_params tb' \<noteq> None"
    "tb_ov_clk_params tb' \<noteq> None \<longleftrightarrow> tln_type (tb_info tb') = QOT_TIMELINE_LOCAL"
    "bd_start_offset (tb_binding tb') = TP_FROM_SEC 0" "bd_period (tb_binding tb') = TL_FROM_SEC 0"
    using facts by simp_all
  show "tb_nats_ok tb' \<Longrightarrow> tb_param_buffer tb' = Some (CircularBuffer (h_raw h) CIRBUFF_DEFSIZE_API)"
    using join(4) by simp
qed

text \<open>After a successful timeline_bind the binding carries the requested UUID, which fits
  its array, the main clock is mapped, the overlay clock is mapped exactly for local
  timelines, and a successful subscription comes with a fresh parameter buffer.\<close>

lemma successful_bind_maps_clocks:
  assumes "timeline_bind h uuid name res acc tb w = Some (QOT_RETURN_TYPE_OK, tb', w')"
  shows "tln_name (tb_info tb') = c_str uuid \<and> length (c_str uuid) < QOT_MAX_NAMELEN \<and>
         tb_clk_params tb' \<noteq> None \<and>
         (tb_ov_clk_params tb' \<noteq> None \<longleftrightarrow> tln_type (tb_info tb') = QOT_TIMELINE_LOCAL) \<and>
         (tb_nats_ok tb' \<longrightarrow> tb_param_buffer tb' = Some (CircularBuffer (h_raw h) CIRBUFF_DEFSIZE_API))"
  using timeline_bind_facts [OF assms] by (auto simp: strcpy_name_def split: if_splits)


lemma natsUnSubscribe_binding:
  assumes "natsUnSubscribe h tb w = (r, tb', w')"
  shows "tb' = tb\<lparr>tb_param_buffer := None, tb_nats_conn := False\<rparr>"
  using assms by (simp add: natsUnSubscribe_def Let_def)

text \<open>The steps of a successful call: the messages, the unmapping, the subscription.\<close>

lemma timeline_unbind_steps:
  assumes "timeline_unbind h tb w = Some (QOT_RETURN_TYPE_OK, tb', w')"
  defines "tb1 \<equiv> tb\<lparr>tb_clk_params := None\<rparr>"
  defines "tb2 \<equiv> (if tln_type (tb_info tb) = QOT_TIMELINE_LOCAL then tb1\<lparr>tb_ov_clk_params := None\<rparr> else tb1)"
  obtains r1 m1 w1 w2 r2 m2 w3 r3
  where "send_message h (tb_msg TIMELINE_UNBIND tb) w = Some (r1, m1, w1)"
    "w2 = (if tln_type (tb_info tb) = QOT_TIMELINE_LOCAL
           then h_munmap h (tb_ov_clk_params tb) (h_munmap h (tb_clk_params tb) w1)
           else h_munmap h (tb_clk_params tb) w1)"
    "send_message h (tb_msg TIMELINE_DESTROY tb2) w2 = Some (r2, m2, w3)"
    "natsUnSubscribe h tb2 w3 = (r3, tb', w')"
proof -
  obtain r1 m1 w1 where s: "send_message h (tb_msg TIMELINE_UNBIND tb) w = Some (r1, m1, w1)" "r1 \<noteq> QOT_RETURN_TYPE_ERR"
    using assms(1) by (auto simp: timeline_unbind_def bind_eq_Some_conv split: if_splits)
  let ?w2 = "if tln_type (tb_info tb) = QOT_TIMELINE_LOCAL
       then h_munmap h (tb_ov_clk_params tb) (h_munmap h (tb_clk_params tb) w1)
       else h_munmap h (tb_clk_params tb) w1"
  have "(send_message h (tb_msg TIMELINE_DESTROY tb2) ?w2 \<bind> (\<lambda>(r, _, w).
      if r = QOT_RETURN_TYPE_ERR then Some (QOT_RETURN_TYPE_ERR, tb2, w)
      else let (_, tb, w) = natsUnSubscribe h tb2 w in Some (QOT_RETURN_TYPE_OK, tb, w)))
    = Some (QOT_RETURN_TYPE_OK, tb', w')"
    using assms(1) s unfolding tb2_def tb1_def
    by (cases "tln_type (tb_info tb) = QOT_TIMELINE_LOCAL") (simp_all add: timeline_unbind_def Let_def)
  then obtain r2 m2 w3 where d: "send_message h (tb_msg TIMELINE_DESTROY tb2) ?w2 = Some (r2, m2, w3)"
      "(if r2 = QOT_RETURN_TYPE_ERR then Some (QOT_RETURN_TYPE_ERR, tb2, w3)
      else let (_, tb, w) = natsUnSubscribe h tb2 w3 in Some (QOT_RETURN_TYPE_OK, tb, w)) = Some (QOT_RETURN_TYPE_OK, tb', w')"
    by (auto simp: bind_eq_Some_conv)
  obtain r3 tb3 w4 where u: "natsUnSubscribe h tb2 w3 = (r3, tb3, w4)"
    by (metis prod_cases3)
  then have "natsUnSubscribe h tb2 w3 = (r3, tb', w')"
    using d(2) by (simp split: if_splits)
  then show thesis
    using that [OF s(1) refl d(1)] by blast
qed

lemma timeline_unbind_ok:
  assumes "timeline_unbind h tb w = Some (QOT_RETURN_TYPE_OK, tb', w')"
  shows "tb_clk_params tb' = None" "tb_param_buffer tb' = None" "\<not> tb_nats_conn tb'"
    "tb_ov_clk_params tb' = (if tln_type (tb_info tb) = QOT_TIMELINE_LOCAL then None else tb_ov_clk_params tb)"
    "tb_info tb' = tb_info tb" "tb_binding tb' = tb_binding tb"
  by (rule timeline_unbind_steps [OF assms], drule natsUnSubscribe_binding, simp)+

text \<open>What the library holds outside: the mappings, the buffers, the subscriptions and the
  connections.  \<open>counting h\<close> is the outside \<open>h\<close> with an account of them; unmapping a null
  pointer unmaps nothing.\<close>

record live =
  lv_mappings :: "tl_translation multiset"
  lv_buffers :: int
  lv_subscriptions :: int
  lv_connections :: int

definition counting :: "'w host \<Rightarrow> ('w \<times> live) host" where
  "counting h =
     \<lparr>h_dump = h_dump h, h_parse = h_parse h,
      h_send = (\<lambda>t (w, k). case h_send h t w of (n, w) \<Rightarrow> (n, w, k)),
      h_recv = (\<lambda>(w, k). map_option (\<lambda>(r, w). (r, w, k)) (h_recv h w)),
      h_recv_fd = (\<lambda>(w, k). map_option (\<lambda>(fd, w). (fd, w, k)) (h_recv_fd h w)),
      h_mmap = (\<lambda>fd (w, k). case h_mmap h fd w of
         (None, w) \<Rightarrow> (None, w, k)
       | (Some p, w) \<Rightarrow> (Some p, w, k\<lparr>lv_mappings := add_mset p (lv_mappings k)\<rparr>)),
      h_munmap = (\<lambda>p (w, k). (h_munmap h p w,
         case p of None \<Rightarrow> k | Some p \<Rightarrow> k\<lparr>lv_mappings := lv_mappings k - {#p#}\<rparr>)),
      h_close = (\<lambda>(w, k). (h_close h w, k)),
      h_new_buffer = (\<lambda>(w, k). (h_new_buffer h w, k\<lparr>lv_buffers := lv_buffers k + 1\<rparr>)),
      h_delete_buffer = (\<lambda>(w, k). (h_delete_buffer h w, k\<lparr>lv_buffers := lv_buffers k - 1\<rparr>)),
      h_nats_connect = (\<lambda>(w, k). case h_nats_connect h w of
         (s, w) \<Rightarrow> (s, w, if s = NATS_OK then k\<lparr>lv_connections := lv_connections k + 1\<rparr> else k)),
      h_nats_subscribe = (\<lambda>t (w, k). case h_nats_subscribe h t w of
         (s, w) \<Rightarrow> (s, w, if s = NATS_OK then k\<lparr>lv_subscriptions := lv_subscriptions k + 1\<rparr> else k)),
      h_nats_destroy_sub = (\<lambda>(w, k). (h_nats_destroy_sub h w, k\<lparr>lv_subscriptions := lv_subscriptions k - 1\<rparr>)),
      h_nats_destroy_conn = (\<lambda>(w, k). (h_nats_destroy_conn h w, k\<lparr>lv_connections := lv_connections k - 1\<rparr>)),
      h_raw = h_raw h\<rparr>"

lemma client_recv_keeps:
  fixes h :: "('w, 'z) host_scheme"
  assumes "client_recv h buffer flag rcv w = Some y" "\<And>w r w'. h_recv h w = Some (r, w') \<Longrightarrow> g w' = g w"
  shows "g (snd y) = g w"
proof -
  have "h' = h \<longrightarrow> g (snd y) = g w" if "client_recv h' buffer flag rcv w = Some y"
    for h' :: "('w, 'z) host_scheme" and buffer flag rcv w y
  proof (rule client_recv.raw_induct [where P = "\<lambda>h' buffer flag rcv w y. h' = h \<longrightarrow> g (snd y) = g w", OF _ that])
    fix recv :: "('w, 'z) host_scheme \<Rightarrow> string \<Rightarrow> bool \<Rightarrow> string \<Rightarrow> 'w \<Rightarrow> (string option \<times> 'w) option"
    fix h' :: "('w, 'z) host_scheme" and buffer flag rcv w y
    assume IH: "\<And>h' buffer flag rcv w y. recv h' buffer flag rcv w = Some y \<Longrightarrow> h' = h \<longrightarrow> g (snd y) = g w"
      and step: "h_recv h' w \<bind> (\<lambda>(r, w). case r of
         Read_error \<Rightarrow> if \<not> flag then Some (None, w) else Some (Some (rcv @ buffer), w)
       | Read_bytes bs \<Rightarrow>
           if length bs = MAX_BUF_LENGTH
           then recv h' (bs @ drop (length bs) buffer) True (rcv @ bs @ drop (length bs) buffer) w
           else Some (Some (rcv @ bs @ drop (length bs) buffer), w)) = Some y"
    then obtain r v where v: "h_recv h' w = Some (r, v)"
      by (auto simp: bind_eq_Some_conv)
    have "h' = h \<longrightarrow> g (snd y) = g v"
      using step IH v by (cases r) (auto split: if_splits)
    then show "h' = h \<longrightarrow> g (snd y) = g w"
      using assms(2) v by auto
  qed
  then show ?thesis
    using assms(1) by blast
qed

lemma counting_send:
  assumes "send_message (counting h) m (w, k) = Some (r, m', s)"
  shows "snd s = k"
proof -
  have r: "snd (snd y) = snd v" if "client_recv (counting h) buffer flag rcv v = Some y" for buffer flag rcv v y
    using that by (rule client_recv_keeps) (auto simp: counting_def)
  have s: "snd (snd (h_send (counting h) t (w, k))) = k" for t
    by (simp add: counting_def split: prod.split)
  let ?s = "h_send (counting h) (h_dump (counting h) (serialize_tlmsg (m\<lparr>tm_aux_data := ''NULL''\<rparr>))) (w, k)"
  obtain n v where v: "?s = (n, v)"
    by (cases ?s)
  then have "snd v = k"
    using s by (metis snd_conv)
  then show ?thesis
    using assms v
    by (auto simp: send_message_def Let_def bind_eq_Some_conv split: if_splits option.splits dest!: r)
qed

text \<open>What a binding accounts for, on top of an account \<open>k\<close>.\<close>

definition mapped :: "tl_translation option \<Rightarrow> tl_translation multiset" where
  "mapped p = (case p of None \<Rightarrow> {#} | Some p \<Rightarrow> {#p#})"

definition holding :: "timeline_binding \<Rightarrow> live \<Rightarrow> live" where
  "holding tb k =
     \<lparr>lv_mappings = lv_mappings k + mapped (tb_clk_params tb) + mapped (tb_ov_clk_params tb),
      lv_buffers = lv_buffers k + (if tb_param_buffer tb = None then 0 else 1),
      lv_subscriptions = lv_subscriptions k + (if tb_nats_ok tb then 1 else 0),
      lv_connections = lv_connections k + (if tb_nats_conn tb then 1 else 0)\<rparr>"

lemma mapped_simps [simp]: "mapped None = {#}" "mapped (Some p) = {#p#}"
  by (simp_all add: mapped_def)

lemma counting_munmap: "h_munmap (counting h) p (w, k) = (h_munmap h p w, k\<lparr>lv_mappings := lv_mappings k - mapped p\<rparr>)"
  by (simp add: counting_def split: option.split)

lemma counting_mmap:
  "snd (snd (h_mmap (counting h) fd s)) =
     (snd s)\<lparr>lv_mappings := lv_mappings (snd s) + mapped (fst (h_mmap (counting h) fd s))\<rparr>"
  by (cases s) (auto simp: counting_def split: option.splits prod.splits)

lemma counting_recv_fd: "h_recv_fd (counting h) s = Some (fd, s') \<Longrightarrow> snd s' = snd s"
  by (auto simp: counting_def split: prod.splits)

lemma counting_request_clock:
  assumes "request_clock (counting h) mt m tb s = Some (p, m', s')"
  shows "snd s' = (snd s)\<lparr>lv_mappings := lv_mappings (snd s) + mapped p\<rparr>"
proof -
  obtain w k where s: "s = (w, k)"
    by (cases s)
  show ?thesis
    using assms
    by (auto simp: s request_clock_def bind_eq_Some_conv case_prod_unfold counting_mmap
        dest!: counting_send counting_recv_fd split: if_splits option.splits)
qed

lemma counting_bind_create:
  assumes "bind_create (counting h) uuid tb s = Some (r, m, tb', s')" "r \<noteq> QOT_RETURN_TYPE_ERR"
  shows "snd s' = snd s" "tb_param_buffer tb' = tb_param_buffer tb"
  using assms by (cases s; auto simp: bind_create_def Let_def bind_eq_Some_conv dest: counting_send split: if_splits)+

lemma counting_bind_clock:
  assumes "bind_clock (counting h) m tb s = Some (r, m', tb', s')" "r \<noteq> QOT_RETURN_TYPE_ERR"
  shows "\<exists>p. tb' = tb\<lparr>tb_clk_params := Some p\<rparr> \<and>
     snd s' = (snd s)\<lparr>lv_mappings := lv_mappings (snd s) + mapped (tb_clk_params tb')\<rparr>"
  using assms
  by (auto simp: bind_clock_def bind_eq_Some_conv dest!: counting_request_clock split: option.splits)

lemma counting_bind_overlay:
  assumes "bind_overlay (counting h) m tb s = Some (r, m', tb', s')" "r \<noteq> QOT_RETURN_TYPE_ERR"
  shows "\<exists>q. tb' = tb\<lparr>tb_ov_clk_params := q\<rparr> \<and>
     snd s' = (snd s)\<lparr>lv_mappings := lv_mappings (snd s) + mapped (tb_ov_clk_params tb')\<rparr>"
proof (cases "tln_type (tb_info tb) = QOT_TIMELINE_LOCAL")
  case True
  then show ?thesis
    using assms
    by (auto simp: bind_overlay_def bind_eq_Some_conv dest!: counting_request_clock split: option.splits)
next
  case False
  then show ?thesis
    using assms by (auto simp: bind_overlay_def)
qed

text \<open>The subscription: connection and buffer come together.\<close>

definition subscribed :: "timeline_binding \<Rightarrow> bool" where
  "subscribed tb \<longleftrightarrow> tb_nats_conn tb = (tb_param_buffer tb \<noteq> None) \<and> (tb_nats_ok tb \<longrightarrow> tb_nats_conn tb) \<and>
     (tb_nats_conn tb \<longrightarrow> tb_nats_status_flag tb = 1)"

lemma counting_subscribe:
  assumes "natsSubscribe (counting h) topic tb s = (n, tb', s')" "\<not> tb_nats_conn tb" "tb_param_buffer tb = None"
  shows "snd s' = (snd s)\<lparr>lv_buffers := lv_buffers (snd s) + (if tb_param_buffer tb' = None then 0 else 1),
      lv_subscriptions := lv_subscriptions (snd s) + (if tb_nats_ok tb' then 1 else 0),
      lv_connections := lv_connections (snd s) + (if tb_nats_conn tb' then 1 else 0)\<rparr>"
    and "subscribed tb'"
  using assms by (cases s; auto simp: subscribed_def natsSubscribe_def counting_def Let_def split: prod.splits if_splits)+

lemma counting_unsubscribe:
  assumes "natsUnSubscribe (counting h) tb s = (n, tb', s')" "subscribed tb"
  shows "snd s' = (snd s)\<lparr>lv_buffers := lv_buffers (snd s) - (if tb_param_buffer tb = None then 0 else 1),
      lv_subscriptions := lv_subscriptions (snd s) - (if tb_nats_ok tb then 1 else 0),
      lv_connections := lv_connections (snd s) - (if tb_nats_conn tb then 1 else 0)\<rparr>"
proof -
  obtain w k where s: "s = (w, k)"
    by (cases s)
  show ?thesis
    using assms
    by (cases "tb_nats_ok tb"; cases "tb_nats_conn tb"; cases "tb_nats_status_flag tb = 1")
      (auto simp: s subscribed_def natsUnSubscribe_def counting_def Let_def)
qed

lemma counting_bind_join:
  assumes "bind_join (counting h) uuid m tb s = Some (QOT_RETURN_TYPE_OK, tb', s')" "tb_param_buffer tb = None"
  shows "subscribed tb' \<and> snd s' = (snd s)\<lparr>lv_buffers := lv_buffers (snd s) + (if tb_param_buffer tb' = None then 0 else 1),
      lv_subscriptions := lv_subscriptions (snd s) + (if tb_nats_ok tb' then 1 else 0),
      lv_connections := lv_connections (snd s) + (if tb_nats_conn tb' then 1 else 0)\<rparr>"
proof -
  obtain w k where s: "s = (w, k)"
    by (cases s)
  obtain r m' s1 where m: "send_message (counting h) (m\<lparr>tm_info := tb_info tb, tm_binding := tb_binding tb,
      tm_msgtype := TIMELINE_BIND, tm_demand := bd_demand (tb_binding tb), tm_retval := QOT_RETURN_TYPE_ERR\<rparr>) (w, k) = Some (r, m', s1)"
    "r \<noteq> QOT_RETURN_TYPE_ERR"
    using assms(1) by (auto simp: bind_join_def s bind_eq_Some_conv Let_def split: if_splits)
  let ?tb = "tb\<lparr>tb_binding := tm_binding m', tb_nats_conn := False\<rparr>"
  obtain n tb2 s2 where n: "natsSubscribe (counting h) (''qot.timeline.'' @ uuid @ ''.params'') ?tb s1 = (n, tb2, s2)"
    by (metis prod_cases3)
  then have "tb' = tb2" "s' = s2"
    using assms(1) m by (auto simp: bind_join_def s Let_def)
  moreover have "snd s1 = snd s"
    using counting_send [OF m(1)] by (simp add: s)
  moreover note counting_subscribe [OF n]
  ultimately show ?thesis
    using assms(2) by simp
qed

lemma counting_bind:
  assumes "timeline_bind (counting h) uuid name res acc tb s = Some (QOT_RETURN_TYPE_OK, tb1, s1)"
    and "tb_param_buffer tb = None"
  shows "subscribed tb1 \<and> snd s1 = holding tb1 (snd s)"
proof -
  obtain r1 tb2 r2 m2 tb3 s2 r3 m3 tb4 s3 r4 m4 tb5 s4 where
    a: "bind_prepare uuid name res acc tb = Some (r1, tb2)" "r1 \<noteq> QOT_RETURN_TYPE_ERR"
    "bind_create (counting h) uuid tb2 s = Some (r2, m2, tb3, s2)" "r2 \<noteq> QOT_RETURN_TYPE_ERR"
    "bind_clock (counting h) m2 tb3 s2 = Some (r3, m3, tb4, s3)" "r3 \<noteq> QOT_RETURN_TYPE_ERR"
    "bind_overlay (counting h) m3 tb4 s3 = Some (r4, m4, tb5, s4)" "r4 \<noteq> QOT_RETURN_TYPE_ERR"
    "bind_join (counting h) uuid m4 tb5 s4 = Some (QOT_RETURN_TYPE_OK, tb1, s1)"
    using assms(1) by (rule timeline_bind_steps)
  have "tb_param_buffer tb2 = None"
    using a(1) assms(2) by (auto simp: bind_prepare_def Let_def bind_eq_Some_conv split: if_splits)
  moreover note counting_bind_create [OF a(3,4)] 
  moreover obtain p where p: "tb4 = tb3\<lparr>tb_clk_params := Some p\<rparr>"
      "snd s3 = (snd s2)\<lparr>lv_mappings := lv_mappings (snd s2) + mapped (tb_clk_params tb4)\<rparr>"
    using counting_bind_clock [OF a(5,6)] by blast
  moreover obtain q where q: "tb5 = tb4\<lparr>tb_ov_clk_params := q\<rparr>"
      "snd s4 = (snd s3)\<lparr>lv_mappings := lv_mappings (snd s3) + mapped (tb_ov_clk_params tb5)\<rparr>"
    using counting_bind_overlay [OF a(7,8)] by blast
  ultimately have n: "tb_param_buffer tb5 = None"
    by simp
  note j = counting_bind_join [OF a(9) n] bind_join_ok(2,3) [OF a(9)]
  have "snd s2 = snd s"
    by (rule counting_bind_create(1) [OF a(3,4)])
  then show ?thesis
    using j by (simp add: holding_def p q)
qed


section \<open>Waiting without a period\<close>

lemma next_wakeup_zero_period:
  assumes "tp_norm t" "0 \<le> tp_val t"
  shows "next_wakeup (TP_FROM_SEC 0) (TL_FROM_SEC 0) t = None"
proof -
  have z: "TP_FROM_SEC 0 = \<lparr>tp_sec = 0, tp_asec = 0\<rparr>" "TL_FROM_SEC 0 = \<lparr>tl_sec = 0, tl_asec = 0\<rparr>"
    "TL_TO_nSEC \<lparr>tl_sec = 0, tl_asec = 0\<rparr> = 0"
    by (simp_all add: TP_FROM_SEC_def TL_FROM_SEC_def TL_TO_nSEC_def TL_TO_GEN_def
        scalar_to_timepoint_def scalar_to_timelength_def ratio_defs Let_def)
  have "tp_norm (TP_FROM_SEC 0)" "tp_val (TP_FROM_SEC 0) = 0"
    by (simp_all add: z tp_norm_def tp_val_def)
  with assms have "\<not> timepoint_cmp (Some (TP_FROM_SEC 0)) (Some t) < 0"
    using timepoint_cmp_sgn [of "TP_FROM_SEC 0" t] by (simp add: sgn_if)
  moreover have "\<exists>d. timepoint_diff a b c = Some d" if "a \<noteq> None" "b \<noteq> None" "c \<noteq> None" for a b c
    using that by (auto simp: timepoint_diff_def)
  ultimately show ?thesis
    by (auto simp: next_wakeup_def z bind_eq_None_conv)
qed

text \<open>C28: A successful timeline_bind leaves a period of zero, so waiting for the next period
  before the scheduling parameters are set divides by zero, at every non-negative timeline
  time.\<close>

lemma nextperiod_without_schedparams_divides_by_zero:
  assumes "timeline_bind h uuid name res acc tb w = Some (QOT_RETURN_TYPE_OK, tb', w')"
    and "timeline_getvtime tb' now raw = Some (QOT_RETURN_TYPE_OK, t)"
    and "tp_norm (utp_estimate t)" "0 \<le> tp_val (utp_estimate t)"
  shows "timeline_waituntil_nextperiod tb' now raw utp = None"
  using assms(2) next_wakeup_zero_period [OF assms(3,4)] timeline_bind_facts(4,5) [OF assms(1)]
  by (simp add: timeline_waituntil_nextperiod_def)

section \<open>Using published parameters\<close>

lemma qot_loc2rem_newest:
  assumes "tb_param_buffer tb = Some (cb_AddElement p b)" "rb_inv b"
    and "tr_last p <s TP_TO_nSEC (utp_estimate est)"
  shows "map_option (\<lambda>(r, e). (r, utp_estimate e)) (qot_loc2rem tb est period 0)
       = Some (QOT_RETURN_TYPE_OK, TP_FROM_nSEC (project_main p period (TP_TO_nSEC (utp_estimate est))))"
proof -
  have "rb_cap b \<noteq> 0"
    using assms(2) by (simp add: rb_cap_def rb_inv_def)
  then obtain k where "rb_cap b = Suc k"
    using not0_implies_Suc by blast
  then have "rb_search (\<lambda>q. tr_last q <s TP_TO_nSEC (utp_estimate est)) (cb_AddElement p b) = Some p"
    using cb_AddElement_refines(2) [OF assms(2), of p] assms(3)
    by (simp add: rb_search_items recent_add_def)
  then have "cb_FindParams (utp_estimate est) (cb_AddElement p b) = (0, Some p)"
    using cb_FindParams_search [OF cb_AddElement_refines(1) [OF assms(2)]] by simp
  then show ?thesis
    by (simp only: qot_loc2rem_def assms(1) if_True simp_thms bind.bind_lunit prod.case option.case Let_def
        option.map utimepoint.select_convs)
qed

text \<open>Once the parameters published for a timeline have been received, every core time
  after their base is converted with exactly these parameters, whatever the buffer held
  before.\<close>

lemma published_parameters_are_used:
  assumes "tb_param_buffer tb = Some b" "rb_inv b"
    and "h_parse h (c_str text) = Some (serialize_clkparams p)"
    and "tr_last p <s TP_TO_nSEC t"
  shows "\<exists>tb' b'. timeline_param_handler h junk text tb = Some tb' \<and>
     tb_param_buffer tb' = Some b' \<and> rb_inv b' \<and>
     timeline_core2rem tb' iv t
       = Some (QOT_RETURN_TYPE_OK, TP_FROM_nSEC (project_main p 0 (TP_TO_nSEC t)))"
proof -
  let ?p = "p\<lparr>tr_slope := tr_slope junk\<rparr>"
  let ?tb = "tb\<lparr>tb_param_buffer := Some (cb_AddElement ?p b)\<rparr>"
  have h: "timeline_param_handler h junk text tb = Some ?tb"
    by (simp add: timeline_param_handler_def assms(1,3) clkparams_read_back)
  have "map_option (\<lambda>(r, e). (r, utp_estimate e))
      (qot_loc2rem ?tb \<lparr>utp_estimate = t, utp_interval = iv\<rparr> 0 0)
     = Some (QOT_RETURN_TYPE_OK, TP_FROM_nSEC (project_main ?p 0 (TP_TO_nSEC t)))"
    using qot_loc2rem_newest [of ?tb ?p b "\<lparr>utp_estimate = t, utp_interval = iv\<rparr>" 0] assms(2,4)
    by simp
  then have "timeline_core2rem ?tb iv t
      = Some (QOT_RETURN_TYPE_OK, TP_FROM_nSEC (project_main ?p 0 (TP_TO_nSEC t)))"
    by (auto simp: timeline_core2rem_def map_option_case split: option.splits prod.splits)
  moreover have "project_main ?p 0 v = project_main p 0 v" for v
    by (simp add: project_main_def)
  ultimately show ?thesis
    using h cb_AddElement_refines(1) [OF assms(2)] by simp
qed


section \<open>A concrete outside\<close>

text \<open>A service that accepts everything, used to show that the hypotheses above can
  hold.\<close>

definition ex_api_demand :: timequality where
  "ex_api_demand = \<lparr>tq_resolution = TL_FROM_SEC 0, tq_accuracy = \<lparr>below = TL_FROM_SEC 1, above = TL_FROM_SEC 1\<rparr>\<rparr>"

definition ex_reply :: tlmsg where
  "ex_reply = \<lparr>tm_info = \<lparr>tln_name = ''gl_tl'', tln_index = 0, tln_type = QOT_TIMELINE_GLOBAL\<rparr>,
     tm_binding = \<lparr>bd_name = ''app'', bd_demand = ex_api_demand, bd_id = 3,
       bd_start_offset = TP_FROM_SEC 0, bd_period = TL_FROM_SEC 0\<rparr>,
     tm_demand = ex_api_demand, tm_msgtype = TIMELINE_BIND, tm_retval = QOT_RETURN_TYPE_OK,
     tm_aux_data = ''NULL''\<rparr>"

definition ex_host :: "unit host" where
  "ex_host = \<lparr>h_dump = (\<lambda>_. ''{}''),
     h_parse = (\<lambda>t. if c_str t = ''{}'' then Some (serialize_tlmsg ex_reply)
                    else if c_str t = ''p'' then Some (serialize_clkparams (ex_tr 10 300)) else None),
     h_send = (\<lambda>_ w. (2, w)), h_recv = (\<lambda>w. Some (Read_bytes ''{}'', w)),
     h_recv_fd = (\<lambda>w. Some (Some 7, w)), h_mmap = (\<lambda>_ w. (Some (ex_tr 0 0), w)),
     h_munmap = (\<lambda>_ w. w), h_close = (\<lambda>w. w), h_new_buffer = (\<lambda>w. w), h_delete_buffer = (\<lambda>w. w), h_nats_connect = (\<lambda>w. (0, w)),
     h_nats_subscribe = (\<lambda>_ w. (0, w)), h_nats_destroy_sub = (\<lambda>w. w),
     h_nats_destroy_conn = (\<lambda>w. w), h_raw = (\<lambda>_. ex_tr 0 0)\<rparr>"

lemma ex_host_sel:
  "h_send ex_host t w = (2, w)" "h_recv ex_host w = Some (Read_bytes ''{}'', w)"
  "h_recv_fd ex_host w = Some (Some 7, w)" "h_mmap ex_host fd w = (Some (ex_tr 0 0), w)"
  "h_nats_connect ex_host w = (0, w)" "h_new_buffer ex_host w = w" "h_nats_subscribe ex_host t w = (0, w)"
  "h_raw ex_host = (\<lambda>_. ex_tr 0 0)"
  by (simp_all add: ex_host_def)

lemma ex_host_parse: "h_parse ex_host (''{}'' @ replicate k (CHR 0x00)) = Some (serialize_tlmsg ex_reply)"
proof -
  have "c_str (''{}'' @ replicate k (CHR 0x00)) = ''{}''"
    by (cases k) (simp_all add: c_str_def)
  then show ?thesis
    by (simp add: ex_host_def)
qed

lemma ex_reply_ok: "tlmsg_ok ex_reply"
  by (simp add: ex_reply_def tlmsg_ok_def name_ok_def QOT_MAX_NAMELEN_def int32_def timeline_type_ok_def
      timeline_type_of_int_def tlmsg_type_ok_def tlmsg_of_int_def tlmsg_names_def return_ok_def
      return_of_int_def)

lemma ex_send:
  assumes "h_parse h = h_parse ex_host" "\<And>t w. h_send h t w = (2, w)" "\<And>w. h_recv h w = Some (Read_bytes ''{}'', w)"
  shows "send_message h m w =
     (if tm_msgtype m = TIMELINE_SHM_CLOCK \<or> tm_msgtype m = TIMELINE_OV_SHM_CLOCK
      then Some (QOT_RETURN_TYPE_OK, m\<lparr>tm_aux_data := ''NULL'', tm_retval := QOT_RETURN_TYPE_OK\<rparr>, w)
      else Some (QOT_RETURN_TYPE_OK, ex_reply\<lparr>tm_binding := (tm_binding m)\<lparr>bd_name := ''app'',
             bd_id := 3, bd_demand := ex_api_demand\<rparr>\<rparr>, w))"
proof (cases "tm_msgtype m = TIMELINE_SHM_CLOCK \<or> tm_msgtype m = TIMELINE_OV_SHM_CLOCK")
  case True
  then show ?thesis
    by (auto simp: send_message_def Let_def assms)
next
  case False
  then have "send_message h m w =
     map_option (\<lambda>m. (tm_retval m, m, w)) (deserialize_tlmsg (serialize_tlmsg ex_reply) (m\<lparr>tm_aux_data := ''NULL''\<rparr>))"
    by (intro send_message_reply [where rcv = "''{}''" and n = 2 and ?w1.0 = w])
      (simp_all add: ex_host_parse [simplified] assms MAX_BUF_LENGTH_def)
  with False show ?thesis
    by (simp add: tlmsg_read_back [OF ex_reply_ok]) (simp add: ex_reply_def)
qed

lemmas ex_host_send = ex_send [of ex_host, OF refl ex_host_sel(1,2)]

definition ex_acc :: timeinterval where
  "ex_acc = \<lparr>below = TL_FROM_SEC 1, above = TL_FROM_SEC 1\<rparr>"

definition ex_bound :: timeline_binding where
  "ex_bound = ex_tb\<lparr>tb_info := \<lparr>tln_name = ''gl_tl'', tln_index = 0, tln_type = QOT_TIMELINE_GLOBAL\<rparr>,
     tb_binding := \<lparr>bd_name = ''app'', bd_demand = ex_api_demand, bd_id = 3,
       bd_start_offset = TP_FROM_SEC 0, bd_period = TL_FROM_SEC 0\<rparr>,
     tb_clk_params := Some (ex_tr 0 0), tb_ov_clk_params := None,
     tb_param_buffer := Some (CircularBuffer (\<lambda>_. ex_tr 0 0) 10), tb_nats_conn := True, tb_nats_ok := True,
     tb_nats_status_flag := 1\<rparr>"

lemma ex_bind_ok:
  "timeline_bind ex_host ''gl_tl'' ''app'' (TL_FROM_SEC 0) ex_acc ex_tb ()
     = Some (QOT_RETURN_TYPE_OK, ex_bound, ())"
proof -
  have u: "strcpy_name ''gl_tl'' = Some ''gl_tl''" "strcpy_name ''app'' = Some ''app''" "c_str ''gl_tl'' = ''gl_tl''"
    by (simp_all add: strcpy_name_def c_str_def QOT_MAX_NAMELEN_def)
  show ?thesis
    by (simp add: timeline_bind_def bind_prepare_def bind_create_def bind_clock_def bind_overlay_def
        bind_join_def request_clock_def natsSubscribe_def ex_host_send u Let_def QOT_MAX_NAMELEN_def
        ex_host_sel NATS_OK_def CIRBUFF_DEFSIZE_API_def ex_reply_def ex_bound_def ex_tb_def)
qed

lemma request_returns_reply_witness:
  "send_message ex_host (tb_msg TIMELINE_QUALITY ex_bound) () =
     Some (QOT_RETURN_TYPE_OK, ex_reply\<lparr>tm_binding := tb_binding ex_bound\<rparr>, ())"
proof -
  let ?m = "tb_msg TIMELINE_QUALITY ex_bound"
  have d: "h_dump ex_host j = ''{}''" for j
    by (simp add: ex_host_def)
  have "send_message ex_host ?m () =
     Some (tm_retval ex_reply,
           ex_reply\<lparr>tm_binding := (tm_binding ?m)\<lparr>bd_name := bd_name (tm_binding ex_reply),
                 bd_id := bd_id (tm_binding ex_reply), bd_demand := tm_demand ex_reply\<rparr>\<rparr>, ())"
    by (rule request_returns_reply [where n = 2 and ?w1.0 = "()"])
      (simp_all add: d ex_host_parse [simplified] ex_host_sel ex_reply_ok MAX_BUF_LENGTH_def, simp_all add: tb_msg_def)
  then show ?thesis
    by (simp add: tb_msg_def ex_reply_def ex_bound_def)
qed

lemma failed_send_reported_as_success_witness:
  "map_option fst (timeline_unbind (ex_host\<lparr>h_send := \<lambda>_ w. (- 1, w)\<rparr>) ex_bound ()) = Some QOT_RETURN_TYPE_OK"
  using failed_send_reported_as_success [of "ex_host\<lparr>h_send := \<lambda>_ w. (- 1, w)\<rparr>" ex_acc ex_bound "()"] by simp

lemma successful_bind_maps_clocks_witness:
  "tb_clk_params ex_bound \<noteq> None \<and> tb_ov_clk_params ex_bound = None"
  using successful_bind_maps_clocks [OF ex_bind_ok] by (simp add: ex_bound_def)

definition no_live :: live where
  "no_live = \<lparr>lv_mappings = {#}, lv_buffers = 0, lv_subscriptions = 0, lv_connections = 0\<rparr>"


lemma nextperiod_without_schedparams_divides_by_zero_witness:
  "timeline_waituntil_nextperiod ex_bound \<lparr>tv_sec = 5, tv_nsec = 0\<rparr>
     \<lparr>utp_estimate = TP_FROM_SEC 0, utp_interval = ex_acc\<rparr>
     \<lparr>utp_estimate = TP_FROM_SEC 0, utp_interval = ex_acc\<rparr> = None"
proof -
  let ?raw = "\<lparr>utp_estimate = TP_FROM_SEC 0, utp_interval = ex_acc\<rparr>"
  let ?now = "timepoint_from_timespec \<lparr>tv_sec = 5, tv_nsec = 0\<rparr>"
  have ns: "TP_TO_nSEC ?now = 5000000000"
    by (simp add: timepoint_from_timespec_def TP_TO_nSEC_def TP_TO_GEN_def ratio_defs)
  obtain t where t: "timeline_getvtime ex_bound \<lparr>tv_sec = 5, tv_nsec = 0\<rparr> ?raw = Some (QOT_RETURN_TYPE_OK, t)"
    "utp_estimate t = TP_FROM_nSEC 5000000005"
    by (simp add: timeline_getvtime_def timeline_getcoretime_def timeline_computeqot_def qot_loc2rem_def
        ex_bound_def ex_tr_def Let_def ns project_main_def s64div_def)
  have "tp_norm (utp_estimate t)" "0 \<le> tp_val (utp_estimate t)"
    by (simp_all add: t(2) TP_FROM_nSEC_val) (simp add: TP_FROM_nSEC_def scalar_to_timepoint_val)
  from nextperiod_without_schedparams_divides_by_zero [OF ex_bind_ok t(1) this] show ?thesis .
qed

lemma published_parameters_are_used_witness:
  "\<exists>tb'. timeline_param_handler ex_host (ex_tr 0 0) ''p'' ex_bound = Some tb' \<and>
     map_option fst (timeline_core2rem tb' ex_acc (TP_FROM_nSEC 20)) = Some QOT_RETURN_TYPE_OK"
proof -
  have b: "tb_param_buffer ex_bound = Some (CircularBuffer (\<lambda>_. ex_tr 0 0) 10)"
    by (simp add: ex_bound_def)
  have p: "h_parse ex_host (c_str ''p'') = Some (serialize_clkparams (ex_tr 10 300))"
    by (simp add: ex_host_def c_str_def)
  have t: "tr_last (ex_tr 10 300) <s TP_TO_nSEC (TP_FROM_nSEC 20)"
    by (simp add: TP_nSEC_inverse ex_tr_def word_sless_sint)
  show ?thesis
    using published_parameters_are_used [OF b CircularBuffer_init(1) p t, of "ex_tr 0 0" ex_acc] by fastforce
qed

section \<open>The receive loop ends\<close>

text \<open>A number of reads that fill the buffer.\<close>

fun full_reads :: "('w, 'z) host_scheme \<Rightarrow> nat \<Rightarrow> 'w \<Rightarrow> (string list \<times> 'w) option" where
  "full_reads h 0 w = Some ([], w)"
| "full_reads h (Suc n) w =
     (case h_recv h w of
        Some (Read_bytes bs, w') \<Rightarrow>
          if length bs = MAX_BUF_LENGTH then map_option (\<lambda>(bss, w). (bs # bss, w)) (full_reads h n w') else None
      | _ \<Rightarrow> None)"

definition ends_with :: "string \<Rightarrow> bool \<Rightarrow> string \<Rightarrow> read_result \<Rightarrow> string option" where
  "ends_with buffer flag rcv r =
     (case r of Read_error \<Rightarrow> if flag then Some (rcv @ buffer) else None
      | Read_bytes bs \<Rightarrow> Some (rcv @ bs @ drop (length bs) buffer))"

lemma client_recv_full:
  assumes "full_reads h n w = Some (bss, w1)" "length buffer = MAX_BUF_LENGTH"
    and "h_recv h w1 = Some (r, w2)" "\<And>bs. r = Read_bytes bs \<Longrightarrow> length bs < MAX_BUF_LENGTH"
  shows "client_recv h buffer flag rcv w =
     Some (ends_with (last (buffer # bss)) (flag \<or> 0 < n) (rcv @ concat bss) r, w2)"
  using assms(1,2)
proof (induction n arbitrary: w buffer flag rcv bss)
  case 0
  then show ?case
    using assms(3,4) by (subst client_recv.simps) (auto simp: ends_with_def split: read_result.split)
next
  case (Suc n)
  obtain bs w' bss' where r: "h_recv h w = Some (Read_bytes bs, w')" "length bs = MAX_BUF_LENGTH"
      "full_reads h n w' = Some (bss', w1)" "bss = bs # bss'"
    using Suc.prems(1) by (auto split: option.splits prod.splits read_result.splits if_splits)
  have "client_recv h buffer flag rcv w = client_recv h bs True (rcv @ bs) w'"
    using r(1,2) Suc.prems(2) by (subst client_recv.simps) simp
  also have "\<dots> = Some (ends_with (last (bs # bss')) (True \<or> 0 < n) ((rcv @ bs) @ concat bss') r, w2)"
    using r(3,2) by (rule Suc.IH)
  finally show ?case
    using r(4) by simp
qed

text \<open>C35: The receive loop of the client library ends with the first read that does not fill
  the buffer or fails, after any number of reads that fill it, and returns what they
  brought, followed by the stale tail of the buffer.\<close>

lemma client_receive_terminates:
  assumes "full_reads h n w = Some (bss, w1)" "h_recv h w1 = Some (r, w2)"
    and "\<And>bs. r = Read_bytes bs \<Longrightarrow> length bs < MAX_BUF_LENGTH"
  shows "client_recv h (replicate MAX_BUF_LENGTH (CHR 0x00)) False [] w =
     Some (case r of
         Read_error \<Rightarrow> if n = 0 then None else Some (concat bss @ last bss)
       | Read_bytes bs \<Rightarrow> Some (concat bss @ bs @ drop (length bs) (last (replicate MAX_BUF_LENGTH (CHR 0x00) # bss))), w2)"
proof -
  have "length bss = n"
    using assms(1)
    by (induction n arbitrary: w bss) (auto split: option.splits prod.splits read_result.splits if_splits)
  then show ?thesis
    by (subst client_recv_full [OF assms(1) _ assms(2,3)]) (auto simp: ends_with_def split: read_result.split)
qed

definition ex_queue_host :: "read_result list host" where
  "ex_queue_host = \<lparr>h_dump = (\<lambda>_. ''{}''), h_parse = (\<lambda>_. None), h_send = (\<lambda>_ w. (2, w)),
     h_recv = (\<lambda>w. case w of [] \<Rightarrow> None | r # rs \<Rightarrow> Some (r, rs)),
     h_recv_fd = (\<lambda>w. Some (None, w)), h_mmap = (\<lambda>_ w. (None, w)),
     h_munmap = (\<lambda>_ w. w), h_close = (\<lambda>w. w), h_new_buffer = (\<lambda>w. w), h_delete_buffer = (\<lambda>w. w), h_nats_connect = (\<lambda>w. (0, w)),
     h_nats_subscribe = (\<lambda>_ w. (0, w)), h_nats_destroy_sub = (\<lambda>w. w),
     h_nats_destroy_conn = (\<lambda>w. w), h_raw = (\<lambda>_. ex_tr 0 0)\<rparr>"

lemma client_receive_terminates_witness:
  "let full = replicate MAX_BUF_LENGTH (CHR ''a'')
   in client_recv ex_queue_host (replicate MAX_BUF_LENGTH (CHR 0x00)) False [] [Read_bytes full, Read_bytes ''b''] =
     Some (Some (full @ ''b'' @ drop 1 full), [])"
proof -
  let ?full = "replicate MAX_BUF_LENGTH (CHR ''a'')"
  have "full_reads ex_queue_host (Suc 0) [Read_bytes ?full, Read_bytes ''b''] = Some ([?full], [Read_bytes ''b''])"
    by (simp add: ex_queue_host_def)
  moreover have "h_recv ex_queue_host [Read_bytes ''b''] = Some (Read_bytes ''b'', [])"
    by (simp add: ex_queue_host_def)
  ultimately show ?thesis
    using client_receive_terminates [of ex_queue_host "Suc 0" "[Read_bytes ?full, Read_bytes ''b'']" "[?full]"
        "[Read_bytes ''b'']" "Read_bytes ''b''" "[]"]
    by (simp add: Let_def MAX_BUF_LENGTH_def del: replicate.simps(2))
qed

end
