(* ===== verification/Timeline_Clock.thy ===== *)
theory Timeline_Clock
  imports Wire_Json
begin

text \<open>
  The timeline clock of \<open>timeline-service/qot_timeline_clock.cpp\<close>: a shared memory
  segment holding the translation parameters, two descriptors on it and the
  requested quality.

  The results of the POSIX calls are the argument \<open>env\<close> of the constructor; the
  calls themselves are returned as a list, in order, so that descriptors can be
  accounted for.
\<close>

section \<open>The POSIX calls\<close>

datatype posix_call =
    Shm_open_rw string int
  | Shm_open_ro string int
  | Ftruncate int
  | Mmap int bool
  | Munmap
  | Close int
  | Shm_unlink string

record shm_env =
  env_fd_rw :: int
  env_mmap_ok :: bool
  env_fd_ro :: int

section \<open>The clock\<close>

record timeline_clock =
  tc_info :: qot_timeline
  tc_shm_name :: string
  tc_status_flag :: int
  tc_params :: "tl_translation option"
  tc_shm_fd :: int
  tc_shm_fd_rdonly :: int
  tc_quality :: timequality

definition tl_zero :: timelength where "tl_zero = \<lparr>tl_sec = 0, tl_asec = 0\<rparr>"

definition tq_zero :: timequality where
  "tq_zero = \<lparr>tq_resolution = tl_zero, tq_accuracy = \<lparr>below = tl_zero, above = tl_zero\<rparr>\<rparr>"

text \<open>A new segment reads as zeros; the constructor then zeroes every field but
  the slope.\<close>

definition tr_zero :: tl_translation where
  "tr_zero = \<lparr>tr_last = 0, tr_mult = 0, tr_nsec = 0, tr_u_nsec = 0, tr_l_nsec = 0,
              tr_u_mult = 0, tr_l_mult = 0, tr_slope = 0\<rparr>"

definition shm_name :: "qot_timeline \<Rightarrow> bool \<Rightarrow> string" where
  "shm_name timeline main_clk_flag =
     (if tln_type timeline = QOT_TIMELINE_LOCAL \<and> main_clk_flag then ''timeline_local''
      else if tln_type timeline = QOT_TIMELINE_LOCAL
      then ''timeline'' @ show_int (tln_index timeline)
      else ''timeline_global'')"

definition TimelineClock ::
  "shm_env \<Rightarrow> qot_timeline \<Rightarrow> bool \<Rightarrow> timeline_clock \<times> posix_call list" where
  "TimelineClock env timeline main_clk_flag =
     (let nm = shm_name timeline main_clk_flag;
          c0 = \<lparr>tc_info = timeline, tc_shm_name = nm, tc_status_flag = 0, tc_params = None,
                tc_shm_fd = env_fd_rw env, tc_shm_fd_rdonly = 0, tc_quality = tq_zero\<rparr>;
          fd = env_fd_rw env
      in if fd = - 1 then (c0\<lparr>tc_status_flag := 1\<rparr>, [Shm_open_rw nm fd])
         else if \<not> env_mmap_ok env
         then (c0\<lparr>tc_status_flag := 2\<rparr>,
               [Shm_open_rw nm fd, Ftruncate fd, Mmap fd False, Close fd, Shm_unlink nm])
         else let c1 = c0\<lparr>tc_params := Some tr_zero, tc_shm_fd_rdonly := env_fd_ro env\<rparr>
              in if env_fd_ro env = - 1
                 then (c1\<lparr>tc_status_flag := 3\<rparr>,
                       [Shm_open_rw nm fd, Ftruncate fd, Mmap fd True, Shm_open_ro nm (- 1),
                        Munmap, Close fd, Shm_unlink nm])
                 else (c1, [Shm_open_rw nm fd, Ftruncate fd, Mmap fd True,
                            Shm_open_ro nm (env_fd_ro env), Shm_unlink nm]))"

definition TimelineClock_destroy :: "timeline_clock \<Rightarrow> timeline_clock \<times> posix_call list" where
  "TimelineClock_destroy c =
     (if tc_status_flag c \<noteq> 0 then (c, [])
      else (c\<lparr>tc_params := None\<rparr>, [Munmap, Close (tc_shm_fd c), Close (tc_shm_fd c)]))"

definition tc_set_quality :: "timequality \<Rightarrow> timeline_clock \<Rightarrow> qot_return \<times> timeline_clock" where
  "tc_set_quality qot c = (QOT_RETURN_TYPE_OK, c\<lparr>tc_quality := qot\<rparr>)"

definition tc_get_desired_quality :: "timeline_clock \<Rightarrow> timequality" where
  "tc_get_desired_quality c = tc_quality c"

text \<open>\<open>*clock_params\<close>: a null pointer is dereferenced when construction failed.\<close>

definition tc_get_translation_params :: "timeline_clock \<Rightarrow> tl_translation option" where
  "tc_get_translation_params c = tc_params c"

definition tc_get_shm_fd :: "timeline_clock \<Rightarrow> int" where
  "tc_get_shm_fd c = tc_shm_fd c"

definition tc_get_rdonly_shm_fd :: "timeline_clock \<Rightarrow> int" where
  "tc_get_rdonly_shm_fd c = tc_shm_fd_rdonly c"

definition tc_query_status_flag :: "timeline_clock \<Rightarrow> int" where
  "tc_query_status_flag c = tc_status_flag c"

section \<open>Accounting for descriptors and names\<close>

text \<open>Each descriptor with the number of times it was opened less the number of
  times it was closed.\<close>

fun fd_balance :: "int \<Rightarrow> posix_call list \<Rightarrow> int" where
  "fd_balance fd [] = 0"
| "fd_balance fd (Shm_open_rw n f # cs) = (if f = fd \<and> f \<noteq> - 1 then 1 else 0) + fd_balance fd cs"
| "fd_balance fd (Shm_open_ro n f # cs) = (if f = fd \<and> f \<noteq> - 1 then 1 else 0) + fd_balance fd cs"
| "fd_balance fd (Close f # cs) = (if f = fd then - 1 else 0) + fd_balance fd cs"
| "fd_balance fd (_ # cs) = fd_balance fd cs"

text \<open>The names still linked after a sequence of calls.\<close>

fun linked :: "posix_call list \<Rightarrow> string set \<Rightarrow> string set" where
  "linked [] N = N"
| "linked (Shm_open_rw n f # cs) N = linked cs (if f = - 1 then N else insert n N)"
| "linked (Shm_unlink n # cs) N = linked cs (N - {n})"
| "linked (_ # cs) N = linked cs N"

text \<open>The constructor of a timeline clock leaves no segment name behind; on every failure
  it closes what it opened, and on success it holds both descriptors, zeroed parameters
  and no requested quality.\<close>

lemma timeline_clock_constructor:
  assumes "TimelineClock env timeline main = (c, calls)"
  shows "linked calls {} = {} \<and> 
         (tc_status_flag c \<noteq> 0 \<longrightarrow> (\<forall>fd. fd_balance fd calls = 0)) \<and>
         (tc_status_flag c = 0 \<longrightarrow>
            fd_balance (tc_shm_fd c) calls \<ge> 1 \<and> fd_balance (tc_shm_fd_rdonly c) calls \<ge> 1
            \<and> tc_params c = Some tr_zero \<and> tc_quality c = tq_zero)"
  using assms by (auto simp: TimelineClock_def Let_def split: if_splits)

lemma timeline_clock_constructor_witness:
  "linked (snd (TimelineClock \<lparr>env_fd_rw = 5, env_mmap_ok = False, env_fd_ro = 6\<rparr>
      \<lparr>tln_name = ''t'', tln_index = 3, tln_type = QOT_TIMELINE_LOCAL\<rparr> False)) {} = {}"
  using timeline_clock_constructor [of "\<lparr>env_fd_rw = 5, env_mmap_ok = False, env_fd_ro = 6\<rparr>"
      "\<lparr>tln_name = ''t'', tln_index = 3, tln_type = QOT_TIMELINE_LOCAL\<rparr>" False, OF surjective_pairing]
  by blast

text \<open>Constructing and destroying a timeline clock leaves the read-only descriptor open and
  closes the writable one twice.\<close>

lemma timeline_clock_lifetime_leaks:
  assumes "TimelineClock env timeline main = (c, calls)" "tc_status_flag c = 0"
    and "env_fd_rw env \<noteq> env_fd_ro env"
  shows "fd_balance (tc_shm_fd_rdonly c) (calls @ snd (TimelineClock_destroy c)) = 1 \<and>
         fd_balance (tc_shm_fd c) (calls @ snd (TimelineClock_destroy c)) = - 1"
  using assms by (auto simp: TimelineClock_def TimelineClock_destroy_def Let_def split: if_splits)

lemma timeline_clock_lifetime_leaks_witness:
  "fd_balance 6 (snd (TimelineClock \<lparr>env_fd_rw = 5, env_mmap_ok = True, env_fd_ro = 6\<rparr>
      \<lparr>tln_name = ''t'', tln_index = 3, tln_type = QOT_TIMELINE_LOCAL\<rparr> False) @
    snd (TimelineClock_destroy (fst (TimelineClock \<lparr>env_fd_rw = 5, env_mmap_ok = True, env_fd_ro = 6\<rparr>
      \<lparr>tln_name = ''t'', tln_index = 3, tln_type = QOT_TIMELINE_LOCAL\<rparr> False)))) = 1"
proof -
  let ?e = "\<lparr>env_fd_rw = 5, env_mmap_ok = True, env_fd_ro = 6\<rparr>"
  let ?t = "\<lparr>tln_name = ''t'', tln_index = 3, tln_type = QOT_TIMELINE_LOCAL\<rparr>"
  have "tc_status_flag (fst (TimelineClock ?e ?t False)) = 0"
    "tc_shm_fd_rdonly (fst (TimelineClock ?e ?t False)) = 6"
    by (simp_all add: TimelineClock_def Let_def)
  with timeline_clock_lifetime_leaks [of ?e ?t False, OF surjective_pairing] show ?thesis
    by simp
qed

text \<open>Different indices have different overlay segments.\<close>

lemma show_nat_digit_hd: "hd (show_nat n) \<noteq> CHR ''-'' \<and> show_nat n \<noteq> []"
proof (induction n rule: show_nat.induct)
  case (1 n)
  have "char_of (48 + n) \<noteq> CHR ''-''" if "n < 10"
  proof
    assume "char_of (48 + n) = CHR ''-''"
    then have "of_char (char_of (48 + n) :: char) = (of_char (CHR ''-'') :: nat)"
      by simp
    with that show False
      by simp
  qed
  with 1 show ?case
    by (simp add: show_nat.simps [of n])
qed

lemma show_int_inj: "show_int i = show_int j \<Longrightarrow> i = j"
proof -
  have minus: "''-'' @ show_nat m \<noteq> show_nat n" for m n
    using show_nat_digit_hd [of n] by (metis append_Cons list.sel(1))
  assume "show_int i = show_int j"
  then show "i = j"
    using minus [of "nat (- i)" "nat j"] minus [of "nat (- j)" "nat i"]
    by (auto simp: show_int_def eq_nat_nat_iff dest!: show_nat_inj split: if_splits)
qed

lemma overlay_shm_names_distinct:
  assumes "tln_type a = QOT_TIMELINE_LOCAL" "tln_type b = QOT_TIMELINE_LOCAL"
  shows "shm_name a False = shm_name b False \<longleftrightarrow> tln_index a = tln_index b"
  using assms by (auto simp: shm_name_def dest: show_int_inj)

end
