(* ===== verification/Timeline_Registry.thy ===== *)
theory Timeline_Registry
  imports Qot_Types
begin

text \<open>
  The timeline registry of \<open>timeline-service/qot_timeline_registry.cpp\<close>: timelines
  by name, the set of indices in use, the timeline objects by index (an address
  is a \<open>nat\<close>), and one non-recursive mutex.

  Every operation takes the mutex.  When it is already held the calling thread
  never returns: the operation is \<open>None\<close>.  Otherwise it returns the code's value
  and the new state.
\<close>

section \<open>State and operations\<close>

record registry =
  reg_locked :: bool
  reg_map :: "string \<Rightarrow> qot_timeline option"
  reg_ids :: "int set"
  reg_class :: "int \<Rightarrow> nat option"

definition TimelineRegistry :: registry where
  "TimelineRegistry = \<lparr>reg_locked = False, reg_map = Map.empty, reg_ids = {}, reg_class = Map.empty\<rparr>"

definition qot_timeline_lock :: "registry \<Rightarrow> registry option" where
  "qot_timeline_lock r = (if reg_locked r then None else Some (r\<lparr>reg_locked := True\<rparr>))"

definition qot_timeline_unlock :: "registry \<Rightarrow> registry" where
  "qot_timeline_unlock r = r\<lparr>reg_locked := False\<rparr>"

definition qot_timeline_find :: "string option \<Rightarrow> registry \<Rightarrow> (qot_timeline option \<times> registry) option" where
  "qot_timeline_find nm r =
     (case nm of
        None \<Rightarrow> Some (None, r)
      | Some s \<Rightarrow> do {
          r \<leftarrow> qot_timeline_lock r;
          Some (reg_map r s, qot_timeline_unlock r)
        })"

definition qot_timeline_insert ::
  "qot_timeline \<Rightarrow> registry \<Rightarrow> (qot_return \<times> qot_timeline \<times> registry) option" where
  "qot_timeline_insert timeline r = do {
     r \<leftarrow> qot_timeline_lock r;
     let index = (if reg_ids r \<noteq> {} then s32 (Max (reg_ids r) + 1) else 0);
     let timeline' = timeline\<lparr>tln_index := index\<rparr>;
     let r = r\<lparr>reg_map := (reg_map r)(tln_name timeline \<mapsto> timeline'),
               reg_ids := insert index (reg_ids r)\<rparr>;
     Some (QOT_RETURN_TYPE_OK, timeline', qot_timeline_unlock r)
   }"

definition qot_timeline_delete :: "qot_timeline \<Rightarrow> registry \<Rightarrow> (qot_return \<times> registry) option" where
  "qot_timeline_delete timeline r = do {
     r \<leftarrow> qot_timeline_lock r;
     let r = r\<lparr>reg_ids := reg_ids r - {tln_index timeline}\<rparr>;
     let r = r\<lparr>reg_map := (reg_map r)(tln_name timeline := None)\<rparr>;
     Some (QOT_RETURN_TYPE_OK, qot_timeline_unlock r)
   }"

definition qot_timeline_get_info ::
  "qot_timeline \<Rightarrow> registry \<Rightarrow> (qot_return \<times> qot_timeline \<times> registry) option" where
  "qot_timeline_get_info timeline r = do {
     (p, r) \<leftarrow> qot_timeline_find (Some (tln_name timeline)) r;
     Some (case p of
        None \<Rightarrow> (QOT_RETURN_TYPE_ERR, timeline, r)
      | Some t \<Rightarrow> (QOT_RETURN_TYPE_OK, t, r))
   }"

definition qot_timeline_set_info :: "qot_timeline \<Rightarrow> registry \<Rightarrow> (qot_return \<times> registry) option" where
  "qot_timeline_set_info timeline r = do {
     (p, r) \<leftarrow> qot_timeline_find (Some (tln_name timeline)) r;
     if p = None then Some (QOT_RETURN_TYPE_ERR, r)
     else do {
       r \<leftarrow> qot_timeline_lock r;
       let r = r\<lparr>reg_map := (reg_map r)(tln_name timeline \<mapsto> timeline)\<rparr>;
       Some (QOT_RETURN_TYPE_OK, qot_timeline_unlock r)
     }
   }"

definition qot_timeline_register ::
  "qot_timeline \<Rightarrow> registry \<Rightarrow> (qot_return \<times> qot_timeline \<times> registry) option" where
  "qot_timeline_register timeline r = do {
     (p, r) \<leftarrow> qot_timeline_find (Some (tln_name timeline)) r;
     (case p of
        Some t \<Rightarrow> Some (QOT_RETURN_TYPE_ERR, t, r)
      | None \<Rightarrow> do {
          (_, timeline', r) \<leftarrow> qot_timeline_insert timeline r;
          Some (QOT_RETURN_TYPE_OK, timeline', r)
        })
   }"

definition qot_timeline_remove :: "qot_timeline \<Rightarrow> registry \<Rightarrow> (qot_return \<times> registry) option" where
  "qot_timeline_remove timeline r = do {
     (p, r) \<leftarrow> qot_timeline_find (Some (tln_name timeline)) r;
     (case p of
        None \<Rightarrow> Some (QOT_RETURN_TYPE_ERR, r)
      | Some t \<Rightarrow> do {
          (_, r) \<leftarrow> qot_timeline_delete t r;
          Some (QOT_RETURN_TYPE_OK, r)
        })
   }"

text \<open>The next two functions have no return statement; their callers ignore the
  value, and so does the model.\<close>

definition qot_tl_class_register :: "int \<Rightarrow> nat \<Rightarrow> registry \<Rightarrow> registry option" where
  "qot_tl_class_register tl_index tl_ptr r = do {
     r \<leftarrow> qot_timeline_lock r;
     let r = r\<lparr>reg_class := (reg_class r)(tl_index \<mapsto> tl_ptr)\<rparr>;
     Some (qot_timeline_unlock r)
   }"

definition qot_tl_class_remove :: "int \<Rightarrow> registry \<Rightarrow> registry option" where
  "qot_tl_class_remove tl_index r = do {
     r \<leftarrow> qot_timeline_lock r;
     let r = r\<lparr>reg_class := (reg_class r)(tl_index := None)\<rparr>;
     Some (qot_timeline_unlock r)
   }"

text \<open>On a miss the code returns before the unlock, which follows the return.\<close>

definition qot_tl_class_get :: "int \<Rightarrow> registry \<Rightarrow> (nat option \<times> registry) option" where
  "qot_tl_class_get tl_index r = do {
     r \<leftarrow> qot_timeline_lock r;
     (case reg_class r tl_index of
        Some p \<Rightarrow> Some (Some p, qot_timeline_unlock r)
      | None \<Rightarrow> Some (None, r))
   }"

definition qot_timeline_remove_all :: "registry \<Rightarrow> registry option" where
  "qot_timeline_remove_all r = do {
     r \<leftarrow> qot_timeline_lock r;
     let r = r\<lparr>reg_map := Map.empty\<rparr>;
     Some (qot_timeline_unlock r)
   }"

lemmas registry_defs = qot_timeline_lock_def qot_timeline_unlock_def qot_timeline_find_def
  qot_timeline_insert_def qot_timeline_delete_def qot_timeline_get_info_def
  qot_timeline_set_info_def qot_timeline_register_def qot_timeline_remove_def
  qot_tl_class_register_def qot_tl_class_remove_def qot_tl_class_get_def
  qot_timeline_remove_all_def

section \<open>The invariant\<close>

text \<open>Entries carry their key as name, two entries differ in their index, and the
  indices in use are those of the entries.\<close>

definition reg_inv :: "registry \<Rightarrow> bool" where
  "reg_inv r \<longleftrightarrow> finite (dom (reg_map r))
     \<and> (\<forall>n t. reg_map r n = Some t \<longrightarrow> tln_name t = n)
     \<and> (\<forall>m n t u. reg_map r m = Some t \<longrightarrow> reg_map r n = Some u
          \<longrightarrow> tln_index t = tln_index u \<longrightarrow> m = n)
     \<and> reg_ids r = tln_index ` ran (reg_map r)"

text \<open>No index is close to the largest \<open>int\<close>.\<close>

definition reg_room :: "registry \<Rightarrow> bool" where
  "reg_room r \<longleftrightarrow> (\<forall>i \<in> reg_ids r. 0 \<le> i \<and> i < 2 ^ 31 - 1)"

definition next_index :: "registry \<Rightarrow> int" where
  "next_index r = (if reg_ids r \<noteq> {} then s32 (Max (reg_ids r) + 1) else 0)"

lemma reg_inv_finite: "reg_inv r \<Longrightarrow> finite (reg_ids r)"
  by (simp add: reg_inv_def finite_ran)

lemma next_index_fresh:
  assumes "reg_inv r" "reg_room r"
  shows "0 \<le> next_index r" "\<forall>i \<in> reg_ids r. i < next_index r" "next_index r \<notin> reg_ids r"
proof -
  have fin: "finite (reg_ids r)"
    using assms(1) by (rule reg_inv_finite)
  have bnd: "0 \<le> next_index r \<and> (\<forall>i \<in> reg_ids r. i < next_index r)"
  proof (cases "reg_ids r = {}")
    case False
    then have "Max (reg_ids r) \<in> reg_ids r"
      using fin by simp
    then have m: "0 \<le> Max (reg_ids r)" "Max (reg_ids r) < 2 ^ 31 - 1"
      using assms(2) unfolding reg_room_def by blast+
    then have "next_index r = Max (reg_ids r) + 1"
      using False by (simp add: next_index_def s32_suc_small)
    moreover have "i \<le> Max (reg_ids r)" if "i \<in> reg_ids r" for i
      using fin that by simp
    ultimately show ?thesis
      using m(1) by fastforce
  qed (simp add: next_index_def)
  then show "0 \<le> next_index r" "\<forall>i \<in> reg_ids r. i < next_index r" "next_index r \<notin> reg_ids r"
    by auto
qed

text \<open>What each operation does to a registry whose mutex is free.\<close>

lemma register_eq:
  assumes "\<not> reg_locked r"
  shows "qot_timeline_register t r =
    (case reg_map r (tln_name t) of
       Some t' \<Rightarrow> Some (QOT_RETURN_TYPE_ERR, t', r)
     | None \<Rightarrow> Some (QOT_RETURN_TYPE_OK, t\<lparr>tln_index := next_index r\<rparr>,
         r\<lparr>reg_map := (reg_map r)(tln_name t \<mapsto> t\<lparr>tln_index := next_index r\<rparr>),
           reg_ids := insert (next_index r) (reg_ids r)\<rparr>))"
  using assms by (cases r) (simp add: registry_defs next_index_def Let_def split: option.splits)

lemma remove_eq:
  assumes "\<not> reg_locked r"
  shows "qot_timeline_remove t r =
    (case reg_map r (tln_name t) of
       None \<Rightarrow> Some (QOT_RETURN_TYPE_ERR, r)
     | Some t' \<Rightarrow> Some (QOT_RETURN_TYPE_OK,
         r\<lparr>reg_map := (reg_map r)(tln_name t' := None), reg_ids := reg_ids r - {tln_index t'}\<rparr>))"
  using assms by (cases r) (simp add: registry_defs Let_def split: option.splits)

lemma get_info_eq:
  assumes "\<not> reg_locked r"
  shows "qot_timeline_get_info t r =
    Some (case reg_map r (tln_name t) of
       None \<Rightarrow> (QOT_RETURN_TYPE_ERR, t, r) | Some t' \<Rightarrow> (QOT_RETURN_TYPE_OK, t', r))"
  using assms by (cases r) (simp add: registry_defs Let_def split: option.splits)

lemma set_info_eq:
  assumes "\<not> reg_locked r"
  shows "qot_timeline_set_info t r =
    (if reg_map r (tln_name t) = None then Some (QOT_RETURN_TYPE_ERR, r)
     else Some (QOT_RETURN_TYPE_OK, r\<lparr>reg_map := (reg_map r)(tln_name t \<mapsto> t)\<rparr>))"
  using assms by (cases r) (auto simp: registry_defs Let_def)

lemma class_register_eq:
  "\<not> reg_locked r \<Longrightarrow> qot_tl_class_register i p r = Some (r\<lparr>reg_class := (reg_class r)(i \<mapsto> p)\<rparr>)"
  by (cases r) (simp add: registry_defs Let_def)

lemma class_remove_eq:
  "\<not> reg_locked r \<Longrightarrow> qot_tl_class_remove i r = Some (r\<lparr>reg_class := (reg_class r)(i := None)\<rparr>)"
  by (cases r) (simp add: registry_defs Let_def)

lemma class_get_eq:
  "\<not> reg_locked r \<Longrightarrow> qot_tl_class_get i r =
     Some (reg_class r i, if reg_class r i = None then r\<lparr>reg_locked := True\<rparr> else r)"
  by (cases r) (auto simp: registry_defs Let_def split: option.splits)

lemmas registry_eqs = register_eq remove_eq get_info_eq set_info_eq class_register_eq
  class_remove_eq class_get_eq

text \<open>The invariant is kept, and so is the mutex.\<close>

lemma reg_inv_init: "reg_inv TimelineRegistry" "\<not> reg_locked TimelineRegistry"
  by (simp_all add: reg_inv_def TimelineRegistry_def)

lemma reg_inv_insert:
  assumes "reg_inv r" "reg_map r n = None" "i \<notin> reg_ids r" "tln_name t = n" "tln_index t = i"
  shows "reg_inv (r\<lparr>reg_map := (reg_map r)(n \<mapsto> t), reg_ids := insert i (reg_ids r)\<rparr>)"
proof -
  have other: "tln_index u \<noteq> i" if "reg_map r m = Some u" for m u
    using assms(1,3) that unfolding reg_inv_def by (auto simp: ran_def)
  show ?thesis
    using assms other other [symmetric] unfolding reg_inv_def by (auto simp: ran_map_upd)
qed

lemma simps_upd:
  "reg_map (r\<lparr>reg_map := m, reg_ids := i\<rparr>) = m" "reg_ids (r\<lparr>reg_map := m, reg_ids := i\<rparr>) = i"
  by simp_all

lemma reg_inv_delete:
  assumes inv: "reg_inv r" and n: "reg_map r n = Some t"
  shows "reg_inv (r\<lparr>reg_map := (reg_map r)(n := None), reg_ids := reg_ids r - {tln_index t}\<rparr>)"
proof -
  let ?m = "(reg_map r)(n := None)"
  have inj: "m = k" if "reg_map r m = Some u" "reg_map r k = Some v" "tln_index u = tln_index v" for m k u v
    using inv that unfolding reg_inv_def by blast
  have iff: "u \<in> ran ?m \<longleftrightarrow> u \<in> ran (reg_map r) \<and> tln_index u \<noteq> tln_index t" for u
  proof
    assume "u \<in> ran ?m"
    then obtain k where "k \<noteq> n" "reg_map r k = Some u"
      by (auto simp: ran_def split: if_splits)
    moreover from this have "tln_index u \<noteq> tln_index t"
      using inj [OF _ n] by blast
    ultimately show "u \<in> ran (reg_map r) \<and> tln_index u \<noteq> tln_index t"
      by (auto intro: ranI)
  next
    assume "u \<in> ran (reg_map r) \<and> tln_index u \<noteq> tln_index t"
    then obtain k where "reg_map r k = Some u" "u \<noteq> t"
      by (auto simp: ran_def)
    then have "?m k = Some u"
      using n by auto
    then show "u \<in> ran ?m"
      by (rule ranI)
  qed
  have ids: "reg_ids r - {tln_index t} = tln_index ` ran ?m"
  proof -
    have "ran ?m = {u \<in> ran (reg_map r). tln_index u \<noteq> tln_index t}"
      using iff by blast
    moreover have "reg_ids r = tln_index ` ran (reg_map r)"
      using inv by (simp add: reg_inv_def)
    ultimately show ?thesis
      by auto
  qed
  have sub: "?m k = Some u \<Longrightarrow> reg_map r k = Some u" for k u
    by (simp split: if_splits)
  have "finite (dom ?m)"
    using inv by (simp add: reg_inv_def)
  moreover have "\<forall>k u. ?m k = Some u \<longrightarrow> tln_name u = k"
    using inv sub unfolding reg_inv_def by blast
  moreover have "\<forall>m k u v. ?m m = Some u \<longrightarrow> ?m k = Some v \<longrightarrow> tln_index u = tln_index v \<longrightarrow> m = k"
    using inj sub by blast
  ultimately show ?thesis
    unfolding reg_inv_def simps_upd ids by blast
qed

lemma reg_inv_class [simp]:
  "reg_inv (r\<lparr>reg_class := c\<rparr>) = reg_inv r" "reg_inv (r\<lparr>reg_locked := b\<rparr>) = reg_inv r"
  by (simp_all add: reg_inv_def)

text \<open>C12: Registering a timeline keeps the registry invariant and releases the mutex; a known
  name is refused with the registered timeline and leaves the registry alone; a new one
  gets an index above every index in use, and removing it restores the registry.\<close>

lemma registry_invariant:
  assumes "reg_inv r" "reg_room r" "\<not> reg_locked r"
  shows "\<exists>rv t' r'. qot_timeline_register t r = Some (rv, t', r') \<and> reg_inv r' \<and> \<not> reg_locked r' \<and>
           reg_map r' (tln_name t) = Some t' \<and>
           (rv = QOT_RETURN_TYPE_ERR \<longleftrightarrow> reg_map r (tln_name t) \<noteq> None) \<and>
           (rv = QOT_RETURN_TYPE_ERR \<longrightarrow> r' = r) \<and>
           (rv = QOT_RETURN_TYPE_OK \<longrightarrow>
              t' = t\<lparr>tln_index := next_index r\<rparr> \<and> (\<forall>i \<in> reg_ids r. i < tln_index t') \<and>
              qot_timeline_remove t r' = Some (QOT_RETURN_TYPE_OK, r))"
proof (cases "reg_map r (tln_name t)")
  case None
  let ?t = "t\<lparr>tln_index := next_index r\<rparr>"
  let ?r = "r\<lparr>reg_map := (reg_map r)(tln_name t \<mapsto> ?t), reg_ids := insert (next_index r) (reg_ids r)\<rparr>"
  note fresh = next_index_fresh [OF assms(1,2)]
  have inv: "reg_inv ?r"
    by (rule reg_inv_insert) (use assms None fresh in simp_all)
  have "qot_timeline_remove t ?r = Some (QOT_RETURN_TYPE_OK, r)"
    using assms(3) fresh(3) None by (cases r) (simp add: remove_eq fun_upd_idem)
  moreover have "qot_timeline_register t r = Some (QOT_RETURN_TYPE_OK, ?t, ?r)"
    using None assms(3) by (simp add: register_eq)
  moreover have "reg_map ?r (tln_name t) = Some ?t" "\<not> reg_locked ?r" "tln_index ?t = next_index r"
    using assms(3) by simp_all
  ultimately show ?thesis
    using inv None fresh(2) by (intro exI [of _ QOT_RETURN_TYPE_OK] exI [of _ ?t] exI [of _ ?r])
      (simp del: fun_upd_apply)
next
  case (Some t')
  with assms show ?thesis
    by (simp add: register_eq)
qed

lemma reg_inv_remove:
  assumes "reg_inv r" "\<not> reg_locked r" "qot_timeline_remove t r = Some (rv, r')"
  shows "reg_inv r'" "\<not> reg_locked r'" "reg_map r' (tln_name t) = None"
    "reg_ids r' \<subseteq> reg_ids r" "reg_class r' = reg_class r"
proof -
  have "reg_inv r' \<and> \<not> reg_locked r' \<and> reg_map r' (tln_name t) = None
      \<and> reg_ids r' \<subseteq> reg_ids r \<and> reg_class r' = reg_class r"
  proof (cases "reg_map r (tln_name t)")
    case None
    then have "r' = r"
      using assms(2,3) by (simp add: remove_eq)
    with None assms show ?thesis
      by simp
  next
    case (Some u)
    then have "tln_name u = tln_name t"
      using assms(1) unfolding reg_inv_def by blast
    then have r': "r' = r\<lparr>reg_map := (reg_map r)(tln_name t := None), reg_ids := reg_ids r - {tln_index u}\<rparr>"
      using assms(2,3) Some by (simp add: remove_eq)
    have "reg_inv r'"
      unfolding r' using assms(1) Some by (rule reg_inv_delete)
    then show ?thesis
      using assms(2) r' by auto
  qed
  then show "reg_inv r'" "\<not> reg_locked r'" "reg_map r' (tln_name t) = None"
    "reg_ids r' \<subseteq> reg_ids r" "reg_class r' = reg_class r"
    by blast+
qed

text \<open>A held mutex blocks every operation; a failed lookup of an object leaves it
  held.\<close>

lemma locked_blocks:
  assumes "reg_locked r"
  shows "qot_timeline_register t r = None" "qot_timeline_get_info t r = None"
    "qot_timeline_set_info t r = None" "qot_timeline_remove t r = None"
    "qot_tl_class_get i r = None" "qot_tl_class_register i p r = None"
    "qot_tl_class_remove i r = None" "qot_timeline_remove_all r = None"
  using assms by (simp_all add: registry_defs)

lemma registry_invariant_witness:
  "\<exists>r'. qot_timeline_register \<lparr>tln_name = ''tl'', tln_index = 9, tln_type = QOT_TIMELINE_LOCAL\<rparr> TimelineRegistry
     = Some (QOT_RETURN_TYPE_OK, \<lparr>tln_name = ''tl'', tln_index = 0, tln_type = QOT_TIMELINE_LOCAL\<rparr>, r')
     \<and> reg_inv r'"
  using registry_invariant [of TimelineRegistry
      "\<lparr>tln_name = ''tl'', tln_index = 9, tln_type = QOT_TIMELINE_LOCAL\<rparr>"] reg_inv_init
  by (auto simp: register_eq reg_room_def TimelineRegistry_def next_index_def)

end
