(* ===== verification/Timeline_Core.thy ===== *)
theory Timeline_Core
  imports Timeline_Clock Timeline_Registry
begin

text \<open>
  The timeline object of \<open>timeline-service/qot_timeline.cpp\<close>: its bindings, the
  quality of time it asks of its clocks, and the calls it makes to the REST
  interface, the sync service and the NATS subscriber.

  The primary clocks \<open>LocalClock\<close> and \<open>GlobalClock\<close> are globals that every timeline
  shares; they live in the \<open>world\<close> together with the trace of external calls.
  The answers of the REST queries, the outcome of allocations and of POSIX
  calls, and the contents of uninitialised locals are the argument \<open>env\<close>.  A query is
  \<open>None\<close> when it throws (theory \<open>Coordination_Rest\<close> says when); the REST requests
  whose answer is not read (\<open>POST\<close>, \<open>PUT\<close>, \<open>DELETE\<close>), and the calls to the sync
  service and to NATS, are effects of the trace and return.

  An operation is \<open>None\<close> when its thread never returns: a mutex is held, a null
  clock is dereferenced, or an exception is thrown that nothing catches.
\<close>

section \<open>State\<close>

record qot_node_phy =
  nd_name :: string
  nd_accuracy_ns :: u64
  nd_resolution_ns :: u64

datatype effect =
    Posix posix_call
  | Sync_request syncmsg
  | Rest_post_timeline string
  | Rest_post_node string string u64 u64
  | Rest_put_node string string u64 u64
  | Rest_delete_node string string
  | Rest_get_metadata string
  | Rest_put_metadata string string
  | Rest_get_coord_id string
  | Rest_get_servers string
  | Rest_post_server string qot_server
  | Nats_subscribe string
  | Nats_unsubscribe string
  | Send_fd int int
  | Send_json int json
  | Close_socket int

record core_env =
  env_alloc_ok :: bool
  env_shm :: shm_env
  env_metadata :: "string \<Rightarrow> string option"
  env_coord_id :: "string \<Rightarrow> int option"
  env_servers :: "string \<Rightarrow> qot_server list option"
  env_post_server :: "string \<Rightarrow> qot_server \<Rightarrow> int"
  env_junk_retval :: qot_return
  env_junk_demand :: timequality
  env_junk_info :: qot_timeline
  env_junk_server :: qot_server
  env_send_fd :: "int \<Rightarrow> int \<Rightarrow> int"

record world =
  w_local :: timeline_clock
  w_global :: timeline_clock
  w_trace :: "effect list"

definition emit :: "effect list \<Rightarrow> world \<Rightarrow> world" where
  "emit es w = w\<lparr>w_trace := w_trace w @ es\<rparr>"

datatype clock_ref = LocalClock | GlobalClock

record timeline_core =
  c_info :: qot_timeline
  c_status_flag :: int
  c_tl_clock :: "clock_ref option"
  c_overlay :: "timeline_clock option"
  c_node_uuid :: string
  c_binding_locked :: bool
  c_binding_map :: "int \<Rightarrow> qot_binding option"
  c_binding_ids :: "int set"
  c_peers :: "string list"

fun main_clock :: "clock_ref \<Rightarrow> world \<Rightarrow> timeline_clock" where
  "main_clock LocalClock w = w_local w"
| "main_clock GlobalClock w = w_global w"

fun main_set_quality :: "clock_ref \<Rightarrow> timequality \<Rightarrow> world \<Rightarrow> world" where
  "main_set_quality LocalClock q w = w\<lparr>w_local := snd (tc_set_quality q (w_local w))\<rparr>"
| "main_set_quality GlobalClock q w = w\<lparr>w_global := snd (tc_set_quality q (w_global w))\<rparr>"

section \<open>The quality of a timeline\<close>

definition tl_max_demand :: timelength where
  "tl_max_demand = \<lparr>tl_sec = 1000000000, tl_asec = 0\<rparr>"

definition tighter :: "timelength \<Rightarrow> timelength \<Rightarrow> timelength" where
  "tighter d b = (if timelength_cmp (Some d) (Some b) = - 1 then b else d)"

definition tighten :: "timequality \<Rightarrow> qot_binding \<Rightarrow> timequality" where
  "tighten d b =
     \<lparr>tq_resolution = tighter (tq_resolution d) (tq_resolution (bd_demand b)),
      tq_accuracy =
        \<lparr>below = tighter (below (tq_accuracy d)) (below (tq_accuracy (bd_demand b))),
         above = tighter (above (tq_accuracy d)) (above (tq_accuracy (bd_demand b)))\<rparr>\<rparr>"

text \<open>The iteration of a \<open>std::map\<close>: by increasing key.\<close>

definition bindings_in_order :: "(int \<Rightarrow> qot_binding option) \<Rightarrow> qot_binding list" where
  "bindings_in_order m = map (\<lambda>i. the (m i)) (sorted_list_of_set (dom m))"

definition aggregate_demand :: "(int \<Rightarrow> qot_binding option) \<Rightarrow> timequality" where
  "aggregate_demand m =
     fold (\<lambda>b d. tighten d b) (bindings_in_order m)
       \<lparr>tq_resolution = tl_max_demand, tq_accuracy = \<lparr>below = tl_max_demand, above = tl_max_demand\<rparr>\<rparr>"

definition c_get_desired_qot :: "timeline_core \<Rightarrow> world \<Rightarrow> timequality option" where
  "c_get_desired_qot c w =
     (case c_overlay c of
        Some ov \<Rightarrow> Some (tc_get_desired_quality ov)
      | None \<Rightarrow> map_option (\<lambda>k. tc_get_desired_quality (main_clock k w)) (c_tl_clock c))"

definition peer_msgs ::
  "core_env \<Rightarrow> csmsg_type \<Rightarrow> timeline_core \<Rightarrow> timequality \<Rightarrow> effect list" where
  "peer_msgs env ty c dem =
     map (\<lambda>p. Sync_request \<lparr>sm_info = c_info c, sm_demand = dem, sm_msgtype = ty, sm_data = p,
                            sm_retval = env_junk_retval env\<rparr>) (c_peers c)"

definition c_start_peer_sync :: "core_env \<Rightarrow> timeline_core \<Rightarrow> world \<Rightarrow> (qot_return \<times> world) option" where
  "c_start_peer_sync env c w = do {
     dem \<leftarrow> c_get_desired_qot c w;
     Some (QOT_RETURN_TYPE_OK, emit (peer_msgs env PEER_START c dem) w)
   }"

definition c_stop_peer_sync :: "core_env \<Rightarrow> timeline_core \<Rightarrow> world \<Rightarrow> (qot_return \<times> world) option" where
  "c_stop_peer_sync env c w = do {
     dem \<leftarrow> c_get_desired_qot c w;
     Some (QOT_RETURN_TYPE_OK, emit (peer_msgs env PEER_STOP c dem) w)
   }"

definition clocks_set_quality ::
  "timequality \<Rightarrow> timeline_core \<Rightarrow> world \<Rightarrow> (timeline_core \<times> world) option" where
  "clocks_set_quality dem c w = do {
     k \<leftarrow> c_tl_clock c;
     Some (c\<lparr>c_overlay := map_option (\<lambda>ov. snd (tc_set_quality dem ov)) (c_overlay c)\<rparr>,
           main_set_quality k dem w)
   }"

definition update_timeline_qot ::
  "core_env \<Rightarrow> string \<Rightarrow> timeline_core \<Rightarrow> world \<Rightarrow> (timeline_core \<times> world) option" where
  "update_timeline_qot env meta_data c w =
     (if c_binding_map c = Map.empty then clocks_set_quality tq_zero c w
      else do {
        let demand = aggregate_demand (c_binding_map c);
        (c, w) \<leftarrow> clocks_set_quality demand c w;
        let accuracy = TL_TO_nSEC (above (tq_accuracy demand));
        let resolution = TL_TO_nSEC (tq_resolution demand);
        let w = emit [Rest_put_node (tln_name (c_info c)) (c_node_uuid c) accuracy resolution,
                      Sync_request \<lparr>sm_info = c_info c, sm_demand = demand,
                                    sm_msgtype = TL_CREATE_UPDATE, sm_data = meta_data,
                                    sm_retval = env_junk_retval env\<rparr>] w;
        if tln_type (c_info c) = QOT_TIMELINE_LOCAL \<and> c_peers c \<noteq> []
        then do { (_, w) \<leftarrow> c_start_peer_sync env c w; Some (c, w) }
        else Some (c, w)
      })"

section \<open>Construction and destruction\<close>

definition TimelineCore ::
  "core_env \<Rightarrow> nat \<Rightarrow> string \<Rightarrow> qot_timeline \<Rightarrow> registry \<Rightarrow> world
     \<Rightarrow> (timeline_core \<times> qot_timeline \<times> registry \<times> world) option" where
  "TimelineCore env self node_name timeline reg w = do {
     let c0 = \<lparr>c_info = env_junk_info env, c_status_flag = 0, c_tl_clock = None, c_overlay = None,
               c_node_uuid = node_name, c_binding_locked = False, c_binding_map = Map.empty,
               c_binding_ids = {}, c_peers = []\<rparr>;
     (retval, timeline, reg) \<leftarrow> qot_timeline_register timeline reg;
     if retval = QOT_RETURN_TYPE_ERR then Some (c0\<lparr>c_status_flag := 1\<rparr>, timeline, reg, w)
     else do {
       let timeline_new = timeline;
       if tln_type timeline = QOT_TIMELINE_LOCAL \<and> \<not> env_alloc_ok env
       then do {
         (_, reg) \<leftarrow> qot_timeline_remove timeline reg;
         Some (c0\<lparr>c_status_flag := 2, c_tl_clock := Some LocalClock\<rparr>, timeline, reg, w)
       }
       else do {
         let (c1, w) =
           (if tln_type timeline = QOT_TIMELINE_LOCAL
            then let (ov, calls) = TimelineClock (env_shm env) timeline_new False
                 in (c0\<lparr>c_tl_clock := Some LocalClock, c_overlay := Some ov\<rparr>, emit (map Posix calls) w)
            else (c0\<lparr>c_tl_clock := Some GlobalClock\<rparr>, w));
         if tln_index timeline_new < 0
         then do {
           let w = (case c_overlay c1 of
                      Some ov \<Rightarrow> emit (map Posix (snd (TimelineClock_destroy ov))) w | None \<Rightarrow> w);
           (_, reg) \<leftarrow> qot_timeline_remove timeline reg;
           Some (c1\<lparr>c_tl_clock := None, c_overlay := None, c_status_flag := 3\<rparr>, timeline_new, reg, w)
         }
         else do {
           (_, reg) \<leftarrow> qot_timeline_set_info timeline_new reg;
           reg \<leftarrow> qot_tl_class_register (tln_index timeline_new) self reg;
           let w = emit [Nats_subscribe (tln_name timeline_new),
                         Rest_post_timeline (tln_name timeline_new)] w;
           Some (c1\<lparr>c_info := timeline_new\<rparr>, timeline_new, reg, w)
         }
       }
     }
   }"

definition TimelineCore_destroy ::
  "core_env \<Rightarrow> timeline_core \<Rightarrow> registry \<Rightarrow> world \<Rightarrow> (registry \<times> world) option" where
  "TimelineCore_destroy env c reg w =
     (if c_status_flag c \<noteq> 0 then Some (reg, w)
      else do {
        (_, reg) \<leftarrow> qot_timeline_remove (c_info c) reg;
        reg \<leftarrow> qot_tl_class_remove (tln_index (c_info c)) reg;
        let w = emit [Sync_request \<lparr>sm_info = c_info c, sm_demand = env_junk_demand env,
                                    sm_msgtype = TL_DESTROY, sm_data = '''',
                                    sm_retval = env_junk_retval env\<rparr>,
                      Rest_delete_node (tln_name (c_info c)) (c_node_uuid c),
                      Nats_unsubscribe (tln_name (c_info c))] w;
        w \<leftarrow> (if tln_type (c_info c) = QOT_TIMELINE_LOCAL \<and> c_peers c \<noteq> []
              then map_option snd (c_stop_peer_sync env c w) else Some w);
        Some (reg, case c_overlay c of
            Some ov \<Rightarrow> if tln_type (c_info c) = QOT_TIMELINE_LOCAL
                       then emit (map Posix (snd (TimelineClock_destroy ov))) w else w
          | None \<Rightarrow> w)
      })"

section \<open>Bindings\<close>

definition binding_lock :: "timeline_core \<Rightarrow> timeline_core option" where
  "binding_lock c = (if c_binding_locked c then None else Some (c\<lparr>c_binding_locked := True\<rparr>))"

definition binding_unlock :: "timeline_core \<Rightarrow> timeline_core" where
  "binding_unlock c = c\<lparr>c_binding_locked := False\<rparr>"

definition next_binding_id :: "int set \<Rightarrow> int" where
  "next_binding_id ids = (if ids \<noteq> {} then s32 (Max ids + 1) else 0)"

text \<open>The metadata that accompanies the first binding of a timeline without peers:
  read, and when it is not set, replaced by the coordination id.\<close>

definition first_binding_metadata ::
  "core_env \<Rightarrow> timeline_core \<Rightarrow> world \<Rightarrow> (string \<times> world) option" where
  "first_binding_metadata env c w =
     (let nm = tln_name (c_info c)
      in if tln_type (c_info c) = QOT_TIMELINE_LOCAL \<and> c_peers c = []
         then do {
           meta \<leftarrow> env_metadata env nm;
           let w1 = emit [Rest_get_metadata nm] w;
           if meta = ''NULL''
           then do {
             coord_id \<leftarrow> env_coord_id env nm;
             let meta' = show_int coord_id;
             Some (meta', emit [Rest_get_coord_id nm, Rest_put_metadata nm meta'] w1)
           }
           else Some (meta, w1)
         }
         else Some ([], w))"

definition announce_binding ::
  "core_env \<Rightarrow> qot_binding \<Rightarrow> u64 \<Rightarrow> u64 \<Rightarrow> timeline_core \<Rightarrow> world \<Rightarrow> (string \<times> world) option" where
  "announce_binding env binding accuracy resolution c w =
     (if bd_id binding = 0
      then first_binding_metadata env c
             (emit [Rest_post_node (tln_name (c_info c)) (c_node_uuid c) accuracy resolution] w)
      else Some ([], w))"

definition create_binding ::
  "core_env \<Rightarrow> qot_binding \<Rightarrow> timeline_core \<Rightarrow> world
     \<Rightarrow> (qot_return \<times> qot_binding \<times> timeline_core \<times> world) option" where
  "create_binding env binding c w = do {
     c \<leftarrow> binding_lock c;
     if c_binding_map c (bd_id binding) \<noteq> None \<and> c_binding_ids c \<noteq> {}
     then Some (QOT_RETURN_TYPE_ERR, binding, binding_unlock c, w)
     else do {
       let binding = binding\<lparr>bd_id := next_binding_id (c_binding_ids c)\<rparr>;
       let accuracy = TL_TO_nSEC (above (tq_accuracy (bd_demand binding)));
       let resolution = TL_TO_nSEC (tq_resolution (bd_demand binding));
       let c = c\<lparr>c_binding_ids := insert (bd_id binding) (c_binding_ids c)\<rparr>;
       let c = c\<lparr>c_binding_map := (c_binding_map c)(bd_id binding \<mapsto> binding)\<rparr>;
       (meta_data, w) \<leftarrow> announce_binding env binding accuracy resolution c w;
       (c, w) \<leftarrow> update_timeline_qot env meta_data c w;
       Some (QOT_RETURN_TYPE_OK, binding, binding_unlock c, w)
     }
   }"

definition delete_binding ::
  "core_env \<Rightarrow> qot_binding \<Rightarrow> timeline_core \<Rightarrow> world \<Rightarrow> (qot_return \<times> timeline_core \<times> world) option" where
  "delete_binding env binding c w = do {
     c \<leftarrow> binding_lock c;
     if c_binding_map c (bd_id binding) \<noteq> None
     then do {
       let c = c\<lparr>c_binding_map := (c_binding_map c)(bd_id binding := None)\<rparr>;
       let c = c\<lparr>c_binding_ids := c_binding_ids c - {bd_id binding}\<rparr>;
       (c, w) \<leftarrow> update_timeline_qot env ''NULL'' c w;
       Some (QOT_RETURN_TYPE_OK, binding_unlock c, w)
     }
     else Some (QOT_RETURN_TYPE_ERR, binding_unlock c, w)
   }"

text \<open>\<open>update_binding\<close> returns with the mutex held when the binding exists, and
  stores the binding (but not its id) when it does not.\<close>

definition update_binding ::
  "core_env \<Rightarrow> qot_binding \<Rightarrow> timeline_core \<Rightarrow> world \<Rightarrow> (qot_return \<times> timeline_core \<times> world) option" where
  "update_binding env binding c w = do {
     c \<leftarrow> binding_lock c;
     if c_binding_map c (bd_id binding) \<noteq> None
     then Some (QOT_RETURN_TYPE_ERR, c, w)
     else do {
       let c = c\<lparr>c_binding_map := (c_binding_map c)(bd_id binding \<mapsto> binding)\<rparr>;
       (c, w) \<leftarrow> update_timeline_qot env ''NULL'' c w;
       Some (QOT_RETURN_TYPE_OK, binding_unlock c, w)
     }
   }"

definition get_binding_count :: "timeline_core \<Rightarrow> int" where
  "get_binding_count c = int (card (dom (c_binding_map c)))"

section \<open>Queries and coordination\<close>

definition c_query_status_flag :: "timeline_core \<Rightarrow> int" where
  "c_query_status_flag c = c_status_flag c"

definition c_get_timeline_info :: "timeline_core \<Rightarrow> qot_timeline" where
  "c_get_timeline_info c = c_info c"

definition c_get_shm_fd :: "timeline_core \<Rightarrow> world \<Rightarrow> int" where
  "c_get_shm_fd c w =
     (case c_tl_clock c of None \<Rightarrow> - 1 | Some k \<Rightarrow> tc_get_shm_fd (main_clock k w))"

definition c_get_rdonly_shm_fd :: "timeline_core \<Rightarrow> world \<Rightarrow> int" where
  "c_get_rdonly_shm_fd c w =
     (case c_tl_clock c of None \<Rightarrow> - 1 | Some k \<Rightarrow> tc_get_rdonly_shm_fd (main_clock k w))"

text \<open>\<open>get_translation_params\<close> and its overlay variant: the return value with the
  parameters it copied out; \<open>None\<close> for the dereference of an unmapped segment.\<close>

definition c_get_translation_params ::
  "timeline_core \<Rightarrow> world \<Rightarrow> (int \<times> tl_translation option) option" where
  "c_get_translation_params c w =
     (case c_tl_clock c of
        None \<Rightarrow> Some (- 1, None)
      | Some k \<Rightarrow> map_option (\<lambda>p. (0, Some p)) (tc_get_translation_params (main_clock k w)))"

definition c_get_overlay_shm_fd :: "timeline_core \<Rightarrow> int" where
  "c_get_overlay_shm_fd c = (case c_overlay c of None \<Rightarrow> - 1 | Some ov \<Rightarrow> tc_get_shm_fd ov)"

definition c_get_overlay_rdonly_shm_fd :: "timeline_core \<Rightarrow> int" where
  "c_get_overlay_rdonly_shm_fd c =
     (case c_overlay c of None \<Rightarrow> - 1 | Some ov \<Rightarrow> tc_get_rdonly_shm_fd ov)"

definition c_get_overlay_translation_params ::
  "timeline_core \<Rightarrow> (int \<times> tl_translation option) option" where
  "c_get_overlay_translation_params c =
     (case c_overlay c of
        None \<Rightarrow> Some (- 1, None)
      | Some ov \<Rightarrow> map_option (\<lambda>p. (0, Some p)) (tc_get_translation_params ov))"

text \<open>The next two only log the nodes.\<close>

definition update_global_coordination_info ::
  "qot_node_phy list \<Rightarrow> timeline_core \<Rightarrow> qot_return \<times> timeline_core" where
  "update_global_coordination_info node_vector c = (QOT_RETURN_TYPE_OK, c)"

definition update_local_coordination_info ::
  "qot_node_phy list \<Rightarrow> timeline_core \<Rightarrow> qot_return \<times> timeline_core" where
  "update_local_coordination_info node_vector c = (QOT_RETURN_TYPE_OK, c)"

definition update_local_peers :: "string list \<Rightarrow> timeline_core \<Rightarrow> qot_return \<times> timeline_core" where
  "update_local_peers node_vector c = (QOT_RETURN_TYPE_OK, c\<lparr>c_peers := node_vector\<rparr>)"

definition c_get_server ::
  "core_env \<Rightarrow> timeline_core \<Rightarrow> world \<Rightarrow> (int \<times> qot_server option \<times> world) option" where
  "c_get_server env c w = do {
     let nm = tln_name (c_info c);
     servers \<leftarrow> env_servers env nm;
     let w1 = emit [Rest_get_servers nm] w;
     Some (case servers of
             [] \<Rightarrow> (- 1, None, w1)
           | s # _ \<Rightarrow> (0, Some s, w1))
   }"

definition c_set_server ::
  "core_env \<Rightarrow> qot_server \<Rightarrow> timeline_core \<Rightarrow> world \<Rightarrow> int \<times> world" where
  "c_set_server env server c w =
     (let nm = tln_name (c_info c)
      in (env_post_server env nm server, emit [Rest_post_server nm server] w))"

section \<open>The aggregated quality is the minimum of the demands\<close>

text \<open>The aggregation of one field, as a contract: folding \<open>step\<close> keeps a value that
  is below every value met, and is one of them.\<close>

locale tightening =
  fixes val :: "'d \<Rightarrow> nat" and step :: "'d \<Rightarrow> 'd \<Rightarrow> 'd" and ok :: "'d \<Rightarrow> bool"
  assumes step_ok: "ok d \<Longrightarrow> ok b \<Longrightarrow> ok (step d b)"
    and step_val: "ok d \<Longrightarrow> ok b \<Longrightarrow> val (step d b) = min (val d) (val b)"
begin

lemma fold_ok: "ok d \<Longrightarrow> (\<forall>b \<in> set bs. ok b) \<Longrightarrow> ok (fold (\<lambda>b d. step d b) bs d)"
  by (induction bs arbitrary: d) (simp_all add: step_ok)

lemma fold_val:
  "ok d \<Longrightarrow> (\<forall>b \<in> set bs. ok b) \<Longrightarrow>
   val (fold (\<lambda>b d. step d b) bs d) = Min (insert (val d) (val ` set bs))"
proof (induction bs arbitrary: d)
  case (Cons b bs)
  then have "val (fold (\<lambda>b d. step d b) (b # bs) d)
      = Min (insert (min (val d) (val b)) (val ` set bs))"
    by (simp add: step_ok step_val)
  also have "\<dots> = Min (insert (val d) (val ` set (b # bs)))"
    by (cases "bs = []") (simp_all add: min.assoc)
  finally show ?case .
qed simp

end

lemma tighter_val:
  assumes "tl_norm d" "tl_norm b"
  shows "tl_norm (tighter d b)" "tl_val (tighter d b) = min (tl_val d) (tl_val b)"
  using timelength_cmp_sgn [OF assms] assms
  by (auto simp: tighter_def sgn_if min_def split: if_splits)

interpretation tt: tightening tl_val tighter tl_norm
  by unfold_locales (simp_all add: tighter_val)

definition demands_norm :: "(int \<Rightarrow> qot_binding option) \<Rightarrow> bool" where
  "demands_norm m \<longleftrightarrow> finite (dom m) \<and> (\<forall>b \<in> ran m. tl_norm (tq_resolution (bd_demand b))
     \<and> ti_norm (tq_accuracy (bd_demand b)))"

lemma fold_tighten_fields:
  "tq_resolution (fold (\<lambda>b d. tighten d b) bs d)
     = fold (\<lambda>b d. tighter d b) (map (\<lambda>b. tq_resolution (bd_demand b)) bs) (tq_resolution d)"
  "below (tq_accuracy (fold (\<lambda>b d. tighten d b) bs d))
     = fold (\<lambda>b d. tighter d b) (map (\<lambda>b. below (tq_accuracy (bd_demand b))) bs) (below (tq_accuracy d))"
  "above (tq_accuracy (fold (\<lambda>b d. tighten d b) bs d))
     = fold (\<lambda>b d. tighter d b) (map (\<lambda>b. above (tq_accuracy (bd_demand b))) bs) (above (tq_accuracy d))"
  by (induction bs arbitrary: d) (simp_all add: tighten_def)

lemma set_bindings_in_order: "finite (dom m) \<Longrightarrow> set (bindings_in_order m) = ran m"
  by (force simp: bindings_in_order_def ran_def image_def dom_def)

lemma tl_max_demand_val: "tl_val tl_max_demand = 10 ^ 27" "tl_norm tl_max_demand"
  by (simp_all add: tl_max_demand_def tl_val_def tl_norm_def)

text \<open>C10: The quality a timeline requests is, field by field, the minimum of the demands of its
  bindings (and of the initial value of a billion seconds), whatever the order of the
  bindings.\<close>

lemma aggregate_demand_is_minimum:
  assumes "demands_norm m"
  shows "tl_val (tq_resolution (aggregate_demand m))
           = Min (insert (10 ^ 27) ((\<lambda>b. tl_val (tq_resolution (bd_demand b))) ` ran m)) \<and>
         tl_val (below (tq_accuracy (aggregate_demand m)))
           = Min (insert (10 ^ 27) ((\<lambda>b. tl_val (below (tq_accuracy (bd_demand b)))) ` ran m)) \<and>
         tl_val (above (tq_accuracy (aggregate_demand m)))
           = Min (insert (10 ^ 27) ((\<lambda>b. tl_val (above (tq_accuracy (bd_demand b)))) ` ran m))"
proof -
  have fin: "finite (dom m)"
    using assms by (simp add: demands_norm_def)
  have "\<forall>b \<in> set (bindings_in_order m). tl_norm (tq_resolution (bd_demand b))
      \<and> tl_norm (below (tq_accuracy (bd_demand b))) \<and> tl_norm (above (tq_accuracy (bd_demand b)))"
    using assms by (simp add: set_bindings_in_order [OF fin] demands_norm_def ti_norm_def)
  then show ?thesis
    unfolding aggregate_demand_def fold_tighten_fields
    by (simp add: tt.fold_val tl_max_demand_val image_image set_bindings_in_order [OF fin])
qed

section \<open>The invariant of a timeline's bindings\<close>

definition core_inv :: "timeline_core \<Rightarrow> bool" where
  "core_inv c \<longleftrightarrow> c_status_flag c = 0 \<and> c_tl_clock c \<noteq> None
     \<and> finite (c_binding_ids c) \<and> c_binding_ids c = dom (c_binding_map c)
     \<and> (\<forall>i b. c_binding_map c i = Some b \<longrightarrow> bd_id b = i)"

definition core_room :: "timeline_core \<Rightarrow> bool" where
  "core_room c \<longleftrightarrow> (\<forall>i \<in> c_binding_ids c. 0 \<le> i \<and> i < 2 ^ 31 - 1)"

lemma next_binding_id_fresh:
  assumes "finite ids" "\<forall>i \<in> ids. 0 \<le> i \<and> i < 2 ^ 31 - 1"
  shows "0 \<le> next_binding_id ids" "\<forall>i \<in> ids. i < next_binding_id ids" "next_binding_id ids \<notin> ids"
proof -
  have bnd: "0 \<le> next_binding_id ids \<and> (\<forall>i \<in> ids. i < next_binding_id ids)"
  proof (cases "ids = {}")
    case False
    then have "Max ids \<in> ids"
      using assms(1) by simp
    then have m: "0 \<le> Max ids" "Max ids < 2 ^ 31 - 1"
      using assms(2) by blast+
    then have "next_binding_id ids = Max ids + 1"
      using False by (simp add: next_binding_id_def s32_suc_small)
    moreover have "i \<le> Max ids" if "i \<in> ids" for i
      using assms(1) that by simp
    ultimately show ?thesis
      using m(1) by fastforce
  qed (simp add: next_binding_id_def)
  then show "0 \<le> next_binding_id ids" "\<forall>i \<in> ids. i < next_binding_id ids" "next_binding_id ids \<notin> ids"
    by auto
qed

text \<open>What \<open>update_timeline_qot\<close> does to the timeline: the quality of its clocks is
  the aggregate, nothing else changes.\<close>

definition qot_of_bindings :: "(int \<Rightarrow> qot_binding option) \<Rightarrow> timequality" where
  "qot_of_bindings m = (if m = Map.empty then tq_zero else aggregate_demand m)"

lemma clocks_set_quality_eq:
  assumes "c_tl_clock c = Some k"
  shows "clocks_set_quality d c w =
     Some (c\<lparr>c_overlay := map_option (\<lambda>ov. ov\<lparr>tc_quality := d\<rparr>) (c_overlay c)\<rparr>, main_set_quality k d w)"
  using assms by (simp add: clocks_set_quality_def tc_set_quality_def)

lemma desired_qot_set:
  assumes "c_tl_clock c = Some k"
  shows "c_get_desired_qot (c\<lparr>c_overlay := map_option (\<lambda>ov. ov\<lparr>tc_quality := d\<rparr>) (c_overlay c)\<rparr>)
           (emit es (main_set_quality k d w)) = Some d"
  using assms by (cases k)
    (auto simp: c_get_desired_qot_def tc_get_desired_quality_def tc_set_quality_def emit_def
      split: option.splits)

lemma emit_emit [simp]: "emit b (emit a w) = emit (a @ b) w"
  by (simp add: emit_def)

lemma emit_Nil [simp]: "emit [] w = w"
  by (simp add: emit_def)

lemma update_timeline_qot_eq:
  assumes k: "c_tl_clock c = Some k"
  obtains es where
    "update_timeline_qot env meta c w =
       Some (c\<lparr>c_overlay := map_option (\<lambda>ov. ov\<lparr>tc_quality := qot_of_bindings (c_binding_map c)\<rparr>) (c_overlay c)\<rparr>,
             emit es (main_set_quality k (qot_of_bindings (c_binding_map c)) w))"
    "(c_binding_map c = Map.empty) = (es = [])"
    "c_binding_map c \<noteq> Map.empty \<Longrightarrow>
       Sync_request \<lparr>sm_info = c_info c, sm_demand = aggregate_demand (c_binding_map c),
         sm_msgtype = TL_CREATE_UPDATE, sm_data = meta, sm_retval = env_junk_retval env\<rparr> \<in> set es"
proof (cases "c_binding_map c = Map.empty")
  case True
  then show ?thesis
    using k by (intro that [of "[]"])
      (simp_all add: update_timeline_qot_def clocks_set_quality_eq qot_of_bindings_def)
next
  case False
  let ?d = "aggregate_demand (c_binding_map c)"
  let ?c = "c\<lparr>c_overlay := map_option (\<lambda>ov. ov\<lparr>tc_quality := ?d\<rparr>) (c_overlay c)\<rparr>"
  let ?base = "[Rest_put_node (tln_name (c_info c)) (c_node_uuid c)
        (TL_TO_nSEC (above (tq_accuracy ?d))) (TL_TO_nSEC (tq_resolution ?d)),
      Sync_request \<lparr>sm_info = c_info c, sm_demand = ?d, sm_msgtype = TL_CREATE_UPDATE,
        sm_data = meta, sm_retval = env_junk_retval env\<rparr>]"
  let ?peers = "if tln_type (c_info c) = QOT_TIMELINE_LOCAL \<and> c_peers c \<noteq> []
    then peer_msgs env PEER_START ?c ?d else []"
  have "update_timeline_qot env meta c w = Some (?c, emit (?base @ ?peers) (main_set_quality k ?d w))"
    using False k desired_qot_set [OF k]
    by (simp add: update_timeline_qot_def clocks_set_quality_eq Let_def c_start_peer_sync_def)
  with False show ?thesis
    by (intro that [of "?base @ ?peers"]) (simp_all add: qot_of_bindings_def)
qed

lemma binding_relock [simp]:
  "\<not> c_binding_locked c \<Longrightarrow> binding_unlock (c\<lparr>c_binding_locked := True\<rparr>) = c"
  by (cases c) (simp add: binding_unlock_def)

lemma binding_unlock_fields [simp]:
  "\<not> c_binding_locked (binding_unlock c)" "c_binding_map (binding_unlock c) = c_binding_map c"
  "c_binding_ids (binding_unlock c) = c_binding_ids c" "c_info (binding_unlock c) = c_info c"
  "c_status_flag (binding_unlock c) = c_status_flag c" "c_tl_clock (binding_unlock c) = c_tl_clock c"
  "c_overlay (binding_unlock c) = c_overlay c" "c_peers (binding_unlock c) = c_peers c"
  "c_get_desired_qot (binding_unlock c) w = c_get_desired_qot c w"
  by (simp_all add: binding_unlock_def c_get_desired_qot_def split: option.split)

text \<open>A held binding mutex blocks every binding operation.\<close>

lemma binding_locked_blocks:
  assumes "c_binding_locked c"
  shows "create_binding env b c w = None" "delete_binding env b c w = None"
    "update_binding env b c w = None"
  using assms by (simp_all add: create_binding_def delete_binding_def update_binding_def binding_lock_def)

text \<open>The part of the state the binding operations leave alone.\<close>

definition same_timeline :: "timeline_core \<Rightarrow> timeline_core \<Rightarrow> bool" where
  "same_timeline c c' \<longleftrightarrow> c_info c' = c_info c \<and> c_status_flag c' = c_status_flag c
     \<and> c_tl_clock c' = c_tl_clock c \<and> c_peers c' = c_peers c
     \<and> (c_overlay c' = None \<longleftrightarrow> c_overlay c = None)"

text \<open>When the queries of a first binding throw: those of a local timeline without peers,
  whose metadata cannot be read, or is not set while the coordination id cannot be read.\<close>

definition first_binding_throws :: "core_env \<Rightarrow> timeline_core \<Rightarrow> bool" where
  "first_binding_throws env c \<longleftrightarrow>
     tln_type (c_info c) = QOT_TIMELINE_LOCAL \<and> c_peers c = [] \<and>
     (case env_metadata env (tln_name (c_info c)) of
        None \<Rightarrow> True
      | Some meta \<Rightarrow> meta = ''NULL'' \<and> env_coord_id env (tln_name (c_info c)) = None)"

lemma first_binding_throws_cong:
  "c_info c' = c_info c \<Longrightarrow> c_peers c' = c_peers c \<Longrightarrow> first_binding_throws env c' = first_binding_throws env c"
  by (simp only: first_binding_throws_def)

lemma announce_binding_emit:
  assumes "bd_id b = 0 \<longrightarrow> \<not> first_binding_throws env c"
  shows "\<exists>meta es. announce_binding env b acc res c w = Some (meta, emit es w)"
  using assms by (cases "env_metadata env (tln_name (c_info c))")
    (auto simp: announce_binding_def first_binding_metadata_def first_binding_throws_def Let_def
      intro: exI [of _ "[]"])

lemma announce_binding_throws:
  assumes "bd_id b = 0" "first_binding_throws env c"
  shows "announce_binding env b acc res c w = None"
  using assms by (cases "env_metadata env (tln_name (c_info c))")
    (auto simp: announce_binding_def first_binding_metadata_def first_binding_throws_def Let_def)

text \<open>A request to bind reaches the queries of a first binding, and they throw.\<close>

definition bind_throws :: "core_env \<Rightarrow> qot_binding \<Rightarrow> timeline_core \<Rightarrow> bool" where
  "bind_throws env b c \<longleftrightarrow>
     (c_binding_map c (bd_id b) = None \<or> c_binding_ids c = {}) \<and>
     next_binding_id (c_binding_ids c) = 0 \<and> first_binding_throws env c"

lemma create_binding_throws:
  assumes "\<not> c_binding_locked c" "bind_throws env b c"
  shows "create_binding env b c w = None"
proof -
  let ?b = "b\<lparr>bd_id := next_binding_id (c_binding_ids c)\<rparr>"
  let ?c = "c\<lparr>c_binding_locked := True, c_binding_ids := insert (bd_id ?b) (c_binding_ids c),
    c_binding_map := (c_binding_map c)(bd_id ?b \<mapsto> ?b)\<rparr>"
  have "announce_binding env ?b acc res ?c w = None" for acc res
    using assms(2) first_binding_throws_cong [of ?c c env]
    by (intro announce_binding_throws) (simp_all add: bind_throws_def)
  then show ?thesis
    using assms by (auto simp: create_binding_def binding_lock_def Let_def bind_throws_def)
qed

lemma create_binding_new:
  assumes live: "c_tl_clock c \<noteq> None" and free: "\<not> c_binding_locked c"
    and new: "c_binding_map c (bd_id b) = None \<or> c_binding_ids c = {}"
    and answered: "\<not> bind_throws env b c"
  shows "\<exists>c' w'. create_binding env b c w
       = Some (QOT_RETURN_TYPE_OK, b\<lparr>bd_id := next_binding_id (c_binding_ids c)\<rparr>, c', w') \<and>
     \<not> c_binding_locked c' \<and> same_timeline c c' \<and>
     c_binding_ids c' = insert (next_binding_id (c_binding_ids c)) (c_binding_ids c) \<and>
     c_binding_map c' = (c_binding_map c)(next_binding_id (c_binding_ids c)
        \<mapsto> b\<lparr>bd_id := next_binding_id (c_binding_ids c)\<rparr>) \<and>
     c_get_desired_qot c' w' = Some (aggregate_demand (c_binding_map c'))"
proof -
  let ?id = "next_binding_id (c_binding_ids c)"
  let ?b = "b\<lparr>bd_id := ?id\<rparr>"
  let ?c = "c\<lparr>c_binding_locked := True, c_binding_ids := insert ?id (c_binding_ids c),
    c_binding_map := (c_binding_map c)(?id \<mapsto> ?b)\<rparr>"
  obtain k where k: "c_tl_clock ?c = Some k"
    using live by auto
  have "bd_id ?b = 0 \<longrightarrow> \<not> first_binding_throws env ?c"
    using answered new first_binding_throws_cong [of ?c c env] by (auto simp: bind_throws_def)
  then obtain meta es where mw: "announce_binding env ?b (TL_TO_nSEC (above (tq_accuracy (bd_demand ?b))))
      (TL_TO_nSEC (tq_resolution (bd_demand ?b))) ?c w = Some (meta, emit es w)"
    using announce_binding_emit by blast
  obtain es' where u: "update_timeline_qot env meta ?c (emit es w) = Some
      (?c\<lparr>c_overlay := map_option (\<lambda>ov. ov\<lparr>tc_quality := qot_of_bindings (c_binding_map ?c)\<rparr>) (c_overlay ?c)\<rparr>,
       emit es' (main_set_quality k (qot_of_bindings (c_binding_map ?c)) (emit es w)))"
    using update_timeline_qot_eq [OF k] by metis
  have q: "qot_of_bindings (c_binding_map ?c) = aggregate_demand (c_binding_map ?c)"
    by (simp add: qot_of_bindings_def)
  have guard: "\<not> (c_binding_map c (bd_id b) \<noteq> None \<and> c_binding_ids c \<noteq> {})"
    using new by auto
  have "create_binding env b c w = Some (QOT_RETURN_TYPE_OK, ?b,
      binding_unlock (?c\<lparr>c_overlay := map_option (\<lambda>ov. ov\<lparr>tc_quality := aggregate_demand (c_binding_map ?c)\<rparr>)
        (c_overlay ?c)\<rparr>),
      emit es' (main_set_quality k (aggregate_demand (c_binding_map ?c)) (emit es w)))"
    using free guard mw u unfolding q by (simp add: create_binding_def binding_lock_def Let_def)
  then show ?thesis
    using desired_qot_set [OF k] by (auto simp: same_timeline_def)
qed

lemma create_binding_refused:
  assumes "\<not> c_binding_locked c" "c_binding_map c (bd_id b) \<noteq> None" "c_binding_ids c \<noteq> {}"
  shows "create_binding env b c w = Some (QOT_RETURN_TYPE_ERR, b, c, w)"
  using assms by (simp add: create_binding_def binding_lock_def)

lemma create_binding_spec:
  assumes "core_inv c" "core_room c" "\<not> c_binding_locked c"
  shows "if c_binding_map c (bd_id b) \<noteq> None
     then create_binding env b c w = Some (QOT_RETURN_TYPE_ERR, b, c, w)
     else if c_binding_map c = Map.empty \<and> first_binding_throws env c
     then create_binding env b c w = None
     else \<exists>b' c' w'. create_binding env b c w = Some (QOT_RETURN_TYPE_OK, b', c', w') \<and>
       b' = b\<lparr>bd_id := bd_id b'\<rparr> \<and> bd_id b' \<notin> c_binding_ids c \<and> 0 \<le> bd_id b' \<and>
       core_inv c' \<and> \<not> c_binding_locked c' \<and>
       c_binding_map c' = (c_binding_map c)(bd_id b' \<mapsto> b') \<and>
       c_get_desired_qot c' w' = Some (aggregate_demand (c_binding_map c'))"
proof -
  let ?id = "next_binding_id (c_binding_ids c)"
  have ids: "c_binding_ids c = dom (c_binding_map c)" and live: "c_tl_clock c \<noteq> None"
    using assms(1) by (simp_all add: core_inv_def)
  have "finite (c_binding_ids c)" "\<forall>i \<in> c_binding_ids c. 0 \<le> i \<and> i < 2 ^ 31 - 1"
    using assms(1,2) by (auto simp: core_inv_def core_room_def)
  note fresh = next_binding_id_fresh [OF this]
  have first: "?id = 0 \<longleftrightarrow> c_binding_map c = Map.empty"
  proof
    assume "?id = 0"
    then have "c_binding_ids c = {}"
      using fresh(2) assms(2) by (fastforce simp: core_room_def)
    then show "c_binding_map c = Map.empty"
      by (simp add: ids)
  qed (simp add: next_binding_id_def ids)
  consider (refused) "c_binding_map c (bd_id b) \<noteq> None"
    | (throws) "c_binding_map c (bd_id b) = None" "c_binding_map c = Map.empty" "first_binding_throws env c"
    | (new) "c_binding_map c (bd_id b) = None" "\<not> (c_binding_map c = Map.empty \<and> first_binding_throws env c)"
    by blast
  then show ?thesis
  proof cases
    case refused
    then have "c_binding_ids c \<noteq> {}"
      using ids by auto
    with refused show ?thesis
      using create_binding_refused [OF assms(3) refused] by simp
  next
    case throws
    then show ?thesis
      using create_binding_throws [OF assms(3), of env b w] first by (simp add: bind_throws_def)
  next
    case new
    then have "\<not> bind_throws env b c"
      using first by (simp add: bind_throws_def)
    then obtain c' w' where c': "create_binding env b c w = Some (QOT_RETURN_TYPE_OK, b\<lparr>bd_id := ?id\<rparr>, c', w')"
        "\<not> c_binding_locked c'" "same_timeline c c'" "c_binding_ids c' = insert ?id (c_binding_ids c)"
        "c_binding_map c' = (c_binding_map c)(?id \<mapsto> b\<lparr>bd_id := ?id\<rparr>)"
        "c_get_desired_qot c' w' = Some (aggregate_demand (c_binding_map c'))"
      using create_binding_new [OF live assms(3), of b env w] new(1) by blast
    have "core_inv c'"
      using assms(1) c'(3,4,5) by (auto simp: core_inv_def same_timeline_def)
    with new c' fresh show ?thesis
      by auto
  qed
qed

text \<open>C9: Creating a binding in a well-formed timeline with a free id, while its mutex is free:
  a binding whose id is already bound is refused and nothing changes; the first binding
  ends the service exactly when one of its REST queries throws; otherwise the binding gets
  an id that no binding of the timeline has, it is stored under that id, the invariant of
  the timeline is kept, the mutex is released, and the quality requested from the clock is
  the aggregate of the demands of all bindings.\<close>

lemma create_binding_correct:
  assumes "core_inv c" "core_room c" "\<not> c_binding_locked c"
  shows "if c_binding_map c (bd_id b) \<noteq> None
     then create_binding env b c w = Some (QOT_RETURN_TYPE_ERR, b, c, w)
     else if c_binding_map c = Map.empty \<and> first_binding_throws env c
     then create_binding env b c w = None
     else \<exists>b' c' w'. create_binding env b c w = Some (QOT_RETURN_TYPE_OK, b', c', w') \<and>
       b' = b\<lparr>bd_id := bd_id b'\<rparr> \<and> bd_id b' \<notin> c_binding_ids c \<and> 0 \<le> bd_id b' \<and>
       core_inv c' \<and> \<not> c_binding_locked c' \<and>
       c_binding_map c' = (c_binding_map c)(bd_id b' \<mapsto> b') \<and>
       c_get_desired_qot c' w' = Some (aggregate_demand (c_binding_map c'))"
  by (rule create_binding_spec [OF assms])

lemma delete_binding_live:
  assumes live: "c_tl_clock c \<noteq> None" and free: "\<not> c_binding_locked c"
  shows "if c_binding_map c (bd_id b) = None
     then delete_binding env b c w = Some (QOT_RETURN_TYPE_ERR, c, w)
     else \<exists>c' w'. delete_binding env b c w = Some (QOT_RETURN_TYPE_OK, c', w') \<and>
       \<not> c_binding_locked c' \<and> same_timeline c c' \<and>
       c_binding_ids c' = c_binding_ids c - {bd_id b} \<and>
       c_binding_map c' = (c_binding_map c)(bd_id b := None) \<and>
       c_get_desired_qot c' w' = Some (qot_of_bindings (c_binding_map c'))"
proof (cases "c_binding_map c (bd_id b) = None")
  case True
  with free show ?thesis
    by (simp add: delete_binding_def binding_lock_def)
next
  case False
  let ?c = "c\<lparr>c_binding_locked := True, c_binding_map := (c_binding_map c)(bd_id b := None),
    c_binding_ids := c_binding_ids c - {bd_id b}\<rparr>"
  obtain k where k: "c_tl_clock ?c = Some k"
    using live by auto
  obtain es where u: "update_timeline_qot env ''NULL'' ?c w = Some
      (?c\<lparr>c_overlay := map_option (\<lambda>ov. ov\<lparr>tc_quality := qot_of_bindings (c_binding_map ?c)\<rparr>) (c_overlay ?c)\<rparr>,
       emit es (main_set_quality k (qot_of_bindings (c_binding_map ?c)) w))"
    using update_timeline_qot_eq [OF k] by metis
  have "delete_binding env b c w = Some (QOT_RETURN_TYPE_OK,
      binding_unlock (?c\<lparr>c_overlay := map_option (\<lambda>ov. ov\<lparr>tc_quality := qot_of_bindings (c_binding_map ?c)\<rparr>)
        (c_overlay ?c)\<rparr>),
      emit es (main_set_quality k (qot_of_bindings (c_binding_map ?c)) w))"
    using free False u by (simp add: delete_binding_def binding_lock_def Let_def)
  then show ?thesis
    using False desired_qot_set [OF k] by (auto simp: same_timeline_def)
qed

lemma delete_binding_correct:
  assumes "core_inv c" "\<not> c_binding_locked c"
  shows "if c_binding_map c (bd_id b) = None
     then delete_binding env b c w = Some (QOT_RETURN_TYPE_ERR, c, w)
     else \<exists>c' w'. delete_binding env b c w = Some (QOT_RETURN_TYPE_OK, c', w') \<and>
       core_inv c' \<and> \<not> c_binding_locked c' \<and> same_timeline c c' \<and>
       c_binding_ids c' = c_binding_ids c - {bd_id b} \<and>
       c_binding_map c' = (c_binding_map c)(bd_id b := None) \<and>
       c_get_desired_qot c' w' = Some (qot_of_bindings (c_binding_map c'))"
proof -
  have live: "c_tl_clock c \<noteq> None"
    using assms(1) by (simp add: core_inv_def)
  have "core_inv c'" if "same_timeline c c'" "c_binding_ids c' = c_binding_ids c - {bd_id b}"
      "c_binding_map c' = (c_binding_map c)(bd_id b := None)" for c'
    using assms(1) that by (auto simp: core_inv_def same_timeline_def)
  with delete_binding_live [OF live assms(2), of b env w] show ?thesis
    by (auto split: if_splits)
qed

text \<open>A binding that is not known is stored by an update, without its id.\<close>

lemma update_binding_new:
  assumes live: "c_tl_clock c \<noteq> None" and free: "\<not> c_binding_locked c"
    and new: "c_binding_map c (bd_id b) = None"
  shows "\<exists>c' w'. update_binding env b c w = Some (QOT_RETURN_TYPE_OK, c', w') \<and>
     \<not> c_binding_locked c' \<and> same_timeline c c' \<and> c_binding_ids c' = c_binding_ids c \<and>
     c_binding_map c' = (c_binding_map c)(bd_id b \<mapsto> b)"
proof -
  let ?c = "c\<lparr>c_binding_locked := True, c_binding_map := (c_binding_map c)(bd_id b \<mapsto> b)\<rparr>"
  obtain k where k: "c_tl_clock ?c = Some k"
    using live by auto
  obtain es where u: "update_timeline_qot env ''NULL'' ?c w = Some
      (?c\<lparr>c_overlay := map_option (\<lambda>ov. ov\<lparr>tc_quality := qot_of_bindings (c_binding_map ?c)\<rparr>) (c_overlay ?c)\<rparr>,
       emit es (main_set_quality k (qot_of_bindings (c_binding_map ?c)) w))"
    using update_timeline_qot_eq [OF k] by metis
  show ?thesis
    using free new u by (auto simp: update_binding_def binding_lock_def Let_def same_timeline_def)
qed

text \<open>C11: Binding and then unbinding restores the bindings and the ids in use, and the
  requested quality is again that of the bindings there were before, unless it is the
  first binding and one of its REST queries throws.\<close>

lemma bind_unbind_restores:
  assumes "core_inv c" "core_room c" "\<not> c_binding_locked c" "c_binding_map c (bd_id b) = None"
    and "\<not> (c_binding_map c = Map.empty \<and> first_binding_throws env c)"
  shows "\<exists>b' c' w' c'' w''. create_binding env b c w = Some (QOT_RETURN_TYPE_OK, b', c', w') \<and>
     delete_binding env b' c' w' = Some (QOT_RETURN_TYPE_OK, c'', w'') \<and>
     c_binding_map c'' = c_binding_map c \<and> c_binding_ids c'' = c_binding_ids c \<and>
     c_get_desired_qot c'' w'' = Some (qot_of_bindings (c_binding_map c))"
proof -
  obtain b' c' w' where c': "create_binding env b c w = Some (QOT_RETURN_TYPE_OK, b', c', w')"
      "bd_id b' \<notin> c_binding_ids c" "core_inv c'" "\<not> c_binding_locked c'"
      "c_binding_map c' = (c_binding_map c)(bd_id b' \<mapsto> b')"
    using create_binding_spec [OF assms(1-3), of b env w] assms(4,5) by auto
  obtain c'' w'' where c'': "delete_binding env b' c' w' = Some (QOT_RETURN_TYPE_OK, c'', w'')"
      "core_inv c''" "c_binding_map c'' = (c_binding_map c')(bd_id b' := None)"
      "c_get_desired_qot c'' w'' = Some (qot_of_bindings (c_binding_map c''))"
    using delete_binding_correct [OF c'(3,4), of b' env w'] c'(5) by auto
  have "c_binding_map c (bd_id b') = None"
    using c'(2) assms(1) by (auto simp: core_inv_def)
  then have m: "c_binding_map c'' = c_binding_map c"
    using c''(3) c'(5) by (simp add: fun_upd_idem)
  moreover have "c_binding_ids c'' = c_binding_ids c"
    using m c''(2) assms(1) by (simp add: core_inv_def)
  ultimately show ?thesis
    using c'(1) c''(1,4) by auto
qed

text \<open>update_binding refuses a binding that exists, with the bindings unchanged and the
  mutex still held, so that every later operation on the bindings of the timeline blocks.\<close>

lemma update_binding_existing_blocks:
  assumes "\<not> c_binding_locked c" "c_binding_map c (bd_id b) \<noteq> None"
  shows "\<exists>c'. update_binding env b c w = Some (QOT_RETURN_TYPE_ERR, c', w) \<and>
     c_binding_map c' = c_binding_map c \<and> 
     create_binding env b2 c' w2 = None \<and> delete_binding env b2 c' w2 = None \<and>
     update_binding env b2 c' w2 = None"
proof -
  let ?c = "c\<lparr>c_binding_locked := True\<rparr>"
  have "update_binding env b c w = Some (QOT_RETURN_TYPE_ERR, ?c, w)"
    using assms by (simp add: update_binding_def binding_lock_def)
  then show ?thesis
    by (intro exI [of _ ?c]) (simp add: binding_locked_blocks)
qed

section \<open>A concrete timeline\<close>

definition ex_demand :: "u64 \<Rightarrow> timequality" where
  "ex_demand n = \<lparr>tq_resolution = \<lparr>tl_sec = 0, tl_asec = n\<rparr>,
     tq_accuracy = \<lparr>below = \<lparr>tl_sec = 0, tl_asec = n\<rparr>, above = \<lparr>tl_sec = 0, tl_asec = n\<rparr>\<rparr>\<rparr>"

definition ex_bind :: "int \<Rightarrow> u64 \<Rightarrow> qot_binding" where
  "ex_bind i n = \<lparr>bd_name = ''app'', bd_demand = ex_demand n, bd_id = i,
     bd_start_offset = \<lparr>tp_sec = 0, tp_asec = 0\<rparr>, bd_period = tl_zero\<rparr>"

definition ex_core :: timeline_core where
  "ex_core = \<lparr>c_info = \<lparr>tln_name = ''tl'', tln_index = 1, tln_type = QOT_TIMELINE_GLOBAL\<rparr>,
     c_status_flag = 0, c_tl_clock = Some GlobalClock, c_overlay = None, c_node_uuid = ''node'',
     c_binding_locked = False, c_binding_map = [3 \<mapsto> ex_bind 3 50], c_binding_ids = {3}, c_peers = []\<rparr>"

lemma ex_core_inv [simp]: "core_inv ex_core" "core_room ex_core" "\<not> c_binding_locked ex_core"
  by (simp_all add: ex_core_def core_inv_def core_room_def ex_bind_def)

lemma aggregate_demand_is_minimum_witness:
  "tl_val (tq_resolution (aggregate_demand [(3::int) \<mapsto> ex_bind 3 50, 4 \<mapsto> ex_bind 4 20])) = 20"
proof -
  have "demands_norm [(3::int) \<mapsto> ex_bind 3 50, 4 \<mapsto> ex_bind 4 20]"
    by (auto simp: demands_norm_def ex_bind_def ex_demand_def tl_norm_def ti_norm_def ran_def split: if_splits)
  moreover have "ran [(3::int) \<mapsto> ex_bind 3 50, 4 \<mapsto> ex_bind 4 20] = {ex_bind 3 50, ex_bind 4 20}"
    by (simp add: ran_map_upd insert_commute)
  ultimately show ?thesis
    using aggregate_demand_is_minimum [of "[(3::int) \<mapsto> ex_bind 3 50, 4 \<mapsto> ex_bind 4 20]"]
    by (simp add: ex_bind_def ex_demand_def tl_val_def)
qed

lemma create_binding_correct_witness:
  "\<forall>env w. \<exists>b' c' w'. create_binding env (ex_bind 0 20) ex_core w = Some (QOT_RETURN_TYPE_OK, b', c', w') \<and>
     bd_id b' \<noteq> 3 \<and> core_inv c'"
proof (intro allI)
  fix env w
  have "c_binding_map ex_core (bd_id (ex_bind 0 20)) = None" "c_binding_ids ex_core = {3}" "c_binding_map ex_core \<noteq> Map.empty"
    by (simp_all add: ex_core_def ex_bind_def)
  then show "\<exists>b' c' w'. create_binding env (ex_bind 0 20) ex_core w = Some (QOT_RETURN_TYPE_OK, b', c', w') \<and>
     bd_id b' \<noteq> 3 \<and> core_inv c'"
    using create_binding_correct [OF ex_core_inv, of "ex_bind 0 20" env w] by simp blast
qed

lemma bind_unbind_restores_witness:
  "\<forall>env w. \<exists>b' c' w' c'' w''. create_binding env (ex_bind 0 20) ex_core w = Some (QOT_RETURN_TYPE_OK, b', c', w') \<and>
     delete_binding env b' c' w' = Some (QOT_RETURN_TYPE_OK, c'', w'') \<and> c_binding_ids c'' = {3}"
proof (intro allI)
  fix env w
  have "c_binding_map ex_core (bd_id (ex_bind 0 20)) = None" "c_binding_ids ex_core = {3}" "c_binding_map ex_core \<noteq> Map.empty"
    by (simp_all add: ex_core_def ex_bind_def)
  then show "\<exists>b' c' w' c'' w''. create_binding env (ex_bind 0 20) ex_core w = Some (QOT_RETURN_TYPE_OK, b', c', w') \<and>
     delete_binding env b' c' w' = Some (QOT_RETURN_TYPE_OK, c'', w'') \<and> c_binding_ids c'' = {3}"
    using bind_unbind_restores [OF ex_core_inv, of "ex_bind 0 20" env w] by auto
qed

lemma update_binding_existing_blocks_witness:
  "\<forall>env w. \<exists>c'. update_binding env (ex_bind 3 10) ex_core w = Some (QOT_RETURN_TYPE_ERR, c', w) \<and>
     create_binding env (ex_bind 0 20) c' w = None"
proof (intro allI)
  fix env w
  have "c_binding_map ex_core (bd_id (ex_bind 3 10)) \<noteq> None"
    by (simp add: ex_core_def ex_bind_def)
  then show "\<exists>c'. update_binding env (ex_bind 3 10) ex_core w = Some (QOT_RETURN_TYPE_ERR, c', w) \<and>
     create_binding env (ex_bind 0 20) c' w = None"
    using update_binding_existing_blocks [OF ex_core_inv(3), of "ex_bind 3 10" env w "ex_bind 0 20" w] by auto
qed

end
