(* ===== verification/Timeline_Service.thy ===== *)
theory Timeline_Service
  imports Timeline_Core
begin

text \<open>
  The timeline service of \<open>timeline-service/qot_timeline_service.cpp\<close>: the handlers of
  its messages, the dispatch with its reply, the receive loop and the table of
  client sockets, and the start-up that creates the global timeline.

  The state is the registry, the timeline objects by address, the world of the
  shared clocks and of the external calls, and the message structure, which the
  service reuses from one request to the next.  A handler is \<open>None\<close> when the
  service thread never comes back from it (a held mutex, or an exception
  nobody catches).
\<close>

section \<open>State\<close>

record service =
  svc_reg :: registry
  svc_heap :: "nat \<Rightarrow> timeline_core option"
  svc_next :: nat
  svc_world :: world
  svc_node_uuid :: string
  svc_peer_flag :: bool
  svc_peer_clients :: "string list"

text \<open>\<open>tl_ptr = qot_tl_class_get(index)\<close>, with the object behind the pointer.\<close>

definition get_tl :: "int \<Rightarrow> service \<Rightarrow> ((nat \<times> timeline_core) option \<times> service) option" where
  "get_tl index s = do {
     (p, reg) \<leftarrow> qot_tl_class_get index (svc_reg s);
     let s = s\<lparr>svc_reg := reg\<rparr>;
     (case p of
        None \<Rightarrow> Some (None, s)
      | Some a \<Rightarrow> do {
          c \<leftarrow> svc_heap s a;
          Some (Some (a, c), s)
        })
   }"

definition put_tl :: "nat \<Rightarrow> timeline_core \<Rightarrow> world \<Rightarrow> service \<Rightarrow> service" where
  "put_tl a c w s = s\<lparr>svc_heap := (svc_heap s)(a \<mapsto> c), svc_world := w\<rparr>"

section \<open>The handlers\<close>

definition handle_create :: "core_env \<Rightarrow> tlmsg \<Rightarrow> service \<Rightarrow> (tlmsg \<times> service) option" where
  "handle_create env m s = do {
     let a = svc_next s;
     (c, info, reg, w) \<leftarrow> TimelineCore env a (svc_node_uuid s) (tm_info m) (svc_reg s) (svc_world s);
     let m = m\<lparr>tm_info := info\<rparr>;
     let s = s\<lparr>svc_reg := reg, svc_world := w, svc_next := a + 1\<rparr>;
     if c_status_flag c > 0
     then do {
       (reg, w) \<leftarrow> TimelineCore_destroy env c reg w;
       Some (m\<lparr>tm_retval := (if c_status_flag c > 1 then QOT_RETURN_TYPE_ERR else QOT_RETURN_TYPE_OK)\<rparr>,
             s\<lparr>svc_reg := reg, svc_world := w\<rparr>)
     }
     else do {
       let c = (if tln_type info = QOT_TIMELINE_LOCAL \<and> svc_peer_flag s
                then snd (update_local_peers (svc_peer_clients s) c) else c);
       Some (m\<lparr>tm_retval := QOT_RETURN_TYPE_OK\<rparr>, s\<lparr>svc_heap := (svc_heap s)(a \<mapsto> c)\<rparr>)
     }
   }"

definition handle_destroy :: "core_env \<Rightarrow> tlmsg \<Rightarrow> service \<Rightarrow> (tlmsg \<times> service) option" where
  "handle_destroy env m s = do {
     (p, s) \<leftarrow> get_tl (tln_index (tm_info m)) s;
     (case p of
        None \<Rightarrow> Some (m\<lparr>tm_retval := QOT_RETURN_TYPE_ERR\<rparr>, s)
      | Some (a, c) \<Rightarrow>
          if get_binding_count c = 0
          then do {
            (reg, w) \<leftarrow> TimelineCore_destroy env c (svc_reg s) (svc_world s);
            Some (m\<lparr>tm_retval := QOT_RETURN_TYPE_OK\<rparr>,
                  s\<lparr>svc_reg := reg, svc_world := w, svc_heap := (svc_heap s)(a := None)\<rparr>)
          }
          else Some (m\<lparr>tm_retval := QOT_RETURN_TYPE_OK\<rparr>, s))
   }"

definition handle_update :: "core_env \<Rightarrow> tlmsg \<Rightarrow> service \<Rightarrow> (tlmsg \<times> service) option" where
  "handle_update env m s = do {
     (p, s) \<leftarrow> get_tl (tln_index (tm_info m)) s;
     (case p of
        None \<Rightarrow> Some (m\<lparr>tm_retval := QOT_RETURN_TYPE_ERR\<rparr>, s)
      | Some (a, c) \<Rightarrow> do {
          (_, c, w) \<leftarrow> update_binding env (tm_binding m) c (svc_world s);
          Some (m\<lparr>tm_retval := QOT_RETURN_TYPE_OK\<rparr>, put_tl a c w s)
        })
   }"

definition handle_bind :: "core_env \<Rightarrow> tlmsg \<Rightarrow> service \<Rightarrow> (tlmsg \<times> service) option" where
  "handle_bind env m s = do {
     (p, s) \<leftarrow> get_tl (tln_index (tm_info m)) s;
     (case p of
        None \<Rightarrow> Some (m\<lparr>tm_retval := QOT_RETURN_TYPE_ERR\<rparr>, s)
      | Some (a, c) \<Rightarrow> do {
          (_, b, c, w) \<leftarrow> create_binding env (tm_binding m) c (svc_world s);
          Some (m\<lparr>tm_binding := b, tm_retval := QOT_RETURN_TYPE_OK\<rparr>, put_tl a c w s)
        })
   }"

definition handle_unbind :: "core_env \<Rightarrow> tlmsg \<Rightarrow> service \<Rightarrow> (tlmsg \<times> service) option" where
  "handle_unbind env m s = do {
     (p, s) \<leftarrow> get_tl (tln_index (tm_info m)) s;
     (case p of
        None \<Rightarrow> Some (m\<lparr>tm_retval := QOT_RETURN_TYPE_ERR\<rparr>, s)
      | Some (a, c) \<Rightarrow> do {
          (_, c, w) \<leftarrow> delete_binding env (tm_binding m) c (svc_world s);
          Some (m\<lparr>tm_retval := QOT_RETURN_TYPE_OK\<rparr>, put_tl a c w s)
        })
   }"

definition handle_quality :: "core_env \<Rightarrow> tlmsg \<Rightarrow> service \<Rightarrow> (tlmsg \<times> service) option" where
  "handle_quality env m s = do {
     (p, s) \<leftarrow> get_tl (tln_index (tm_info m)) s;
     (case p of
        None \<Rightarrow> Some (m\<lparr>tm_retval := QOT_RETURN_TYPE_ERR\<rparr>, s)
      | Some (a, c) \<Rightarrow> do {
          dem \<leftarrow> c_get_desired_qot c (svc_world s);
          Some (m\<lparr>tm_demand := dem, tm_binding := (tm_binding m)\<lparr>bd_demand := dem\<rparr>,
                  tm_retval := QOT_RETURN_TYPE_OK\<rparr>, s)
        })
   }"

definition handle_info :: "core_env \<Rightarrow> tlmsg \<Rightarrow> service \<Rightarrow> (tlmsg \<times> service) option" where
  "handle_info env m s = do {
     (p, s) \<leftarrow> get_tl (tln_index (tm_info m)) s;
     (case p of
        None \<Rightarrow> Some (m\<lparr>tm_retval := QOT_RETURN_TYPE_ERR\<rparr>, s)
      | Some (a, c) \<Rightarrow>
          Some (m\<lparr>tm_info := c_get_timeline_info c, tm_retval := QOT_RETURN_TYPE_OK\<rparr>, s))
   }"

text \<open>The four requests for a descriptor send it over the socket; only a failure is
  reported in the message.\<close>

definition send_clock_fd ::
  "core_env \<Rightarrow> int \<Rightarrow> int \<Rightarrow> tlmsg \<Rightarrow> service \<Rightarrow> tlmsg \<times> service" where
  "send_clock_fd env sd clk_fd m s =
     (m\<lparr>tm_retval := (if env_send_fd env sd clk_fd < 0 then QOT_RETURN_TYPE_ERR
                      else QOT_RETURN_TYPE_OK)\<rparr>,
      s\<lparr>svc_world := emit [Send_fd sd clk_fd] (svc_world s)\<rparr>)"

definition handle_shm_clock :: "core_env \<Rightarrow> int \<Rightarrow> tlmsg \<Rightarrow> service \<Rightarrow> (tlmsg \<times> service) option" where
  "handle_shm_clock env sd m s = do {
     (p, s) \<leftarrow> get_tl (tln_index (tm_info m)) s;
     (case p of
        None \<Rightarrow> Some (m\<lparr>tm_retval := QOT_RETURN_TYPE_ERR\<rparr>, s)
      | Some (a, c) \<Rightarrow> Some (send_clock_fd env sd (c_get_rdonly_shm_fd c (svc_world s)) m s))
   }"

definition handle_shm_clksync :: "core_env \<Rightarrow> int \<Rightarrow> tlmsg \<Rightarrow> service \<Rightarrow> (tlmsg \<times> service) option" where
  "handle_shm_clksync env sd m s = do {
     (p, s) \<leftarrow> get_tl (tln_index (tm_info m)) s;
     (case p of
        None \<Rightarrow> Some (m\<lparr>tm_retval := QOT_RETURN_TYPE_ERR\<rparr>, s)
      | Some (a, c) \<Rightarrow> Some (send_clock_fd env sd (c_get_shm_fd c (svc_world s)) m s))
   }"

definition handle_ov_shm_clock :: "core_env \<Rightarrow> int \<Rightarrow> tlmsg \<Rightarrow> service \<Rightarrow> (tlmsg \<times> service) option" where
  "handle_ov_shm_clock env sd m s = do {
     (p, s) \<leftarrow> get_tl (tln_index (tm_info m)) s;
     (case p of
        None \<Rightarrow> Some (m\<lparr>tm_retval := QOT_RETURN_TYPE_ERR\<rparr>, s)
      | Some (a, c) \<Rightarrow> Some (send_clock_fd env sd (c_get_overlay_rdonly_shm_fd c) m s))
   }"

definition handle_ov_shm_clksync :: "core_env \<Rightarrow> int \<Rightarrow> tlmsg \<Rightarrow> service \<Rightarrow> (tlmsg \<times> service) option" where
  "handle_ov_shm_clksync env sd m s = do {
     (p, s) \<leftarrow> get_tl (tln_index (tm_info m)) s;
     (case p of
        None \<Rightarrow> Some (m\<lparr>tm_retval := QOT_RETURN_TYPE_ERR\<rparr>, s)
      | Some (a, c) \<Rightarrow> Some (send_clock_fd env sd (c_get_overlay_shm_fd c) m s))
   }"

text \<open>Server descriptions travel as space separated values.\<close>

fun words_of :: "string \<Rightarrow> string \<Rightarrow> string list" where
  "words_of acc [] = (if acc = [] then [] else [rev acc])"
| "words_of acc (c # cs) =
     (if is_space c then (if acc = [] then words_of [] cs else rev acc # words_of [] cs)
      else words_of (c # acc) cs)"

definition is_digit :: "char \<Rightarrow> bool" where
  "is_digit c \<longleftrightarrow> (48 :: nat) \<le> of_char c \<and> of_char c \<le> (57 :: nat)"

text \<open>\<open>std::stoi\<close>: an optional sign and the longest run of digits; it throws without a
  digit and out of range.\<close>

definition stoi :: "string \<Rightarrow> int option" where
  "stoi s =
     (let (neg, ds) = (case s of
            [] \<Rightarrow> (False, [])
          | c # t \<Rightarrow> if c = CHR ''-'' then (True, takeWhile is_digit t)
                     else if c = CHR ''+'' then (False, takeWhile is_digit t)
                     else (False, takeWhile is_digit (c # t)));
          v = (if neg then - int (digits_val ds) else int (digits_val ds))
      in if ds = [] \<or> \<not> int32 v then None else Some v)"

definition show_server :: "qot_server \<Rightarrow> string" where
  "show_server sv = sv_hostname sv @ '' '' @ sv_type sv @ '' '' @ show_int (sv_stratum sv)"

fun parse_server :: "nat \<Rightarrow> string list \<Rightarrow> qot_server \<Rightarrow> qot_server option" where
  "parse_server ctr [] sv = Some sv"
| "parse_server ctr (word # ws) sv =
     (if ctr = 0 then parse_server (ctr + 1) ws (sv\<lparr>sv_hostname := word\<rparr>)
      else if ctr = 1 then parse_server (ctr + 1) ws (sv\<lparr>sv_type := word\<rparr>)
      else if ctr = 2
      then do { n \<leftarrow> stoi word; parse_server (ctr + 1) ws (sv\<lparr>sv_stratum := n\<rparr>) }
      else parse_server (ctr + 1) ws sv)"

definition handle_get_server :: "core_env \<Rightarrow> tlmsg \<Rightarrow> service \<Rightarrow> (tlmsg \<times> service) option" where
  "handle_get_server env m s = do {
     (p, s) \<leftarrow> get_tl (tln_index (tm_info m)) s;
     (case p of
        None \<Rightarrow> Some (m\<lparr>tm_retval := QOT_RETURN_TYPE_ERR\<rparr>, s)
      | Some (a, c) \<Rightarrow> do {
          (r, sv, w) \<leftarrow> c_get_server env c (svc_world s);
          let s = s\<lparr>svc_world := w\<rparr>;
          Some (case sv of
             Some server \<Rightarrow> (m\<lparr>tm_aux_data := show_server server, tm_retval := QOT_RETURN_TYPE_OK\<rparr>, s)
           | None \<Rightarrow> (m\<lparr>tm_retval := QOT_RETURN_TYPE_ERR\<rparr>, s))
        })
   }"

definition handle_set_server :: "core_env \<Rightarrow> tlmsg \<Rightarrow> service \<Rightarrow> (tlmsg \<times> service) option" where
  "handle_set_server env m s = do {
     (p, s) \<leftarrow> get_tl (tln_index (tm_info m)) s;
     (case p of
        None \<Rightarrow> Some (m\<lparr>tm_retval := QOT_RETURN_TYPE_ERR\<rparr>, s)
      | Some (a, c) \<Rightarrow> do {
          server \<leftarrow> parse_server 0 (words_of [] (tm_aux_data m))
            ((env_junk_server env)\<lparr>sv_hostname := [], sv_type := []\<rparr>);
          let (r, w) = c_set_server env server c (svc_world s);
          Some (m\<lparr>tm_retval := (if r = 0 then QOT_RETURN_TYPE_OK else QOT_RETURN_TYPE_ERR)\<rparr>,
                s\<lparr>svc_world := w\<rparr>)
        })
   }"

text \<open>Requesting and reading a latency only check that the timeline exists.\<close>

definition handle_latency :: "core_env \<Rightarrow> tlmsg \<Rightarrow> service \<Rightarrow> (tlmsg \<times> service) option" where
  "handle_latency env m s = do {
     (p, s) \<leftarrow> get_tl (tln_index (tm_info m)) s;
     Some (m\<lparr>tm_retval := (if p = None then QOT_RETURN_TYPE_ERR else QOT_RETURN_TYPE_OK)\<rparr>, s)
   }"

section \<open>Dispatch and reply\<close>

fun dispatch :: "core_env \<Rightarrow> int \<Rightarrow> tlmsg_type \<Rightarrow> tlmsg \<Rightarrow> service \<Rightarrow> (tlmsg \<times> service) option" where
  "dispatch env sd TIMELINE_CREATE m s = handle_create env m s"
| "dispatch env sd TIMELINE_DESTROY m s = handle_destroy env m s"
| "dispatch env sd TIMELINE_UPDATE m s = handle_update env m s"
| "dispatch env sd TIMELINE_BIND m s = handle_bind env m s"
| "dispatch env sd TIMELINE_UNBIND m s = handle_unbind env m s"
| "dispatch env sd TIMELINE_QUALITY m s = handle_quality env m s"
| "dispatch env sd TIMELINE_INFO m s = handle_info env m s"
| "dispatch env sd TIMELINE_SHM_CLOCK m s = handle_shm_clock env sd m s"
| "dispatch env sd TIMELINE_SHM_CLKSYNC m s = handle_shm_clksync env sd m s"
| "dispatch env sd TIMELINE_OV_SHM_CLOCK m s = handle_ov_shm_clock env sd m s"
| "dispatch env sd TIMELINE_OV_SHM_CLKSYNC m s = handle_ov_shm_clksync env sd m s"
| "dispatch env sd TIMELINE_GET_SERVER m s = handle_get_server env m s"
| "dispatch env sd TIMELINE_SET_SERVER m s = handle_set_server env m s"
| "dispatch env sd TIMELINE_REQ_LATENCY m s = handle_latency env m s"
| "dispatch env sd TIMELINE_GET_LATENCY m s = handle_latency env m s"
| "dispatch env sd TIMELINE_UNDEFINED m s = Some (m\<lparr>tm_retval := QOT_RETURN_TYPE_ERR\<rparr>, s)"
| "dispatch env sd (Tlmsg_unnamed i) m s = Some (m\<lparr>tm_retval := QOT_RETURN_TYPE_ERR\<rparr>, s)"

definition fd_request :: "tlmsg_type \<Rightarrow> bool" where
  "fd_request t \<longleftrightarrow> t = TIMELINE_SHM_CLOCK \<or> t = TIMELINE_OV_SHM_CLOCK
     \<or> t = TIMELINE_SHM_CLKSYNC \<or> t = TIMELINE_OV_SHM_CLKSYNC"

definition reply :: "int \<Rightarrow> tlmsg \<Rightarrow> service \<Rightarrow> service" where
  "reply sd m s =
     (if fd_request (tm_msgtype m) \<and> tm_retval m \<noteq> QOT_RETURN_TYPE_ERR then s
      else s\<lparr>svc_world := emit [Send_json sd (serialize_tlmsg m)] (svc_world s)\<rparr>)"

definition serve :: "core_env \<Rightarrow> int \<Rightarrow> tlmsg \<Rightarrow> service \<Rightarrow> (tlmsg \<times> service) option" where
  "serve env sd m s = do {
     (m, s) \<leftarrow> dispatch env sd (tm_msgtype m) (m\<lparr>tm_retval := QOT_RETURN_TYPE_OK\<rparr>) s;
     Some (m, reply sd m s)
   }"

section \<open>Receiving\<close>

text \<open>The loop of \<open>read\<close>s: the received text, whether anything was received, and
  whether the peer disconnected.  The whole buffer is appended each time, and it
  is not cleared between reads.  \<open>None\<close>: the next read blocks.\<close>

fun recv_loop ::
  "read_result list \<Rightarrow> string \<Rightarrow> bool \<Rightarrow> string \<Rightarrow> (string \<times> bool \<times> bool) option" where
  "recv_loop [] buffer recv_flag rcv = None"
| "recv_loop (Read_error # rs) buffer recv_flag rcv =
     (if recv_flag then Some (rcv @ buffer, True, False) else Some (rcv, False, False))"
| "recv_loop (Read_bytes bs # rs) buffer recv_flag rcv =
     (if bs = [] then Some (rcv, recv_flag, True)
      else let buffer = bs @ drop (length bs) buffer; rcv = rcv @ buffer
           in if length bs = MAX_BUF_LENGTH then recv_loop rs buffer True rcv
              else Some (rcv, True, False))"

definition receive :: "read_result list \<Rightarrow> (string \<times> bool \<times> bool) option" where
  "receive rs = recv_loop rs (replicate MAX_BUF_LENGTH (CHR 0x00)) False []"

text \<open>The table of client sockets: a new connection takes the first free slot (and
  none when all are taken); a disconnect frees the slot.\<close>

fun add_client :: "int \<Rightarrow> int list \<Rightarrow> int list" where
  "add_client new [] = []"
| "add_client new (c # cs) = (if c = 0 then new # cs else c # add_client new cs)"

definition MAX_CLIENTS :: nat where "MAX_CLIENTS = 30"

definition init_clients :: "int list" where "init_clients = replicate MAX_CLIENTS 0"

text \<open>One readable client socket: slot \<open>i\<close>.  \<open>parse\<close> is the JSON library's parser;
  its failure is an exception nobody catches.\<close>

definition serve_client ::
  "core_env \<Rightarrow> (string \<Rightarrow> json option) \<Rightarrow> read_result list \<Rightarrow> nat
     \<Rightarrow> int list \<times> tlmsg \<times> service \<Rightarrow> (int list \<times> tlmsg \<times> service) option" where
  "serve_client env parse rs i st = do {
     let (clients, m, s) = st;
     let sd = clients ! i;
     (rcv, recv_flag, closed) \<leftarrow> receive rs;
     let (clients, s) =
       (if closed
        then (clients[i := 0], s\<lparr>svc_world := emit [Close_socket sd] (svc_world s)\<rparr>)
        else (clients, s));
     if \<not> recv_flag then Some (clients, m, s)
     else do {
       data \<leftarrow> parse rcv;
       m \<leftarrow> deserialize_tlmsg data m;
       (m, s) \<leftarrow> serve env sd m s;
       Some (clients, m, s)
     }
   }"

section \<open>Start-up\<close>

text \<open>\<open>GetPeerClients\<close>: the second and later nodes of every edge that starts with
  this node.\<close>

definition GetPeerClients :: "string list list \<Rightarrow> string \<Rightarrow> string list" where
  "GetPeerClients edges node_name =
     concat (map (\<lambda>edge. case edge of
         [] \<Rightarrow> []
       | first # cols \<Rightarrow> if first \<noteq> node_name then [] else cols) edges)"

text \<open>The binding of the service to the global timeline.  The code assigns the
  upper accuracy twice and never the attoseconds of the lower one: \<open>junk\<close>.\<close>

definition service_binding :: "u64 \<Rightarrow> qot_binding \<Rightarrow> qot_binding" where
  "service_binding junk b =
     b\<lparr>bd_name := ''timeline_service'', bd_id := 0,
       bd_demand := \<lparr>tq_resolution = \<lparr>tl_sec = 0, tl_asec = 10000000000\<rparr>,
                     tq_accuracy = \<lparr>below = \<lparr>tl_sec = 0, tl_asec = junk\<rparr>,
                                    above = \<lparr>tl_sec = 0, tl_asec = 1000000000000000\<rparr>\<rparr>\<rparr>\<rparr>"

definition startup ::
  "core_env \<Rightarrow> core_env \<Rightarrow> u64 \<Rightarrow> qot_binding \<Rightarrow> int \<Rightarrow> string \<Rightarrow> bool \<Rightarrow> string list \<Rightarrow> service option" where
  "startup genv lenv junk b0 junk_index node_uuid peer_flag peers = do {
     let global_timeline = \<lparr>tln_name = ''gl_global'', tln_index = junk_index,
                            tln_type = QOT_TIMELINE_GLOBAL\<rparr>;
     let local_timeline = \<lparr>tln_name = ''local'', tln_index = junk_index,
                           tln_type = QOT_TIMELINE_LOCAL\<rparr>;
     let (gclk, gcalls) = TimelineClock (env_shm genv) global_timeline True;
     let (lclk, lcalls) = TimelineClock (env_shm lenv) local_timeline True;
     let w = \<lparr>w_local = lclk, w_global = gclk, w_trace = map Posix (gcalls @ lcalls)\<rparr>;
     (c, info, reg, w) \<leftarrow> TimelineCore genv 0 node_uuid global_timeline TimelineRegistry w;
     if c_status_flag c > 0 then None
     else do {
       (_, b, c, w) \<leftarrow> create_binding genv (service_binding junk b0) c w;
       Some \<lparr>svc_reg = reg, svc_heap = [0 \<mapsto> c], svc_next = 1, svc_world = w,
             svc_node_uuid = node_uuid, svc_peer_flag = peer_flag, svc_peer_clients = peers\<rparr>
     }
   }"

section \<open>Objects and the registry together\<close>

definition reg_range :: "registry \<Rightarrow> bool" where
  "reg_range r \<longleftrightarrow> (\<forall>i \<in> reg_ids r. 0 \<le> i \<and> i < 2 ^ 31)"

text \<open>A new index is never in use, also when the counter wraps.\<close>

lemma next_index_unused:
  assumes "reg_inv r" "reg_range r"
  shows "next_index r \<notin> reg_ids r" "next_index r < 2 ^ 31"
proof -
  have fin: "finite (reg_ids r)"
    using assms(1) by (rule reg_inv_finite)
  show "next_index r < 2 ^ 31"
    using int32_s32 [of "Max (reg_ids r) + 1"] by (simp add: next_index_def int32_def)
  show "next_index r \<notin> reg_ids r"
  proof (cases "reg_ids r = {}")
    case False
    then have m: "Max (reg_ids r) \<in> reg_ids r"
      using fin by simp
    then have rng: "0 \<le> Max (reg_ids r)" "Max (reg_ids r) < 2 ^ 31"
      using assms(2) unfolding reg_range_def by blast+
    show ?thesis
    proof (cases "Max (reg_ids r) < 2 ^ 31 - 1")
      case True
      then have "next_index r = Max (reg_ids r) + 1"
        using False rng by (simp add: next_index_def s32_suc_small)
      then show ?thesis
        using fin Max_ge [OF fin, of "next_index r"] by force
    next
      case top: False
      then have "Max (reg_ids r) = 2 ^ 31 - 1"
        using rng by simp
      then have "next_index r = - (2 ^ 31)"
        using False by (simp add: next_index_def s32_def)
      then show ?thesis
        using assms(2) unfolding reg_range_def by force
    qed
  qed simp
qed

lemma register_remove_restores:
  assumes "reg_inv r" "reg_range r" "\<not> reg_locked r" "reg_map r (tln_name t) = None"
  shows "qot_timeline_remove t (r\<lparr>reg_map := (reg_map r)(tln_name t \<mapsto> t\<lparr>tln_index := next_index r\<rparr>),
             reg_ids := insert (next_index r) (reg_ids r)\<rparr>) = Some (QOT_RETURN_TYPE_OK, r)"
  using assms(3,4) next_index_unused [OF assms(1,2)]
  by (cases r) (simp add: remove_eq fun_upd_idem)

text \<open>The constructor: either the object is complete and registered, or the registry
  is as before.\<close>

definition registered :: "registry \<Rightarrow> qot_timeline \<Rightarrow> nat \<Rightarrow> registry" where
  "registered r t a = r\<lparr>reg_map := (reg_map r)(tln_name t \<mapsto> t),
     reg_ids := insert (tln_index t) (reg_ids r), reg_class := (reg_class r)(tln_index t \<mapsto> a)\<rparr>"

definition constructed ::
  "registry \<Rightarrow> qot_timeline \<Rightarrow> nat \<Rightarrow> timeline_core \<Rightarrow> qot_timeline \<Rightarrow> registry \<Rightarrow> bool" where
  "constructed r t a c info r' \<longleftrightarrow>
     reg_map r (tln_name t) = None \<and> core_inv c \<and> \<not> c_binding_locked c \<and> c_binding_map c = Map.empty
     \<and> c_info c = info \<and> info = t\<lparr>tln_index := next_index r\<rparr> \<and> 0 \<le> tln_index info
     \<and> c_peers c = [] \<and> r' = registered r info a"

lemma TimelineCore_cases:
  assumes "reg_inv r" "reg_range r" "\<not> reg_locked r"
  shows "\<exists>c info r' w'. TimelineCore env a node t r w = Some (c, info, r', w') \<and>
     (if c_status_flag c = 0 then constructed r t a c info r'
      else c_status_flag c \<in> {1, 2, 3} \<and> r' = r \<and>
           (c_status_flag c = 1 \<longleftrightarrow> reg_map r (tln_name t) \<noteq> None) \<and>
           (c_status_flag c = 1 \<longrightarrow> reg_map r (tln_name t) = Some info))"
proof (cases "reg_map r (tln_name t)")
  case (Some t')
  with assms(3) show ?thesis
    by (simp add: TimelineCore_def register_eq Let_def)
next
  case None
  let ?t = "t\<lparr>tln_index := next_index r\<rparr>"
  let ?r = "r\<lparr>reg_map := (reg_map r)(tln_name t \<mapsto> ?t), reg_ids := insert (next_index r) (reg_ids r)\<rparr>"
  have reg: "qot_timeline_register t r = Some (QOT_RETURN_TYPE_OK, ?t, ?r)"
    using None assms(3) by (simp add: register_eq)
  have rem: "qot_timeline_remove ?t ?r = Some (QOT_RETURN_TYPE_OK, r)"
    using register_remove_restores [OF assms None] assms(3) by (simp add: remove_eq)
  have set: "qot_timeline_set_info ?t ?r = Some (QOT_RETURN_TYPE_OK, ?r)"
    using assms(3) by (simp add: set_info_eq)
  have cls: "qot_tl_class_register (next_index r) a ?r = Some (registered r ?t a)"
    using assms(3) by (simp add: class_register_eq registered_def)
  consider (alloc) "tln_type t = QOT_TIMELINE_LOCAL" "\<not> env_alloc_ok env"
    | (neg) "tln_type t = QOT_TIMELINE_LOCAL \<longrightarrow> env_alloc_ok env" "next_index r < 0"
    | (ok) "tln_type t = QOT_TIMELINE_LOCAL \<longrightarrow> env_alloc_ok env" "0 \<le> next_index r"
    by fastforce
  then show ?thesis
  proof cases
    case alloc
    then show ?thesis
      using reg rem None by (simp add: TimelineCore_def Let_def)
  next
    case neg
    then show ?thesis
      using reg rem None by (simp add: TimelineCore_def Let_def split_beta)
  next
    case ok
    then show ?thesis
      using reg set cls None
      by (simp add: TimelineCore_def Let_def split_beta constructed_def core_inv_def)
  qed
qed

section \<open>The invariant of the service\<close>

text \<open>A timeline object the registry points to: complete, with its clock; a binding mutex
  that is held belongs to a timeline with bindings.\<close>

definition core_live :: "timeline_core \<Rightarrow> bool" where
  "core_live c \<longleftrightarrow> c_status_flag c = 0 \<and> c_tl_clock c \<noteq> None \<and> finite (dom (c_binding_map c))
     \<and> (c_binding_locked c \<longrightarrow> c_binding_map c \<noteq> Map.empty)"

definition tl_ok :: "service \<Rightarrow> int \<Rightarrow> nat \<Rightarrow> bool" where
  "tl_ok s i a \<longleftrightarrow> (\<exists>c. svc_heap s a = Some c \<and> core_live c
     \<and> tln_index (c_info c) = i \<and> reg_map (svc_reg s) (tln_name (c_info c)) = Some (c_info c))"

text \<open>Whether a mutex is held is not part of the invariant.\<close>

definition svc_inv :: "service \<Rightarrow> bool" where
  "svc_inv s \<longleftrightarrow> reg_inv (svc_reg s) \<and> reg_range (svc_reg s)
     \<and> dom (reg_class (svc_reg s)) = reg_ids (svc_reg s)
     \<and> (\<forall>a c. svc_heap s a = Some c \<longrightarrow> a < svc_next s)
     \<and> (\<forall>i a. reg_class (svc_reg s) i = Some a \<longrightarrow> tl_ok s i a)"

text \<open>The binding mutex of the timeline object at an address is held.\<close>

definition held :: "nat \<Rightarrow> service \<Rightarrow> bool" where
  "held a s \<longleftrightarrow> (\<exists>c. svc_heap s a = Some c \<and> c_binding_locked c)"

text \<open>What a handler that leaves every mutex as it found it keeps.\<close>

definition kept :: "service \<Rightarrow> service \<Rightarrow> bool" where
  "kept s s' \<longleftrightarrow> svc_inv s' \<and> reg_locked (svc_reg s') = reg_locked (svc_reg s) \<and> (\<forall>a. held a s' = held a s)"

lemma svc_inv_reg: "svc_inv s \<Longrightarrow> reg_inv (svc_reg s)" "svc_inv s \<Longrightarrow> reg_range (svc_reg s)"
  by (simp_all add: svc_inv_def)

lemma svc_inv_heap: "svc_inv s \<Longrightarrow> svc_heap s a = Some c \<Longrightarrow> a < svc_next s"
  by (simp add: svc_inv_def)

lemma core_inv_live: "core_inv c \<Longrightarrow> \<not> c_binding_locked c \<Longrightarrow> core_live c"
  by (auto simp: core_inv_def core_live_def)

lemma get_tl_hit:
  assumes "svc_inv s" "\<not> reg_locked (svc_reg s)" "reg_class (svc_reg s) i = Some a"
  obtains c where "get_tl i s = Some (Some (a, c), s)" "svc_heap s a = Some c" "core_live c"
    "tln_index (c_info c) = i" "reg_map (svc_reg s) (tln_name (c_info c)) = Some (c_info c)"
proof -
  obtain c where c: "svc_heap s a = Some c" "core_live c"
      "tln_index (c_info c) = i" "reg_map (svc_reg s) (tln_name (c_info c)) = Some (c_info c)"
  proof -
    have "tl_ok s i a"
      using assms(1,3) by (simp add: svc_inv_def)
    then show ?thesis
      using that unfolding tl_ok_def by blast
  qed
  moreover have "get_tl i s = Some (Some (a, c), s)"
    using assms(2,3) c(1) by (cases s) (simp add: get_tl_def class_get_eq)
  ultimately show ?thesis
    using that by blast
qed

lemma get_tl_miss:
  assumes "\<not> reg_locked (svc_reg s)" "reg_class (svc_reg s) i = None"
  shows "get_tl i s = Some (None, s\<lparr>svc_reg := (svc_reg s)\<lparr>reg_locked := True\<rparr>\<rparr>)"
  using assms by (simp add: get_tl_def class_get_eq)

lemma svc_inv_world [simp]: "svc_inv (s\<lparr>svc_world := w\<rparr>) = svc_inv s"
  by (simp add: svc_inv_def tl_ok_def)

lemma svc_inv_locked [simp]: "svc_inv (s\<lparr>svc_reg := (svc_reg s)\<lparr>reg_locked := b\<rparr>\<rparr>) = svc_inv s"
  by (simp add: svc_inv_def tl_ok_def reg_range_def)

lemma held_fields [simp]:
  "held a (s\<lparr>svc_world := w\<rparr>) = held a s" "held a (s\<lparr>svc_reg := r\<rparr>) = held a s"
  "held a (s\<lparr>svc_next := n\<rparr>) = held a s"
  by (simp_all add: held_def)

lemma kept_world [simp]: "kept s (s\<lparr>svc_world := w\<rparr>) = svc_inv s" "kept s s = svc_inv s"
  by (simp_all add: kept_def)

lemma held_put_tl: "held b (put_tl a c w s) = (if b = a then c_binding_locked c else held b s)"
  by (simp add: held_def put_tl_def)

lemma svc_inv_put_tl:
  assumes inv: "svc_inv s" and a: "reg_class (svc_reg s) i = Some a"
    and c: "svc_heap s a = Some c" "same_timeline c c'" "core_live c'"
  shows "svc_inv (put_tl a c' w s)"
proof -
  have "tl_ok (put_tl a c' w s) j b" if "reg_class (svc_reg s) j = Some b" for j b
  proof -
    have "tl_ok s j b"
      using inv that by (simp add: svc_inv_def)
    then show ?thesis
      using c by (cases "b = a") (auto simp: tl_ok_def put_tl_def same_timeline_def)
  qed
  moreover have "b < svc_next s" if "svc_heap (put_tl a c' w s) b = Some d" for b d
    using svc_inv_heap [OF inv] c(1) that by (cases "b = a") (simp_all add: put_tl_def)
  ultimately show ?thesis
    using inv by (simp add: svc_inv_def put_tl_def)
qed

lemma kept_put_tl:
  assumes "svc_inv s" "reg_class (svc_reg s) i = Some a"
    and c: "svc_heap s a = Some c" "same_timeline c c'" "core_live c'" "c_binding_locked c' = c_binding_locked c"
  shows "kept s (put_tl a c' w s)"
proof -
  have "reg_locked (svc_reg (put_tl a c' w s)) = reg_locked (svc_reg s)"
    by (simp add: put_tl_def)
  moreover have "held a s = c_binding_locked c"
    using c(1) by (simp add: held_def)
  then have "held b (put_tl a c' w s) = held b s" for b
    using c(4) by (simp add: held_put_tl)
  ultimately show ?thesis
    using svc_inv_put_tl [OF assms(1,2) c(1-3)] by (simp add: kept_def)
qed

text \<open>Destroying a timeline takes its three registrations away.\<close>

lemma TimelineCore_destroy_eq:
  assumes "core_live c" "\<not> reg_locked r" "reg_map r (tln_name (c_info c)) = Some (c_info c)"
  obtains w' where "TimelineCore_destroy env c r w = Some
    (r\<lparr>reg_map := (reg_map r)(tln_name (c_info c) := None),
       reg_ids := reg_ids r - {tln_index (c_info c)},
       reg_class := (reg_class r)(tln_index (c_info c) := None)\<rparr>, w')"
proof -
  have "\<exists>w'. c_stop_peer_sync env c w1 = Some (QOT_RETURN_TYPE_OK, w')" for w1
    using assms(1)
    by (auto simp: core_live_def c_stop_peer_sync_def c_get_desired_qot_def split: option.splits)
  then have stop: "\<exists>w'. (if tln_type (c_info c) = QOT_TIMELINE_LOCAL \<and> c_peers c \<noteq> []
      then map_option snd (c_stop_peer_sync env c w1) else Some w1) = Some w'" for w1
    by (metis (no_types, lifting) map_option_eq_Some)
  let ?w = "emit [Sync_request \<lparr>sm_info = c_info c, sm_demand = env_junk_demand env,
      sm_msgtype = TL_DESTROY, sm_data = [], sm_retval = env_junk_retval env\<rparr>,
      Rest_delete_node (tln_name (c_info c)) (c_node_uuid c), Nats_unsubscribe (tln_name (c_info c))] w"
  obtain w1 where w1: "(if tln_type (c_info c) = QOT_TIMELINE_LOCAL \<and> c_peers c \<noteq> []
      then map_option snd (c_stop_peer_sync env c ?w) else Some ?w) = Some w1"
    using stop by blast
  have st: "c_status_flag c = 0"
    using assms(1) by (simp add: core_live_def)
  show ?thesis
    by (rule that, unfold TimelineCore_destroy_def Let_def)
      (use assms(2,3) st w1 in \<open>simp add: remove_eq class_remove_eq cong: if_weak_cong\<close>)
qed

lemma handle_create_inv:
  assumes inv: "svc_inv s" and free: "\<not> reg_locked (svc_reg s)"
  obtains m' s' where "handle_create env m s = Some (m', s')" "kept s s'"
proof -
  let ?r = "svc_reg s" let ?a = "svc_next s" let ?t = "tm_info m"
  obtain c info r' w' where c: "TimelineCore env ?a (svc_node_uuid s) ?t ?r (svc_world s) = Some (c, info, r', w')"
      "if c_status_flag c = 0 then constructed ?r ?t ?a c info r'
       else c_status_flag c \<in> {1, 2, 3} \<and> r' = ?r \<and>
           (c_status_flag c = 1 \<longleftrightarrow> reg_map ?r (tln_name ?t) \<noteq> None) \<and>
           (c_status_flag c = 1 \<longrightarrow> reg_map ?r (tln_name ?t) = Some info)"
    using TimelineCore_cases [OF svc_inv_reg [OF inv] free] by metis
  have fresh: "svc_heap s ?a = None"
    using svc_inv_heap [OF inv, of ?a] by (cases "svc_heap s ?a") simp_all
  show ?thesis
  proof (cases "c_status_flag c = 0")
    case False
    then have st: "c_status_flag c > 0" "r' = ?r"
      using c(2) by auto
    have "tl_ok s i b \<Longrightarrow> tl_ok (s\<lparr>svc_next := ?a + 1\<rparr>) i b" for i b
      by (auto simp: tl_ok_def)
    moreover have "b < ?a + 1" if "svc_heap s b = Some d" for b d
      using svc_inv_heap [OF inv that] by simp
    ultimately have "svc_inv (s\<lparr>svc_next := ?a + 1\<rparr>)"
      using inv by (simp add: svc_inv_def)
    then have "svc_inv (s\<lparr>svc_next := ?a + 1, svc_world := w'\<rparr>)"
      by (rule svc_inv_world [THEN iffD2])
    then have "kept s (s\<lparr>svc_next := ?a + 1, svc_world := w'\<rparr>)"
      by (simp add: kept_def)
    moreover have "handle_create env m s = Some
       (m\<lparr>tm_info := info, tm_retval := if c_status_flag c > 1 then QOT_RETURN_TYPE_ERR else QOT_RETURN_TYPE_OK\<rparr>,
        s\<lparr>svc_next := ?a + 1, svc_world := w'\<rparr>)"
      using st c(1) by (cases s) (simp add: handle_create_def TimelineCore_destroy_def Let_def)
    ultimately show ?thesis
      using that by blast
  next
    case True
    then have con: "constructed ?r ?t ?a c info r'"
      using c(2) by simp
    define c' where "c' = (if tln_type info = QOT_TIMELINE_LOCAL \<and> svc_peer_flag s
      then snd (update_local_peers (svc_peer_clients s) c) else c)"
    let ?s = "s\<lparr>svc_reg := r', svc_world := w', svc_next := ?a + 1, svc_heap := (svc_heap s)(?a \<mapsto> c')\<rparr>"
    have c': "core_live c'" "\<not> c_binding_locked c'" "c_info c' = info"
      using con by (auto simp: constructed_def c'_def update_local_peers_def core_inv_def core_live_def)
    have info: "tln_name info = tln_name ?t" "tln_index info = next_index ?r" "0 \<le> tln_index info"
      and new: "reg_map ?r (tln_name ?t) = None" and r': "r' = registered ?r info ?a"
      using con by (auto simp: constructed_def)
    note unused = next_index_unused [OF svc_inv_reg(1,2) [OF inv]]
    have "reg_inv (?r\<lparr>reg_map := (reg_map ?r)(tln_name ?t \<mapsto> info), reg_ids := insert (next_index ?r) (reg_ids ?r)\<rparr>)"
      by (rule reg_inv_insert) (use svc_inv_reg [OF inv] new unused info in simp_all)
    then have "reg_inv r'"
      by (simp add: r' registered_def info)
    moreover have "reg_range r'" "dom (reg_class r') = reg_ids r'"
      using inv info unused by (auto simp: r' registered_def svc_inv_def reg_range_def)
    moreover have "tl_ok ?s i b" if "reg_class r' i = Some b" for i b
    proof (cases "i = tln_index info")
      case True
      then have "b = ?a"
        using that by (simp add: r' registered_def)
      then show ?thesis
        using True c' info by (simp add: tl_ok_def r' registered_def)
    next
      case False
      then have "tl_ok s i b"
        using that inv by (simp add: r' registered_def svc_inv_def)
      then obtain d where d: "svc_heap s b = Some d" "core_live d" "tln_index (c_info d) = i"
          "reg_map ?r (tln_name (c_info d)) = Some (c_info d)"
        unfolding tl_ok_def by blast
      then have "b \<noteq> ?a" "tln_name (c_info d) \<noteq> tln_name ?t"
        using new fresh by auto
      with d show ?thesis
        by (simp add: tl_ok_def r' registered_def info)
    qed
    moreover have "b < svc_next ?s" if "svc_heap ?s b = Some d" for b d
      using that svc_inv_heap [OF inv, of b d] by (cases "b = ?a") simp_all
    ultimately have "svc_inv ?s"
      by (simp add: svc_inv_def)
    moreover have "held b ?s = held b s" for b
      using fresh c'(2) by (simp add: held_def)
    moreover have "reg_locked r' = reg_locked ?r"
      by (simp add: r' registered_def)
    ultimately have "kept s ?s"
      by (simp add: kept_def)
    moreover have "handle_create env m s = Some (m\<lparr>tm_info := info, tm_retval := QOT_RETURN_TYPE_OK\<rparr>, ?s)"
      using c(1) True by (simp add: handle_create_def Let_def c'_def)
    ultimately show ?thesis
      using that by blast
  qed
qed

lemma svc_inv_destroyed:
  assumes inv: "svc_inv s" and a: "reg_class (svc_reg s) i = Some a"
    and c: "svc_heap s a = Some c" "tln_index (c_info c) = i"
      "reg_map (svc_reg s) (tln_name (c_info c)) = Some (c_info c)"
  shows "svc_inv (s\<lparr>svc_reg := (svc_reg s)\<lparr>reg_map := (reg_map (svc_reg s))(tln_name (c_info c) := None),
       reg_ids := reg_ids (svc_reg s) - {tln_index (c_info c)},
       reg_class := (reg_class (svc_reg s))(tln_index (c_info c) := None)\<rparr>,
     svc_world := w, svc_heap := (svc_heap s)(a := None)\<rparr>)" (is "svc_inv ?s")
proof -
  let ?r = "svc_reg s"
  have "reg_inv (?r\<lparr>reg_map := (reg_map ?r)(tln_name (c_info c) := None), reg_ids := reg_ids ?r - {tln_index (c_info c)}\<rparr>)"
    using svc_inv_reg(1) [OF inv] c(3) by (rule reg_inv_delete)
  moreover have "svc_reg ?s = ?r\<lparr>reg_map := (reg_map ?r)(tln_name (c_info c) := None),
      reg_ids := reg_ids ?r - {tln_index (c_info c)}\<rparr>\<lparr>reg_class := (reg_class ?r)(tln_index (c_info c) := None)\<rparr>"
    by simp
  ultimately have "reg_inv (svc_reg ?s)"
    by (simp only: reg_inv_class)
  moreover have "reg_range (svc_reg ?s)"
    "dom (reg_class (svc_reg ?s)) = reg_ids (svc_reg ?s)"
    using inv by (auto simp: svc_inv_def reg_range_def)
  moreover have "\<forall>b d. svc_heap ?s b = Some d \<longrightarrow> b < svc_next ?s"
    using inv by (simp add: svc_inv_def)
  moreover have "tl_ok ?s j b" if "reg_class (svc_reg ?s) j = Some b" for j b
  proof -
    have j: "j \<noteq> i" "reg_class ?r j = Some b"
      using that c(2) by (simp_all split: if_splits)
    then have ok: "tl_ok s j b"
      using inv by (simp add: svc_inv_def)
    then obtain d where d: "svc_heap s b = Some d" "core_live d"
        "tln_index (c_info d) = j" "reg_map ?r (tln_name (c_info d)) = Some (c_info d)"
      unfolding tl_ok_def by blast
    have "b \<noteq> a"
      using c(1,2) j(1) d(1,3) by (metis option.inject)
    moreover have "tln_name (c_info d) \<noteq> tln_name (c_info c)"
      using c(2,3) j(1) d(3,4) by (metis option.inject)
    ultimately show ?thesis
      using d by (simp add: tl_ok_def)
  qed
  ultimately show ?thesis
    unfolding svc_inv_def by blast
qed

lemma core_count_zero: "core_live c \<Longrightarrow> get_binding_count c = 0 \<longleftrightarrow> c_binding_map c = Map.empty"
  by (simp add: get_binding_count_def core_live_def)

text \<open>The effect of a request to destroy: nothing for a timeline with bindings.\<close>

lemma handle_destroy_inv:
  assumes inv: "svc_inv s" and free: "\<not> reg_locked (svc_reg s)"
    and a: "reg_class (svc_reg s) (tln_index (tm_info m)) = Some a"
  obtains m' s' where "handle_destroy env m s = Some (m', s')" "kept s s'"
proof -
  obtain c where c: "get_tl (tln_index (tm_info m)) s = Some (Some (a, c), s)" "svc_heap s a = Some c" "core_live c"
    "tln_index (c_info c) = tln_index (tm_info m)"
    "reg_map (svc_reg s) (tln_name (c_info c)) = Some (c_info c)"
    using get_tl_hit [OF inv free a] by blast
  show ?thesis
  proof (cases "get_binding_count c = 0")
    case True
    let ?r = "(svc_reg s)\<lparr>reg_map := (reg_map (svc_reg s))(tln_name (c_info c) := None),
       reg_ids := reg_ids (svc_reg s) - {tln_index (c_info c)},
       reg_class := (reg_class (svc_reg s))(tln_index (c_info c) := None)\<rparr>"
    obtain w' where d: "TimelineCore_destroy env c (svc_reg s) (svc_world s) = Some (?r, w')"
      using TimelineCore_destroy_eq [OF c(3) free c(5)] by blast
    let ?s = "s\<lparr>svc_reg := ?r, svc_world := w', svc_heap := (svc_heap s)(a := None)\<rparr>"
    have "\<not> c_binding_locked c"
      using True c(3) core_count_zero [OF c(3)] by (auto simp: core_live_def)
    then have "held b ?s = held b s" for b
      using c(2) by (simp add: held_def)
    then have "kept s ?s"
      using svc_inv_destroyed [OF inv a c(2,4,5), of w'] by (simp add: kept_def)
    moreover have "handle_destroy env m s = Some (m\<lparr>tm_retval := QOT_RETURN_TYPE_OK\<rparr>, ?s)"
      using True c(1) d by (simp add: handle_destroy_def)
    ultimately show ?thesis
      using that by blast
  next
    case False
    then show ?thesis
      using that [of _ s] c(1) inv by (simp add: handle_destroy_def)
  qed
qed

lemma handle_bind_inv:
  assumes inv: "svc_inv s" and free: "\<not> reg_locked (svc_reg s)"
    and a: "reg_class (svc_reg s) (tln_index (tm_info m)) = Some a" "svc_heap s a = Some c"
  shows "if c_binding_locked c \<or> bind_throws env (tm_binding m) c then handle_bind env m s = None
     else \<exists>m' s'. handle_bind env m s = Some (m', s') \<and> kept s s'"
proof -
  have c: "get_tl (tln_index (tm_info m)) s = Some (Some (a, c), s)" "core_live c"
    using get_tl_hit [OF inv free a(1)] a(2) by (metis option.inject)+
  let ?b = "tm_binding m"
  consider (locked) "c_binding_locked c"
    | (throws) "\<not> c_binding_locked c" "bind_throws env ?b c"
    | (refused) "\<not> c_binding_locked c" "c_binding_map c (bd_id ?b) \<noteq> None" "c_binding_ids c \<noteq> {}"
    | (new) "\<not> c_binding_locked c" "\<not> bind_throws env ?b c" "c_binding_map c (bd_id ?b) = None \<or> c_binding_ids c = {}"
    by metis
  then show ?thesis
  proof cases
    case locked
    then show ?thesis
      using c(1) by (simp add: handle_bind_def binding_locked_blocks)
  next
    case throws
    then show ?thesis
      using c(1) by (simp add: handle_bind_def create_binding_throws)
  next
    case refused
    then have "\<not> bind_throws env ?b c"
      by (simp add: bind_throws_def)
    moreover have "kept s (put_tl a c (svc_world s) s)"
      by (rule kept_put_tl [OF inv a]) (use c(2) in \<open>simp_all add: same_timeline_def\<close>)
    ultimately show ?thesis
      using c(1) refused by (simp add: handle_bind_def create_binding_refused)
  next
    case new
    have live: "c_tl_clock c \<noteq> None"
      using c(2) by (simp add: core_live_def)
    obtain b' c' w' where n: "create_binding env ?b c (svc_world s) = Some (QOT_RETURN_TYPE_OK, b', c', w')"
        "\<not> c_binding_locked c'" "same_timeline c c'"
        "c_binding_map c' = (c_binding_map c)(next_binding_id (c_binding_ids c) \<mapsto> b')"
      using create_binding_new [OF live new(1,3,2), of "svc_world s"] by blast
    have "core_live c'"
      using c(2) n(2-4) by (simp add: core_live_def same_timeline_def)
    then have "kept s (put_tl a c' w' s)"
      using kept_put_tl [OF inv a n(3)] n(2) new(1) by blast
    then show ?thesis
      using c(1) n(1) new(1,2) by (simp add: handle_bind_def)
  qed
qed

lemma handle_unbind_inv:
  assumes inv: "svc_inv s" and free: "\<not> reg_locked (svc_reg s)"
    and a: "reg_class (svc_reg s) (tln_index (tm_info m)) = Some a" "svc_heap s a = Some c"
  shows "if c_binding_locked c then handle_unbind env m s = None
     else \<exists>m' s'. handle_unbind env m s = Some (m', s') \<and> kept s s'"
proof -
  have c: "get_tl (tln_index (tm_info m)) s = Some (Some (a, c), s)" "core_live c"
    using get_tl_hit [OF inv free a(1)] a(2) by (metis option.inject)+
  show ?thesis
  proof (cases "c_binding_locked c")
    case True
    then show ?thesis
      using c(1) by (simp add: handle_unbind_def binding_locked_blocks)
  next
    case False
    have live: "c_tl_clock c \<noteq> None"
      using c(2) by (simp add: core_live_def)
    obtain rv c' w' where n: "delete_binding env (tm_binding m) c (svc_world s) = Some (rv, c', w')"
        "\<not> c_binding_locked c'" "same_timeline c c'" "finite (dom (c_binding_map c'))"
      using delete_binding_live [OF live False, of "tm_binding m" env "svc_world s"] c(2) False
      by (auto simp: same_timeline_def core_live_def split: if_splits)
    have "core_live c'"
      using c(2) n(2-4) by (simp add: core_live_def same_timeline_def)
    then have "kept s (put_tl a c' w' s)"
      using kept_put_tl [OF inv a n(3)] n(2) False by blast
    then show ?thesis
      using c(1) n(1) False by (simp add: handle_unbind_def)
  qed
qed

lemma handle_update_inv:
  assumes inv: "svc_inv s" and free: "\<not> reg_locked (svc_reg s)"
    and a: "reg_class (svc_reg s) (tln_index (tm_info m)) = Some a" "svc_heap s a = Some c"
  shows "if c_binding_locked c then handle_update env m s = None
     else \<exists>m' s'. handle_update env m s = Some (m', s') \<and> svc_inv s' \<and>
       reg_locked (svc_reg s') = reg_locked (svc_reg s) \<and>
       (\<forall>b. held b s' \<longleftrightarrow> held b s \<or> b = a \<and> c_binding_map c (bd_id (tm_binding m)) \<noteq> None)"
proof -
  let ?b = "tm_binding m"
  have c: "get_tl (tln_index (tm_info m)) s = Some (Some (a, c), s)" "core_live c"
    using get_tl_hit [OF inv free a(1)] a(2) by (metis option.inject)+
  have live: "c_tl_clock c \<noteq> None"
    using c(2) by (simp add: core_live_def)
  consider (locked) "c_binding_locked c"
    | (known) "\<not> c_binding_locked c" "c_binding_map c (bd_id ?b) \<noteq> None"
    | (new) "\<not> c_binding_locked c" "c_binding_map c (bd_id ?b) = None"
    by blast
  then show ?thesis
  proof cases
    case locked
    then show ?thesis
      using c(1) by (simp add: handle_update_def binding_locked_blocks)
  next
    case known
    let ?c = "c\<lparr>c_binding_locked := True\<rparr>"
    have "update_binding env ?b c (svc_world s) = Some (QOT_RETURN_TYPE_ERR, ?c, svc_world s)"
      using known by (simp add: update_binding_def binding_lock_def)
    moreover have "svc_inv (put_tl a ?c (svc_world s) s)"
      by (rule svc_inv_put_tl [OF inv a]) (use c(2) known in \<open>auto simp: same_timeline_def core_live_def\<close>)
    moreover have "held b (put_tl a ?c (svc_world s) s) \<longleftrightarrow> held b s \<or> b = a" for b
      by (simp add: held_put_tl)
    ultimately show ?thesis
      using c(1) known by (simp add: handle_update_def put_tl_def)
  next
    case new
    obtain c' w' where n: "update_binding env ?b c (svc_world s) = Some (QOT_RETURN_TYPE_OK, c', w')"
        "\<not> c_binding_locked c'" "same_timeline c c'" "c_binding_map c' = (c_binding_map c)(bd_id ?b \<mapsto> ?b)"
      using update_binding_new [OF live new, of env "svc_world s"] by blast
    have "core_live c'"
      using c(2) n(2-4) by (simp add: core_live_def same_timeline_def)
    then have "kept s (put_tl a c' w' s)"
      using kept_put_tl [OF inv a n(3)] n(2) new(1) by blast
    then show ?thesis
      using c(1) n(1) new by (simp add: handle_update_def kept_def)
  qed
qed

text \<open>The server a description parses to; \<open>stoi\<close> may throw.\<close>

definition server_of_text :: "core_env \<Rightarrow> string \<Rightarrow> qot_server option" where
  "server_of_text env txt = parse_server 0 (words_of [] txt) ((env_junk_server env)\<lparr>sv_hostname := [], sv_type := []\<rparr>)"

text \<open>The handlers that only read the timeline.\<close>

lemma handle_read_inv:
  assumes inv: "svc_inv s" and free: "\<not> reg_locked (svc_reg s)"
    and a: "reg_class (svc_reg s) (tln_index (tm_info m)) = Some a" "svc_heap s a = Some c"
  shows "\<exists>m' s'. handle_quality env m s = Some (m', s') \<and> kept s s'"
    and "\<exists>m' s'. handle_info env m s = Some (m', s') \<and> kept s s'"
    and "\<exists>m' s'. handle_shm_clock env sd m s = Some (m', s') \<and> kept s s'"
    and "\<exists>m' s'. handle_shm_clksync env sd m s = Some (m', s') \<and> kept s s'"
    and "\<exists>m' s'. handle_ov_shm_clock env sd m s = Some (m', s') \<and> kept s s'"
    and "\<exists>m' s'. handle_ov_shm_clksync env sd m s = Some (m', s') \<and> kept s s'"
    and "\<exists>m' s'. handle_latency env m s = Some (m', s') \<and> kept s s'"
    and "if env_servers env (tln_name (c_info c)) = None then handle_get_server env m s = None
      else \<exists>m' s'. handle_get_server env m s = Some (m', s') \<and> kept s s'"
    and "if server_of_text env (tm_aux_data m) = None then handle_set_server env m s = None
      else \<exists>m' s'. handle_set_server env m s = Some (m', s') \<and> kept s s'"
proof -
  have c: "get_tl (tln_index (tm_info m)) s = Some (Some (a, c), s)" "core_live c"
    using get_tl_hit [OF inv free a(1)] a(2) by (metis option.inject)+
  have "\<exists>d. c_get_desired_qot c (svc_world s) = Some d"
    using c(2) by (auto simp: core_live_def c_get_desired_qot_def split: option.splits)
  then show "\<exists>m' s'. handle_quality env m s = Some (m', s') \<and> kept s s'"
    using c(1) inv by (auto simp: handle_quality_def)
  show "if env_servers env (tln_name (c_info c)) = None then handle_get_server env m s = None
      else \<exists>m' s'. handle_get_server env m s = Some (m', s') \<and> kept s s'"
    using c(1) inv by (auto simp: handle_get_server_def c_get_server_def Let_def split: list.splits)
  show "if server_of_text env (tm_aux_data m) = None then handle_set_server env m s = None
      else \<exists>m' s'. handle_set_server env m s = Some (m', s') \<and> kept s s'"
    using c(1) inv by (auto simp: handle_set_server_def c_set_server_def server_of_text_def Let_def)
  show "\<exists>m' s'. handle_info env m s = Some (m', s') \<and> kept s s'"
    "\<exists>m' s'. handle_shm_clock env sd m s = Some (m', s') \<and> kept s s'"
    "\<exists>m' s'. handle_shm_clksync env sd m s = Some (m', s') \<and> kept s s'"
    "\<exists>m' s'. handle_ov_shm_clock env sd m s = Some (m', s') \<and> kept s s'"
    "\<exists>m' s'. handle_ov_shm_clksync env sd m s = Some (m', s') \<and> kept s s'"
    "\<exists>m' s'. handle_latency env m s = Some (m', s') \<and> kept s s'"
    using c(1) inv
    by (simp_all add: handle_info_def handle_shm_clock_def handle_shm_clksync_def
        handle_ov_shm_clock_def handle_ov_shm_clksync_def handle_latency_def send_clock_fd_def)
qed

section \<open>When the service blocks\<close>

definition uses_registry :: "tlmsg_type \<Rightarrow> bool" where
  "uses_registry ty \<longleftrightarrow> ty \<noteq> TIMELINE_UNDEFINED \<and> (\<forall>i. ty \<noteq> Tlmsg_unnamed i)"

text \<open>The timeline a request names, when the registry has it.\<close>

definition named_timeline :: "tlmsg \<Rightarrow> service \<Rightarrow> (nat \<times> timeline_core) option" where
  "named_timeline m s = reg_class (svc_reg s) (tln_index (tm_info m)) \<bind>
     (\<lambda>a. map_option (Pair a) (svc_heap s a))"

text \<open>The request from which the service thread never comes back: one that needs the registry
  while its mutex is held, one that needs the bindings of a timeline whose binding mutex
  is held, one that makes a REST query that throws, and a server description
  \<open>stoi\<close> throws at.\<close>

definition stuck :: "core_env \<Rightarrow> tlmsg \<Rightarrow> service \<Rightarrow> bool" where
  "stuck env m s \<longleftrightarrow> uses_registry (tm_msgtype m) \<and>
     (reg_locked (svc_reg s) \<or>
      (case named_timeline m s of
         None \<Rightarrow> False
       | Some (a, c) \<Rightarrow>
           (case tm_msgtype m of
              TIMELINE_BIND \<Rightarrow> c_binding_locked c \<or> bind_throws env (tm_binding m) c
            | TIMELINE_UNBIND \<Rightarrow> c_binding_locked c
            | TIMELINE_UPDATE \<Rightarrow> c_binding_locked c
            | TIMELINE_GET_SERVER \<Rightarrow> env_servers env (tln_name (c_info c)) = None
            | TIMELINE_SET_SERVER \<Rightarrow> server_of_text env (tm_aux_data m) = None
            | _ \<Rightarrow> False)))"

text \<open>The requests that leave a mutex held: one that names a timeline the registry does not
  have, and an update of a binding that exists.\<close>

definition leaves_registry_locked :: "tlmsg \<Rightarrow> service \<Rightarrow> bool" where
  "leaves_registry_locked m s \<longleftrightarrow> uses_registry (tm_msgtype m) \<and> tm_msgtype m \<noteq> TIMELINE_CREATE \<and>
     reg_class (svc_reg s) (tln_index (tm_info m)) = None"

definition leaves_binding_locked :: "tlmsg \<Rightarrow> service \<Rightarrow> nat \<Rightarrow> bool" where
  "leaves_binding_locked m s a \<longleftrightarrow> tm_msgtype m = TIMELINE_UPDATE \<and>
     (\<exists>c. named_timeline m s = Some (a, c) \<and> c_binding_map c (bd_id (tm_binding m)) \<noteq> None)"

lemma svc_inv_reply [simp]: "svc_inv (reply sd m s) = svc_inv s"
  by (simp add: reply_def)

lemma held_reply [simp]: "held a (reply sd m s) = held a s" "svc_reg (reply sd m s) = svc_reg s"
  "svc_heap (reply sd m s) = svc_heap s"
  by (simp_all add: reply_def)

lemma locked_registry_blocks:
  assumes "reg_locked (svc_reg s)" "uses_registry (tm_msgtype m)"
  shows "serve env sd m s = None"
proof -
  have g: "get_tl i s = None" for i
    using assms(1) by (simp add: get_tl_def locked_blocks)
  have c: "TimelineCore env a n t (svc_reg s) w = None" for a n t w
    using assms(1) by (simp add: TimelineCore_def locked_blocks)
  show ?thesis
    using assms(2) g c by (cases "tm_msgtype m")
      (simp_all add: serve_def uses_registry_def handle_create_def handle_destroy_def
        handle_update_def handle_bind_def handle_unbind_def handle_quality_def handle_info_def
        handle_shm_clock_def handle_shm_clksync_def handle_ov_shm_clock_def
        handle_ov_shm_clksync_def handle_get_server_def handle_set_server_def handle_latency_def Let_def)
qed

lemma missed_timeline_served:
  assumes "\<not> reg_locked (svc_reg s)" "leaves_registry_locked m s"
  shows "serve env sd m s = Some (m\<lparr>tm_retval := QOT_RETURN_TYPE_ERR\<rparr>,
     reply sd (m\<lparr>tm_retval := QOT_RETURN_TYPE_ERR\<rparr>) (s\<lparr>svc_reg := (svc_reg s)\<lparr>reg_locked := True\<rparr>\<rparr>))"
proof -
  have g: "get_tl (tln_index (tm_info m)) s = Some (None, s\<lparr>svc_reg := (svc_reg s)\<lparr>reg_locked := True\<rparr>\<rparr>)"
    using assms by (simp add: get_tl_miss leaves_registry_locked_def)
  show ?thesis
    using assms(2) g by (cases "tm_msgtype m")
      (simp_all add: serve_def leaves_registry_locked_def uses_registry_def handle_destroy_def
        handle_update_def handle_bind_def handle_unbind_def handle_quality_def handle_info_def
        handle_shm_clock_def handle_shm_clksync_def handle_ov_shm_clock_def
        handle_ov_shm_clksync_def handle_get_server_def handle_set_server_def handle_latency_def)
qed

text \<open>What one request does to the mutexes: the outcome of the dispatch, for every message.\<close>

definition mutexes_after :: "tlmsg \<Rightarrow> service \<Rightarrow> service \<Rightarrow> bool" where
  "mutexes_after m s s' \<longleftrightarrow> svc_inv s' \<and>
     (reg_locked (svc_reg s') \<longleftrightarrow> reg_locked (svc_reg s) \<or> leaves_registry_locked m s) \<and>
     (\<forall>a. held a s' \<longleftrightarrow> held a s \<or> leaves_binding_locked m s a)"

lemma kept_mutexes:
  "kept s s' \<Longrightarrow> tm_msgtype m \<noteq> TIMELINE_UPDATE \<Longrightarrow> \<not> leaves_registry_locked m s \<Longrightarrow> mutexes_after m s s'"
  by (simp add: kept_def mutexes_after_def leaves_binding_locked_def)

lemma dispatch_progress:
  assumes inv: "svc_inv s" and free: "\<not> reg_locked (svc_reg s)" and known: "\<not> leaves_registry_locked m s"
    and m1: "m1 = m\<lparr>tm_retval := rv\<rparr>"
  shows "if stuck env m s then dispatch env sd (tm_msgtype m) m1 s = None
     else \<exists>m' s'. dispatch env sd (tm_msgtype m) m1 s = Some (m', s') \<and> mutexes_after m s s'"
proof -
  have same: "tm_info m1 = tm_info m" "tm_binding m1 = tm_binding m" "tm_aux_data m1 = tm_aux_data m"
    by (simp_all add: m1)
  consider (plain) "\<not> uses_registry (tm_msgtype m)" | (create) "tm_msgtype m = TIMELINE_CREATE"
    | (hit) a where "uses_registry (tm_msgtype m)" "tm_msgtype m \<noteq> TIMELINE_CREATE"
        "reg_class (svc_reg s) (tln_index (tm_info m)) = Some a"
    using known by (cases "reg_class (svc_reg s) (tln_index (tm_info m))") (auto simp: leaves_registry_locked_def)
  then show ?thesis
  proof cases
    case plain
    then have "\<not> stuck env m s" "kept s s" "tm_msgtype m \<noteq> TIMELINE_UPDATE"
      using inv by (auto simp: stuck_def uses_registry_def)
    with plain show ?thesis
      using kept_mutexes [OF _ _ known] by (cases "tm_msgtype m") (auto simp: uses_registry_def)
  next
    case create
    then have "\<not> stuck env m s"
      using free by (simp add: stuck_def split: option.split)
    moreover have "\<exists>m' s'. handle_create env m1 s = Some (m', s') \<and> kept s s'"
      using handle_create_inv [OF inv free, of env m1] by metis
    ultimately show ?thesis
      using create kept_mutexes [OF _ _ known] by auto
  next
    case hit
    obtain c where c: "svc_heap s a = Some c"
      using get_tl_hit [OF inv free hit(3)] by blast
    have a: "reg_class (svc_reg s) (tln_index (tm_info m1)) = Some a"
      using hit(3) same by simp
    have tl: "named_timeline m s = Some (a, c)"
      using hit(3) c by (simp add: named_timeline_def)
    note hs = inv free a c
    note rd = handle_read_inv [OF hs]
    have ok: "\<exists>m' s'. r = Some (m', s') \<and> mutexes_after m s s'"
      if "\<exists>m' s'. r = Some (m', s') \<and> kept s s'" "tm_msgtype m \<noteq> TIMELINE_UPDATE" for r :: "(tlmsg \<times> service) option"
      using that kept_mutexes [OF _ _ known] by blast
    show ?thesis
    proof (cases "tm_msgtype m")
      case TIMELINE_DESTROY
      have "\<exists>m' s'. handle_destroy env m1 s = Some (m', s') \<and> kept s s'"
        using handle_destroy_inv [OF hs(1-3), of env] by metis
      from ok [OF this] TIMELINE_DESTROY free tl show ?thesis
        by (simp add: stuck_def)
    next
      case TIMELINE_UPDATE
      have "stuck env m s \<longleftrightarrow> c_binding_locked c"
        using TIMELINE_UPDATE free tl by (simp add: stuck_def uses_registry_def)
      then show ?thesis
        using handle_update_inv [OF hs, of env] TIMELINE_UPDATE known free tl same
        by (auto simp: mutexes_after_def leaves_binding_locked_def split: if_splits)
    next
      case TIMELINE_BIND
      have "stuck env m s \<longleftrightarrow> c_binding_locked c \<or> bind_throws env (tm_binding m) c"
        using TIMELINE_BIND free tl by (simp add: stuck_def uses_registry_def)
      then show ?thesis
        using handle_bind_inv [OF hs, of env] TIMELINE_BIND ok same by (simp split: if_splits)
    next
      case TIMELINE_UNBIND
      have "stuck env m s \<longleftrightarrow> c_binding_locked c"
        using TIMELINE_UNBIND free tl by (simp add: stuck_def uses_registry_def)
      then show ?thesis
        using handle_unbind_inv [OF hs, of env] TIMELINE_UNBIND ok by (simp split: if_splits)
    next
      case TIMELINE_GET_SERVER
      have "stuck env m s \<longleftrightarrow> env_servers env (tln_name (c_info c)) = None"
        using TIMELINE_GET_SERVER free tl by (simp add: stuck_def uses_registry_def)
      then show ?thesis
        using rd(8) [of env] TIMELINE_GET_SERVER ok by (simp split: if_splits)
    next
      case TIMELINE_SET_SERVER
      have "stuck env m s \<longleftrightarrow> server_of_text env (tm_aux_data m) = None"
        using TIMELINE_SET_SERVER free tl by (simp add: stuck_def uses_registry_def)
      then show ?thesis
        using rd(9) [of env] TIMELINE_SET_SERVER ok same by (simp split: if_splits)
    qed (use hit(1,2) ok rd(1-7) free tl in \<open>simp_all add: stuck_def uses_registry_def\<close>)
  qed
qed

lemma serve_progress:
  assumes inv: "svc_inv s"
  shows "if stuck env m s then serve env sd m s = None
     else \<exists>m' s'. serve env sd m s = Some (m', s') \<and> mutexes_after m s s'"
proof -
  consider (locked) "reg_locked (svc_reg s)" "uses_registry (tm_msgtype m)"
    | (plain) "reg_locked (svc_reg s)" "\<not> uses_registry (tm_msgtype m)"
    | (miss) "\<not> reg_locked (svc_reg s)" "leaves_registry_locked m s"
    | (known) "\<not> reg_locked (svc_reg s)" "\<not> leaves_registry_locked m s"
    by blast
  then show ?thesis
  proof cases
    case locked
    then show ?thesis
      using locked_registry_blocks [OF locked] by (simp add: stuck_def)
  next
    case plain
    then have "\<not> leaves_registry_locked m s" "\<not> leaves_binding_locked m s a" "\<not> stuck env m s" for a
      by (auto simp: leaves_registry_locked_def leaves_binding_locked_def stuck_def uses_registry_def)
    with plain inv show ?thesis
      by (cases "tm_msgtype m") (simp_all add: serve_def uses_registry_def mutexes_after_def)
  next
    case miss
    then have "\<not> stuck env m s" "\<not> leaves_binding_locked m s a" for a
      by (simp_all add: leaves_registry_locked_def leaves_binding_locked_def stuck_def named_timeline_def)
    with miss inv show ?thesis
      using missed_timeline_served [OF miss, of env sd] by (simp add: mutexes_after_def)
  next
    case known
    then show ?thesis
      using dispatch_progress [OF inv known refl, of env sd QOT_RETURN_TYPE_OK]
      by (fastforce simp: serve_def mutexes_after_def split: if_splits)
  qed
qed

text \<open>The states the service reaches from its start, whatever the requests.\<close>

inductive svc_step :: "service \<Rightarrow> service \<Rightarrow> bool" where
  request: "serve env sd m s = Some (m', s') \<Longrightarrow> svc_step s s'"

inductive_cases svc_stepE: "svc_step s s'"

lemma serve_inv: "svc_inv s \<Longrightarrow> serve env sd m s = Some (m', s') \<Longrightarrow> mutexes_after m s s'"
  using serve_progress [of s env m sd] by (auto split: if_splits)

lemma svc_step_inv: "svc_step s s' \<Longrightarrow> svc_inv s \<Longrightarrow> svc_inv s'"
  by (erule svc_stepE) (auto dest: serve_inv simp: mutexes_after_def)

lemma svc_steps_inv: "svc_step\<^sup>*\<^sup>* s s' \<Longrightarrow> svc_inv s \<Longrightarrow> svc_inv s'"
  by (induction rule: rtranclp_induct) (auto intro: svc_step_inv)

lemma reg_init_range: "reg_range TimelineRegistry"
  by (simp add: reg_range_def TimelineRegistry_def)

lemma startup_inv:
  assumes "startup genv lenv junk b0 ix node pf peers = Some s"
  shows "svc_inv s" "\<not> reg_locked (svc_reg s)" "\<not> held a s"
proof -
  let ?t = "\<lparr>tln_name = ''gl_global'', tln_index = ix, tln_type = QOT_TIMELINE_GLOBAL\<rparr>"
  let ?w = "\<lparr>w_local = fst (TimelineClock (env_shm lenv)
        \<lparr>tln_name = ''local'', tln_index = ix, tln_type = QOT_TIMELINE_LOCAL\<rparr> True),
      w_global = fst (TimelineClock (env_shm genv) ?t True),
      w_trace = map Posix (snd (TimelineClock (env_shm genv) ?t True) @ snd (TimelineClock (env_shm lenv)
        \<lparr>tln_name = ''local'', tln_index = ix, tln_type = QOT_TIMELINE_LOCAL\<rparr> True))\<rparr>"
  note init = reg_inv_init(1) reg_init_range reg_inv_init(2)
  obtain c info reg w where c: "TimelineCore genv 0 node ?t TimelineRegistry ?w = Some (c, info, reg, w)"
      "if c_status_flag c = 0 then constructed TimelineRegistry ?t 0 c info reg
       else c_status_flag c \<in> {1, 2, 3}"
    using TimelineCore_cases [OF init, of genv 0 node ?t ?w] by (metis (no_types, lifting))
  from assms have flag: "\<not> c_status_flag c > 0" and s:
    "create_binding genv (service_binding junk b0) c w \<bind> (\<lambda>(rv, b, c, w).
       Some \<lparr>svc_reg = reg, svc_heap = [0 \<mapsto> c], svc_next = 1, svc_world = w,
             svc_node_uuid = node, svc_peer_flag = pf, svc_peer_clients = peers\<rparr>) = Some s"
    using c(1) by (auto simp: startup_def Let_def split_beta split: if_splits)
  then have con: "constructed TimelineRegistry ?t 0 c info reg"
    using c(2) by (auto split: if_splits)
  then have cc: "core_inv c" "core_room c" "\<not> c_binding_locked c" "c_info c = info"
      "c_binding_map c (bd_id (service_binding junk b0)) = None" "tln_type info = QOT_TIMELINE_GLOBAL"
    by (auto simp: constructed_def core_inv_def core_room_def)
  then have "\<not> first_binding_throws genv c"
    by (simp add: first_binding_throws_def)
  then obtain b' c' w' where b: "create_binding genv (service_binding junk b0) c w = Some (QOT_RETURN_TYPE_OK, b', c', w')"
      "\<not> c_binding_locked c'" "same_timeline c c'"
    using create_binding_new [of c "service_binding junk b0" genv w] cc by (auto simp: bind_throws_def core_inv_def)
  have "core_inv c'"
    using create_binding_spec [OF cc(1-3), of "service_binding junk b0" genv w] cc(5) b(1)
      \<open>\<not> first_binding_throws genv c\<close> by auto
  then have c': "core_live c'"
    using b(2) by (rule core_inv_live)
  have seq: "s = \<lparr>svc_reg = reg, svc_heap = [0 \<mapsto> c'], svc_next = 1, svc_world = w',
      svc_node_uuid = node, svc_peer_flag = pf, svc_peer_clients = peers\<rparr>"
    using s b(1) by simp
  have reg: "reg = registered TimelineRegistry info 0" "tln_index info = 0" "tln_name info = ''gl_global''"
    using con by (auto simp: constructed_def next_index_def TimelineRegistry_def)
  have "reg_inv reg"
    using reg by (auto simp: registered_def TimelineRegistry_def reg_inv_def ran_map_upd)
  moreover have "tl_ok s 0 0"
    using c' b(3) cc(4) reg by (simp add: seq tl_ok_def same_timeline_def registered_def)
  ultimately show "svc_inv s"
    using reg by (simp add: svc_inv_def seq registered_def TimelineRegistry_def reg_range_def)
  show "\<not> reg_locked (svc_reg s)" "\<not> held a s"
    using reg b(2) by (simp_all add: seq registered_def TimelineRegistry_def held_def)
qed


section \<open>What wrong requests do\<close>

text \<open>C26: A request that names a timeline index the service does not know is answered with an
  error, but the registry mutex stays locked and the thread blocks for ever on the next
  request that needs the registry.\<close>

lemma unknown_timeline_stops_service:
  assumes "\<not> reg_locked (svc_reg s)" "reg_class (svc_reg s) (tln_index (tm_info m)) = None"
    and "uses_registry (tm_msgtype m)" "tm_msgtype m \<noteq> TIMELINE_CREATE"
  shows "\<exists>m' s'. serve env sd m s = Some (m', s') \<and> tm_retval m' = QOT_RETURN_TYPE_ERR \<and>
     (\<forall>env2 sd2 m2. uses_registry (tm_msgtype m2) \<longrightarrow> serve env2 sd2 m2 s' = None)"
proof -
  have "leaves_registry_locked m s"
    using assms(2-4) by (simp add: leaves_registry_locked_def)
  from missed_timeline_served [OF assms(1) this, of env sd] show ?thesis
    using locked_registry_blocks by auto
qed

text \<open>C27: A request to update an existing binding is answered with success, changes no binding,
  and leaves the binding mutex of the timeline locked: the next request to bind, unbind or
  update on that timeline blocks the service for ever.\<close>

lemma update_of_binding_blocks_timeline:
  assumes "svc_inv s" "\<not> reg_locked (svc_reg s)" "tm_msgtype m = TIMELINE_UPDATE"
    and "reg_class (svc_reg s) (tln_index (tm_info m)) = Some a" "svc_heap s a = Some c"
    and "\<not> c_binding_locked c" "c_binding_map c (bd_id (tm_binding m)) \<noteq> None"
  shows "\<exists>m' s' c'. serve env sd m s = Some (m', s') \<and> tm_retval m' = QOT_RETURN_TYPE_OK \<and>
     svc_heap s' a = Some c' \<and> c_binding_map c' = c_binding_map c \<and>
     (\<forall>env2 sd2 m2. tln_index (tm_info m2) = tln_index (tm_info m) \<and>
        tm_msgtype m2 \<in> {TIMELINE_BIND, TIMELINE_UNBIND, TIMELINE_UPDATE} \<longrightarrow>
        serve env2 sd2 m2 s' = None)"
proof -
  let ?c = "c\<lparr>c_binding_locked := True\<rparr>" let ?m = "m\<lparr>tm_retval := QOT_RETURN_TYPE_OK\<rparr>"
  let ?s = "put_tl a ?c (svc_world s) s"
  have g: "get_tl (tln_index (tm_info m)) s = Some (Some (a, c), s)"
    using get_tl_hit [OF assms(1,2,4)] assms(5) by (metis option.inject)
  have u: "update_binding env (tm_binding m) c (svc_world s) = Some (QOT_RETURN_TYPE_ERR, ?c, svc_world s)"
    using assms(6,7) by (simp add: update_binding_def binding_lock_def)
  have sv: "serve env sd m s = Some (?m, reply sd ?m ?s)"
    using assms(3) g u by (simp add: serve_def handle_update_def)
  have "get_tl (tln_index (tm_info m)) (reply sd ?m ?s) = Some (Some (a, ?c), reply sd ?m ?s)"
    using assms(2,4) by (cases s) (simp add: get_tl_def class_get_eq reply_def put_tl_def)
  then have "serve env2 sd2 m2 (reply sd ?m ?s) = None"
    if "tln_index (tm_info m2) = tln_index (tm_info m)"
      "tm_msgtype m2 \<in> {TIMELINE_BIND, TIMELINE_UNBIND, TIMELINE_UPDATE}" for env2 sd2 m2
    using that by (auto simp: serve_def handle_update_def handle_bind_def handle_unbind_def
        binding_locked_blocks)
  then show ?thesis
    using sv by (intro exI [of _ ?m] exI [of _ "reply sd ?m ?s"] exI [of _ ?c])
      (simp add: put_tl_def)
qed

text \<open>C14: A request to destroy a timeline that still has bindings leaves the registry and the
  timeline objects as they are, and one for a timeline without bindings removes it from
  the registry, from the table of objects and from memory. Both are answered with success.\<close>

lemma destroy_keeps_bound_timeline:
  assumes "svc_inv s" "\<not> reg_locked (svc_reg s)" "tm_msgtype m = TIMELINE_DESTROY"
    and "reg_class (svc_reg s) (tln_index (tm_info m)) = Some a" "svc_heap s a = Some c"
  shows "\<exists>s'. serve env sd m s = Some (m\<lparr>tm_retval := QOT_RETURN_TYPE_OK\<rparr>, s') \<and>
     (if c_binding_map c = Map.empty
      then reg_map (svc_reg s') (tln_name (c_info c)) = None \<and>
           reg_class (svc_reg s') (tln_index (tm_info m)) = None \<and> svc_heap s' a = None
      else svc_reg s' = svc_reg s \<and> svc_heap s' = svc_heap s)"
proof -
  have g: "get_tl (tln_index (tm_info m)) s = Some (Some (a, c), s)" and c: "core_live c"
    "tln_index (c_info c) = tln_index (tm_info m)"
    "reg_map (svc_reg s) (tln_name (c_info c)) = Some (c_info c)"
    using get_tl_hit [OF assms(1,2,4)] assms(5) by (metis option.inject)+
  show ?thesis
  proof (cases "c_binding_map c = Map.empty")
    case True
    obtain w' where d: "TimelineCore_destroy env c (svc_reg s) (svc_world s) = Some
      ((svc_reg s)\<lparr>reg_map := (reg_map (svc_reg s))(tln_name (c_info c) := None),
         reg_ids := reg_ids (svc_reg s) - {tln_index (c_info c)},
         reg_class := (reg_class (svc_reg s))(tln_index (c_info c) := None)\<rparr>, w')"
      using TimelineCore_destroy_eq [OF c(1) assms(2) c(3)] by blast
    show ?thesis
      using True core_count_zero [OF c(1)] g d c(2) assms(3)
      by (simp add: serve_def handle_destroy_def reply_def fd_request_def)
  next
    case False
    then show ?thesis
      using core_count_zero [OF c(1)] g assms(3)
      by (simp add: serve_def handle_destroy_def reply_def fd_request_def)
  qed
qed

section \<open>Receiving a message\<close>

text \<open>The receive loop of the service returns a message of one read padded with the zeros
  of the buffer; after a full first read the second part is followed by the stale tail of
  the first.\<close>

lemma receive_one_and_two_reads:
  assumes "0 < length m" "length m < MAX_BUF_LENGTH" "length n = MAX_BUF_LENGTH"
  shows "receive (Read_bytes m # rs) = Some (m @ replicate (MAX_BUF_LENGTH - length m) (CHR 0x00), True, False) \<and>
     receive (Read_bytes n # Read_bytes m # rs) = Some (n @ m @ drop (length m) n, True, False)"
  using assms by (auto simp: receive_def Let_def MAX_BUF_LENGTH_def simp del: replicate.simps(2))

section \<open>Server descriptions survive the text form\<close>

lemma show_nat_digits: "c \<in> set (show_nat n) \<Longrightarrow> is_digit c"
proof (induction n rule: show_nat.induct)
  case (1 n)
  have d: "k < 10 \<Longrightarrow> is_digit (char_of (48 + k))" for k :: nat
    by (simp add: is_digit_def)
  show ?case
  proof (cases "n < 10")
    case True
    with 1 d [of n] show ?thesis
      by (simp add: show_nat.simps [of n])
  next
    case False
    with 1 d [of "n mod 10"] show ?thesis
      by (auto simp: show_nat.simps [of n])
  qed
qed

lemma digit_not_special: "is_digit c \<Longrightarrow> \<not> is_space c \<and> c \<noteq> CHR ''-'' \<and> c \<noteq> CHR ''+''"
  by (auto simp: is_digit_def is_space_def)

lemma takeWhile_show_nat: "takeWhile is_digit (show_nat n) = show_nat n"
  by (simp add: takeWhile_eq_all_conv show_nat_digits)

lemma show_nat_cons:
  obtains c cs where "show_nat n = c # cs" "is_digit c" "c \<noteq> CHR ''-''" "c \<noteq> CHR ''+''"
proof (cases "show_nat n")
  case Nil
  then show ?thesis
    using show_nat_digit_hd [of n] by simp
next
  case (Cons c cs)
  then have "is_digit c"
    using show_nat_digits [of c n] by simp
  with Cons that digit_not_special [of c] show ?thesis
    by blast
qed

lemma stoi_digits:
  assumes "int32 (int n)"
  shows "stoi (show_nat n) = Some (int n)"
proof -
  obtain c cs where c: "show_nat n = c # cs" "c \<noteq> CHR ''-''" "c \<noteq> CHR ''+''"
    using show_nat_cons by metis
  have "takeWhile is_digit (c # cs) = c # cs"
    using takeWhile_show_nat [of n] c(1) by simp
  moreover have "digits_val (c # cs) = n"
    using digits_val_show_nat [of n] c(1) by simp
  ultimately show ?thesis
    using assms c by (simp add: stoi_def)
qed

lemma stoi_show_int: "int32 i \<Longrightarrow> stoi (show_int i) = Some i"
proof (cases "i < 0")
  case True
  assume "int32 i"
  moreover have "show_nat (nat (- i)) \<noteq> []"
    using show_nat_digit_hd by blast
  ultimately show ?thesis
    using True by (simp add: stoi_def show_int_def takeWhile_show_nat digits_val_show_nat)
next
  case False
  assume "int32 i"
  with False show ?thesis
    using stoi_digits [of "nat i"] by (simp add: show_int_def)
qed

lemma words_of_word:
  assumes "\<forall>c \<in> set w. \<not> is_space c" "acc @ w \<noteq> []"
  shows "words_of acc (w @ CHR '' '' # rest) = (rev acc @ w) # words_of [] rest"
    and "words_of acc w = [rev acc @ w]"
  using assms by (induction w arbitrary: acc) (auto simp: is_space_def)

lemma show_int_no_space: "c \<in> set (show_int i) \<Longrightarrow> \<not> is_space c"
  using show_nat_digits digit_not_special by (fastforce simp: show_int_def is_space_def split: if_splits)

lemma show_int_nonempty: "show_int i \<noteq> []"
  using show_nat_digit_hd by (simp add: show_int_def)

lemma server_parse_show:
  assumes "sv_hostname sv \<noteq> []" "sv_type sv \<noteq> []" "int32 (sv_stratum sv)"
    and "\<forall>c \<in> set (sv_hostname sv) \<union> set (sv_type sv). \<not> is_space c"
  shows "parse_server 0 (words_of [] (show_server sv)) sv0 =
     Some (sv0\<lparr>sv_hostname := sv_hostname sv, sv_type := sv_type sv, sv_stratum := sv_stratum sv\<rparr>)"
proof -
  have "words_of [] (show_server sv) = [sv_hostname sv, sv_type sv, show_int (sv_stratum sv)]"
    using assms show_int_no_space show_int_nonempty
    by (simp add: show_server_def words_of_word)
  then show ?thesis
    using assms(3) by (simp add: stoi_show_int)
qed

text \<open>The description of a time server survives its text form: host name, type and stratum
  are read back from what TIMELINE_GET_SERVER sends, for names without spaces.\<close>

lemma server_text_roundtrip:
  assumes "sv_hostname sv \<noteq> []" "sv_type sv \<noteq> []" "int32 (sv_stratum sv)"
    and "\<forall>c \<in> set (sv_hostname sv) \<union> set (sv_type sv). \<not> is_space c"
  shows "parse_server 0 (words_of [] (show_server sv)) sv0 =
     Some (sv0\<lparr>sv_hostname := sv_hostname sv, sv_type := sv_type sv, sv_stratum := sv_stratum sv\<rparr>)"
  using assms by (rule server_parse_show)

lemma server_text_roundtrip_witness:
  "parse_server 0 (words_of [] (show_server (\<lparr>sv_hostname = ''ntp'', sv_type = ''local'', sv_stratum = 2,
      sv_info_timestamp = 0, sv_root_dispersion = 0, sv_root_delay = 0, sv_timeline_id = 0\<rparr>)))
     \<lparr>sv_hostname = [], sv_type = [], sv_stratum = 9, sv_info_timestamp = 0, sv_root_dispersion = 0,
      sv_root_delay = 0, sv_timeline_id = 0\<rparr>
   = Some \<lparr>sv_hostname = ''ntp'', sv_type = ''local'', sv_stratum = 2, sv_info_timestamp = 0,
      sv_root_dispersion = 0, sv_root_delay = 0, sv_timeline_id = 0\<rparr>"
  by (subst server_text_roundtrip) (simp_all add: int32_def is_space_def)

lemma receive_one_and_two_reads_witness:
  "receive [Read_bytes ''ab''] = Some (''ab'' @ replicate (MAX_BUF_LENGTH - 2) (CHR 0x00), True, False)"
  using receive_one_and_two_reads [of "''ab''" "replicate MAX_BUF_LENGTH (CHR 0x00)" "[]"]
  by (simp add: MAX_BUF_LENGTH_def del: replicate.simps)

section \<open>A concrete service\<close>

text \<open>A service started with working system calls, used to instantiate the
  properties above.\<close>

definition ex_env :: core_env where
  "ex_env = \<lparr>env_alloc_ok = True,
     env_shm = \<lparr>env_fd_rw = 5, env_mmap_ok = True, env_fd_ro = 6\<rparr>,
     env_metadata = (\<lambda>_. Some ''NULL''), env_coord_id = (\<lambda>_. Some 7), env_servers = (\<lambda>_. Some []),
     env_post_server = (\<lambda>_ _. 0), env_junk_retval = QOT_RETURN_TYPE_OK, env_junk_demand = tq_zero,
     env_junk_info = \<lparr>tln_name = [], tln_index = 0, tln_type = QOT_TIMELINE_LOCAL\<rparr>,
     env_junk_server = \<lparr>sv_hostname = [], sv_type = [], sv_stratum = 0, sv_info_timestamp = 0,
       sv_root_dispersion = 0, sv_root_delay = 0, sv_timeline_id = 0\<rparr>,
     env_send_fd = (\<lambda>_ _. 1)\<rparr>"

definition ex_binding :: qot_binding where
  "ex_binding = \<lparr>bd_name = ''app'', bd_demand = tq_zero, bd_id = 0,
     bd_start_offset = \<lparr>tp_sec = 0, tp_asec = 0\<rparr>, bd_period = tl_zero\<rparr>"

definition ex_msg :: "tlmsg_type \<Rightarrow> int \<Rightarrow> tlmsg" where
  "ex_msg ty ix = \<lparr>tm_info = \<lparr>tln_name = ''tl'', tln_index = ix, tln_type = QOT_TIMELINE_LOCAL\<rparr>,
     tm_binding = ex_binding, tm_demand = tq_zero, tm_msgtype = ty, tm_retval = QOT_RETURN_TYPE_OK,
     tm_aux_data = []\<rparr>"

lemma ex_startup:
  obtains s c where "startup ex_env ex_env 0 ex_binding 0 ''node'' False [] = Some s" "svc_inv s"
    "\<not> reg_locked (svc_reg s)" "\<not> c_binding_locked c"
    "reg_class (svc_reg s) = [0 \<mapsto> 0]" "svc_heap s = [0 \<mapsto> c]" "c_binding_map c 0 \<noteq> None"
proof -
  let ?st = "startup ex_env ex_env 0 ex_binding 0 ''node'' False []"
  have ne: "?st \<noteq> None"
    by (simp add: startup_def TimelineClock_def ex_env_def Let_def TimelineCore_def registry_eqs
        TimelineRegistry_def next_index_def create_binding_def binding_lock_def
        service_binding_def ex_binding_def next_binding_id_def announce_binding_def
        first_binding_metadata_def update_timeline_qot_def clocks_set_quality_def)
  then obtain s where s: "?st = Some s"
    by blast
  then have "\<exists>c. reg_class (svc_reg s) = [0 \<mapsto> 0] \<and> svc_heap s = [0 \<mapsto> c] \<and> c_binding_map c 0 \<noteq> None"
    by (auto simp: startup_def TimelineClock_def ex_env_def Let_def TimelineCore_def registry_eqs
        TimelineRegistry_def next_index_def create_binding_def binding_lock_def
        service_binding_def ex_binding_def next_binding_id_def announce_binding_def
        first_binding_metadata_def update_timeline_qot_def clocks_set_quality_def)
  then obtain c where "reg_class (svc_reg s) = [0 \<mapsto> 0]" "svc_heap s = [0 \<mapsto> c]" "c_binding_map c 0 \<noteq> None"
    by blast
  moreover from this have "\<not> c_binding_locked c"
    using startup_inv(3) [OF s, of 0] by (simp add: held_def)
  ultimately show ?thesis
    using that s startup_inv(1,2) [OF s] by blast
qed


lemma unknown_timeline_stops_service_witness:
  "\<exists>s m' s'. svc_inv s \<and> serve ex_env 4 (ex_msg TIMELINE_INFO 5) s = Some (m', s') \<and>
     serve ex_env 4 (ex_msg TIMELINE_CREATE 0) s' = None"
proof -
  obtain s c where s: "svc_inv s" "\<not> reg_locked (svc_reg s)" "reg_class (svc_reg s) = [0 \<mapsto> 0]"
    using ex_startup by metis
  have "\<exists>m' s'. serve ex_env 4 (ex_msg TIMELINE_INFO 5) s = Some (m', s') \<and> tm_retval m' = QOT_RETURN_TYPE_ERR \<and>
     (\<forall>env2 sd2 m2. uses_registry (tm_msgtype m2) \<longrightarrow> serve env2 sd2 m2 s' = None)"
    by (rule unknown_timeline_stops_service) (use s in \<open>simp_all add: ex_msg_def uses_registry_def\<close>)
  moreover have "uses_registry (tm_msgtype (ex_msg TIMELINE_CREATE 0))"
    by (simp add: ex_msg_def uses_registry_def)
  ultimately show ?thesis
    using s(1) by blast
qed

lemma update_of_binding_blocks_timeline_witness:
  "\<exists>s m' s'. svc_inv s \<and> serve ex_env 4 (ex_msg TIMELINE_UPDATE 0) s = Some (m', s') \<and>
     tm_retval m' = QOT_RETURN_TYPE_OK \<and> serve ex_env 4 (ex_msg TIMELINE_BIND 0) s' = None"
proof -
  obtain s c where s: "svc_inv s" "\<not> reg_locked (svc_reg s)" "\<not> c_binding_locked c" "reg_class (svc_reg s) = [0 \<mapsto> 0]"
      "svc_heap s = [0 \<mapsto> c]" "c_binding_map c 0 \<noteq> None"
    using ex_startup by metis
  have "\<exists>m' s' c'. serve ex_env 4 (ex_msg TIMELINE_UPDATE 0) s = Some (m', s') \<and>
     tm_retval m' = QOT_RETURN_TYPE_OK \<and> svc_heap s' 0 = Some c' \<and> c_binding_map c' = c_binding_map c \<and>
     (\<forall>env2 sd2 m2. tln_index (tm_info m2) = tln_index (tm_info (ex_msg TIMELINE_UPDATE 0)) \<and>
        tm_msgtype m2 \<in> {TIMELINE_BIND, TIMELINE_UNBIND, TIMELINE_UPDATE} \<longrightarrow>
        serve env2 sd2 m2 s' = None)"
    by (rule update_of_binding_blocks_timeline) (use s in \<open>simp_all add: ex_msg_def ex_binding_def\<close>)
  then obtain m' s' where w: "serve ex_env 4 (ex_msg TIMELINE_UPDATE 0) s = Some (m', s')"
      "tm_retval m' = QOT_RETURN_TYPE_OK"
      "\<forall>env2 sd2 m2. tln_index (tm_info m2) = tln_index (tm_info (ex_msg TIMELINE_UPDATE 0)) \<and>
        tm_msgtype m2 \<in> {TIMELINE_BIND, TIMELINE_UNBIND, TIMELINE_UPDATE} \<longrightarrow>
        serve env2 sd2 m2 s' = None"
    by blast
  then have "serve ex_env 4 (ex_msg TIMELINE_BIND 0) s' = None"
    by (simp add: ex_msg_def)
  with s(1) w(1,2) show ?thesis
    by blast
qed

lemma destroy_keeps_bound_timeline_witness:
  "\<exists>s s'. svc_inv s \<and> serve ex_env 4 (ex_msg TIMELINE_DESTROY 0) s = Some (ex_msg TIMELINE_DESTROY 0, s') \<and>
     svc_reg s' = svc_reg s"
proof -
  obtain s c where s: "svc_inv s" "\<not> reg_locked (svc_reg s)" "reg_class (svc_reg s) = [0 \<mapsto> 0]" "svc_heap s = [0 \<mapsto> c]"
      "c_binding_map c 0 \<noteq> None"
    using ex_startup by metis
  have "c_binding_map c \<noteq> Map.empty"
    using s(5) by auto
  moreover have "\<exists>s'. serve ex_env 4 (ex_msg TIMELINE_DESTROY 0) s
       = Some ((ex_msg TIMELINE_DESTROY 0)\<lparr>tm_retval := QOT_RETURN_TYPE_OK\<rparr>, s') \<and>
     (if c_binding_map c = Map.empty
      then reg_map (svc_reg s') (tln_name (c_info c)) = None \<and>
           reg_class (svc_reg s') (tln_index (tm_info (ex_msg TIMELINE_DESTROY 0))) = None \<and> svc_heap s' 0 = None
      else svc_reg s' = svc_reg s \<and> svc_heap s' = svc_heap s)"
    by (rule destroy_keeps_bound_timeline) (use s in \<open>simp_all add: ex_msg_def\<close>)
  moreover have "(ex_msg TIMELINE_DESTROY 0)\<lparr>tm_retval := QOT_RETURN_TYPE_OK\<rparr> = ex_msg TIMELINE_DESTROY 0"
    by (simp add: ex_msg_def)
  ultimately show ?thesis
    using s(1) by auto
qed

end
