(* ===== verification/Tl_Comm.thy ===== *)
theory Tl_Comm
  imports Core_Api Timeline_Service
begin

text \<open>
  The sync service's side of the conversation with the timeline service,
  \<open>TLCommunicator\<close> of \<open>sync-service/sync/qot_tlcomm.cpp\<close>: the memory of a timeline's
  clock and of its overlay, and the time server of a timeline.  It talks the protocol
  of the client library over the same outside (\<open>host\<close>), and writes and reads the text
  form of a server that the timeline service uses.
\<close>

section \<open>Operations\<close>

record tl_communicator =
  cm_sock :: int
  cm_status_flag :: int

text \<open>The constructor: the descriptor of the socket and whether it could be connected.\<close>

definition TLCommunicator :: "'w host \<Rightarrow> int \<Rightarrow> bool \<Rightarrow> 'w \<Rightarrow> tl_communicator \<times> 'w" where
  "TLCommunicator h sock conn_ok w =
     (if conn_ok then (\<lparr>cm_sock = sock, cm_status_flag = (if sock < 0 then 1 else 0)\<rparr>, w)
      else (\<lparr>cm_sock = sock, cm_status_flag = 2\<rparr>, h_close h w))"

definition TLCommunicator_destroy :: "'w host \<Rightarrow> tl_communicator \<Rightarrow> 'w \<Rightarrow> 'w" where
  "TLCommunicator_destroy h cm w = (if cm_status_flag cm = 0 then h_close h w else w)"

text \<open>A request: the members the code does not set are those of the uninitialised
  message \<open>junk\<close>.\<close>

definition comm_request :: "tlmsg \<Rightarrow> tlmsg_type \<Rightarrow> int \<Rightarrow> tlmsg" where
  "comm_request junk mt timeline_id =
     junk\<lparr>tm_msgtype := mt,
          tm_info := (tm_info junk)\<lparr>tln_index := timeline_id, tln_name := ''invalid''\<rparr>,
          tm_binding := (tm_binding junk)\<lparr>bd_name := ''invalid''\<rparr>\<rparr>"

text \<open>The memory of a clock arrives as a descriptor; any other answer is read as no
  descriptor.\<close>

definition comm_clk_memory ::
  "'w host \<Rightarrow> tlmsg \<Rightarrow> tlmsg_type \<Rightarrow> int \<Rightarrow> 'w \<Rightarrow> (tl_translation option \<times> 'w) option" where
  "comm_clk_memory h junk mt timeline_id w =
     (let (n, w) = h_send h (h_dump h (serialize_tlmsg (comm_request junk mt timeline_id))) w
      in if n > 0
         then do {
           (fd, w) \<leftarrow> h_recv_fd h w;
           Some (case fd of None \<Rightarrow> (None, w) | Some clk_fd \<Rightarrow> h_mmap h clk_fd w)
         }
         else Some (None, w))"

definition request_clk_memory :: "'w host \<Rightarrow> tlmsg \<Rightarrow> int \<Rightarrow> 'w \<Rightarrow> (tl_translation option \<times> 'w) option" where
  "request_clk_memory h junk timeline_id w = comm_clk_memory h junk TIMELINE_SHM_CLKSYNC timeline_id w"

definition request_ov_clk_memory :: "'w host \<Rightarrow> tlmsg \<Rightarrow> int \<Rightarrow> 'w \<Rightarrow> (tl_translation option \<times> 'w) option" where
  "request_ov_clk_memory h junk timeline_id w = comm_clk_memory h junk TIMELINE_OV_SHM_CLKSYNC timeline_id w"

text \<open>Unlike the client library's, the function keeps the message's text.\<close>

definition comm_send_message :: "'w host \<Rightarrow> tlmsg \<Rightarrow> 'w \<Rightarrow> (qot_return \<times> tlmsg \<times> 'w) option" where
  "comm_send_message h msg w = do {
     let (bytesSent, w) = h_send h (h_dump h (serialize_tlmsg msg)) w;
     if tm_msgtype msg \<noteq> TIMELINE_SHM_CLOCK \<and> tm_msgtype msg \<noteq> TIMELINE_OV_SHM_CLOCK \<and> bytesSent > 0
     then do {
       (rcv, w) \<leftarrow> client_recv h (replicate MAX_BUF_LENGTH (CHR 0x00)) False [] w;
       (case rcv of
          None \<Rightarrow> Some (QOT_RETURN_TYPE_ERR, msg, w)
        | Some text \<Rightarrow> do {
            data \<leftarrow> h_parse h text;
            msg \<leftarrow> deserialize_tlmsg data msg;
            Some (tm_retval msg, msg, w)
          })
     }
     else Some (QOT_RETURN_TYPE_OK, msg\<lparr>tm_retval := QOT_RETURN_TYPE_OK\<rparr>, w)
   }"

definition get_timeline_server ::
  "'w host \<Rightarrow> tlmsg \<Rightarrow> int \<Rightarrow> qot_server \<Rightarrow> 'w \<Rightarrow> (int \<times> qot_server \<times> 'w) option" where
  "get_timeline_server h junk timeline_id server w = do {
     (r, msg, w) \<leftarrow> comm_send_message h (comm_request junk TIMELINE_GET_SERVER timeline_id) w;
     if r \<noteq> QOT_RETURN_TYPE_OK then Some (- 1, server, w)
     else do {
       server \<leftarrow> parse_server 0 (words_of [] (tm_aux_data msg)) server;
       Some (0, server, w)
     }
   }"

definition set_timeline_server ::
  "'w host \<Rightarrow> tlmsg \<Rightarrow> int \<Rightarrow> qot_server \<Rightarrow> 'w \<Rightarrow> (int \<times> 'w) option" where
  "set_timeline_server h junk timeline_id server w = do {
     (r, _, w) \<leftarrow> comm_send_message h
       ((comm_request junk TIMELINE_SET_SERVER timeline_id)\<lparr>tm_aux_data := show_server server\<rparr>) w;
     Some (int_of_return r, w)
   }"

section \<open>Lemmas\<close>

lemma comm_send_message_reply:
  assumes "tm_msgtype msg \<noteq> TIMELINE_SHM_CLOCK" "tm_msgtype msg \<noteq> TIMELINE_OV_SHM_CLOCK"
    and "h_send h (h_dump h (serialize_tlmsg msg)) w = (n, w1)" "0 < n"
    and "h_recv h w1 = Some (Read_bytes (h_dump h (serialize_tlmsg rep)), w2)"
    and "length (h_dump h (serialize_tlmsg rep)) < MAX_BUF_LENGTH"
    and "\<And>k. h_parse h (h_dump h (serialize_tlmsg rep) @ replicate k (CHR 0x00)) = Some (serialize_tlmsg rep)"
    and "tlmsg_ok rep"
  shows "comm_send_message h msg w =
     Some (tm_retval rep,
           rep\<lparr>tm_binding := (tm_binding msg)\<lparr>bd_name := bd_name (tm_binding rep),
                 bd_id := bd_id (tm_binding rep), bd_demand := tm_demand rep\<rparr>\<rparr>, w2)"
  using assms(1-7)
  by (simp add: comm_send_message_def client_recv_one tlmsg_read_back [OF assms(8)])

end
