(* ===== verification/Service_Replies.thy ===== *)
theory Service_Replies
  imports Timeline_Service
begin

text \<open>
  The types of the messages the timeline service sends: every field of a reply fits the
  type the JSON form and the client expect (names with a terminator inside their
  arrays, 32-bit integers, enumerations with a 32-bit value, which need not be one
  of the named ones).
\<close>

section \<open>Well-typed timelines\<close>

definition info_typed :: "qot_timeline \<Rightarrow> bool" where
  "info_typed t \<longleftrightarrow> name_ok (tln_name t) \<and> int32 (tln_index t) \<and> timeline_type_ok (tln_type t)"

definition reg_typed :: "registry \<Rightarrow> bool" where
  "reg_typed r \<longleftrightarrow> (\<forall>name t. reg_map r name = Some t \<longrightarrow> info_typed t)"

lemma tlmsg_ok_info: "tlmsg_ok m \<Longrightarrow> info_typed (tm_info m)"
  by (simp add: tlmsg_ok_def info_typed_def)

lemma return_ok_named [simp]: "return_ok QOT_RETURN_TYPE_OK" "return_ok QOT_RETURN_TYPE_ERR"
  by (simp_all add: return_ok_def return_of_int_def int32_def)

text \<open>What the handlers put into an answer.\<close>

lemma tlmsg_ok_updates:
  assumes "tlmsg_ok m"
  shows "return_ok rv \<Longrightarrow> tlmsg_ok (m\<lparr>tm_retval := rv\<rparr>)"
    and "info_typed t \<Longrightarrow> tlmsg_ok (m\<lparr>tm_info := t\<rparr>)"
    and "tlmsg_ok (m\<lparr>tm_aux_data := aux\<rparr>)" "tlmsg_ok (m\<lparr>tm_demand := dem\<rparr>)"
    and "int32 (bd_id b) \<Longrightarrow> bd_name b = bd_name (tm_binding m) \<Longrightarrow> tlmsg_ok (m\<lparr>tm_binding := b\<rparr>)"
  using assms by (simp_all add: tlmsg_ok_def info_typed_def)

lemma int32_next_binding_id: "int32 (next_binding_id ids)"
  using int32_s32 by (simp add: next_binding_id_def) (simp add: int32_def)

lemma create_binding_id:
  assumes "create_binding env b c w = Some (rv, b', c', w')" "int32 (bd_id b)"
  shows "int32 (bd_id b')" "bd_name b' = bd_name b"
  using assms
  by (auto simp: create_binding_def binding_lock_def Let_def int32_next_binding_id
      split: if_splits prod.splits bind_splits)

lemma TimelineCore_info:
  assumes "TimelineCore env a node t r w = Some (c, info, r', w')"
  shows "\<exists>rv r1. qot_timeline_register t r = Some (rv, info, r1)"
proof -
  obtain rv t1 r1 where "qot_timeline_register t r = Some (rv, t1, r1)"
    using assms by (auto simp: TimelineCore_def Let_def split: bind_splits)
  with assms show ?thesis
    by (auto simp: TimelineCore_def Let_def split: if_splits prod.splits bind_splits)
qed

lemma int32_next_index: "int32 (next_index r)"
  using int32_s32 by (simp add: next_index_def) (simp add: int32_def)

lemma register_typed:
  assumes "\<not> reg_locked r" "reg_typed r" "info_typed t" "qot_timeline_register t r = Some (rv, info, r1)"
  shows "info_typed info"
  using assms int32_next_index [of r]
  by (auto simp: register_eq reg_typed_def info_typed_def split: option.splits)
section \<open>The handlers keep the types\<close>

lemma get_tl_free: "get_tl i s = Some r \<Longrightarrow> \<not> reg_locked (svc_reg s)"
  by (auto simp: get_tl_def locked_blocks)

lemma get_tl_typed:
  assumes "get_tl i s = Some (p, s1)" "reg_typed (svc_reg s)"
  shows "reg_typed (svc_reg s1)" "p = Some (a, c) \<Longrightarrow> svc_inv s \<Longrightarrow> s1 = s \<and> svc_heap s a = Some c \<and> info_typed (c_info c)"
proof -
  have m: "reg_map (svc_reg s1) = reg_map (svc_reg s)"
    using assms(1) by (auto simp: get_tl_def registry_defs Let_def split: bind_splits option.splits if_splits)
  then show "reg_typed (svc_reg s1)"
    using assms(2) by (simp add: reg_typed_def)
  assume p: "p = Some (a, c)" and inv: "svc_inv s"
  have "reg_class (svc_reg s) i \<noteq> None"
    using assms(1) p get_tl_free [OF assms(1)] get_tl_miss [of s i] by auto
  then obtain a' where "reg_class (svc_reg s) i = Some a'"
    by blast
  then obtain c' where "get_tl i s = Some (Some (a', c'), s)" "svc_heap s a' = Some c'"
    "reg_map (svc_reg s) (tln_name (c_info c')) = Some (c_info c')"
    using get_tl_hit [OF inv get_tl_free [OF assms(1)]] by metis
  then show "s1 = s \<and> svc_heap s a = Some c \<and> info_typed (c_info c)"
    using assms p by (auto simp: reg_typed_def)
qed

text \<open>A request that only uses its timeline.\<close>

definition typed_answer :: "(tlmsg \<times> service) option \<Rightarrow> bool" where
  "typed_answer r \<longleftrightarrow> (\<forall>m s. r = Some (m, s) \<longrightarrow> tlmsg_ok m \<and> reg_typed (svc_reg s))"

lemma typed_answerI:
  "(\<And>m s. r = Some (m, s) \<Longrightarrow> tlmsg_ok m \<and> reg_typed (svc_reg s)) \<Longrightarrow> typed_answer r"
  by (simp add: typed_answer_def)

lemma typed_answer_Some [simp]: "typed_answer (Some (m, s)) \<longleftrightarrow> tlmsg_ok m \<and> reg_typed (svc_reg s)"
  by (simp add: typed_answer_def)

lemma typed_answer_None [simp]: "typed_answer None"
  by (simp add: typed_answer_def)

lemma with_timeline_typed:
  assumes "svc_inv s" "reg_typed (svc_reg s)" "tlmsg_ok m"
    and "\<And>a c. svc_heap s a = Some c \<Longrightarrow> info_typed (c_info c) \<Longrightarrow> typed_answer (f a c s)"
  shows "typed_answer (get_tl i s \<bind> (\<lambda>(p, s). case p of
           None \<Rightarrow> Some (m\<lparr>tm_retval := QOT_RETURN_TYPE_ERR\<rparr>, s) | Some (a, c) \<Rightarrow> f a c s))"
proof (cases "get_tl i s")
  case (Some r)
  obtain p s1 where r: "get_tl i s = Some (p, s1)"
    using Some by (cases r) simp
  note t = get_tl_typed [OF r assms(2)]
  show ?thesis
  proof (cases p)
    case None
    with r t(1) assms(3) show ?thesis
      by (simp add: tlmsg_ok_updates)
  next
    case (Some ac)
    then obtain a c where "p = Some (a, c)"
      by (cases ac) simp
    with r t(2) assms(1,4) show ?thesis
      by simp
  qed
qed simp

lemma put_tl_reg [simp]: "svc_reg (put_tl a c w s) = svc_reg s"
  by (simp add: put_tl_def)

lemma handlers_typed:
  assumes "svc_inv s" "reg_typed (svc_reg s)" "tlmsg_ok m"
  shows "typed_answer (handle_bind env m s)" "typed_answer (handle_unbind env m s)"
    "typed_answer (handle_update env m s)" "typed_answer (handle_quality env m s)"
    "typed_answer (handle_info env m s)" "typed_answer (handle_shm_clock env sd m s)"
    "typed_answer (handle_shm_clksync env sd m s)" "typed_answer (handle_ov_shm_clock env sd m s)"
    "typed_answer (handle_ov_shm_clksync env sd m s)" "typed_answer (handle_get_server env m s)"
    "typed_answer (handle_set_server env m s)"
proof -
  note use_tl = with_timeline_typed [OF assms]
  have bind: "tlmsg_ok (m\<lparr>tm_binding := b', tm_retval := QOT_RETURN_TYPE_OK\<rparr>)"
    if "create_binding env (tm_binding m) c w = Some (rv, b', c', w')" for c w rv b' c' w'
    using create_binding_id [OF that] assms(3) by (simp add: tlmsg_ok_def)
  show "typed_answer (handle_bind env m s)"
    unfolding handle_bind_def
    by (rule use_tl) (auto simp: typed_answer_def bind assms(2) split: bind_splits)
  show "typed_answer (handle_unbind env m s)"
    unfolding handle_unbind_def
    by (rule use_tl) (auto simp: typed_answer_def tlmsg_ok_updates assms split: bind_splits)
  show "typed_answer (handle_update env m s)"
    unfolding handle_update_def
    by (rule use_tl) (auto simp: typed_answer_def tlmsg_ok_updates assms split: bind_splits)
  show "typed_answer (handle_quality env m s)"
    unfolding handle_quality_def using assms(3)
    by (intro use_tl) (auto simp: typed_answer_def tlmsg_ok_def assms(2) split: bind_splits)
  show "typed_answer (handle_info env m s)"
    unfolding handle_info_def
    by (rule use_tl) (simp add: tlmsg_ok_updates assms c_get_timeline_info_def)
  show "typed_answer (handle_shm_clock env sd m s)" "typed_answer (handle_shm_clksync env sd m s)"
    "typed_answer (handle_ov_shm_clock env sd m s)" "typed_answer (handle_ov_shm_clksync env sd m s)"
    unfolding handle_shm_clock_def handle_shm_clksync_def handle_ov_shm_clock_def handle_ov_shm_clksync_def
    by (rule use_tl, simp add: send_clock_fd_def tlmsg_ok_updates assms)+
  show "typed_answer (handle_get_server env m s)"
    unfolding handle_get_server_def
    by (rule use_tl) (auto simp: typed_answer_def Let_def tlmsg_ok_updates assms split: bind_splits option.splits)
  show "typed_answer (handle_set_server env m s)"
    unfolding handle_set_server_def
    by (rule use_tl) (auto simp: typed_answer_def Let_def tlmsg_ok_updates assms split: bind_splits prod.splits)
qed

lemma handle_latency_typed:
  assumes "reg_typed (svc_reg s)" "tlmsg_ok m"
  shows "typed_answer (handle_latency env m s)"
  using assms
  by (auto simp: handle_latency_def typed_answer_def tlmsg_ok_updates dest: get_tl_typed(1) split: bind_splits)

lemma handle_destroy_typed:
  assumes "svc_inv s" "reg_typed (svc_reg s)" "tlmsg_ok m"
  shows "typed_answer (handle_destroy env m s)"
proof -
  consider (locked) "reg_locked (svc_reg s)"
    | (miss) "\<not> reg_locked (svc_reg s)" "reg_class (svc_reg s) (tln_index (tm_info m)) = None"
    | (hit) a where "\<not> reg_locked (svc_reg s)" "reg_class (svc_reg s) (tln_index (tm_info m)) = Some a"
    by fastforce
  then show ?thesis
  proof cases
    case locked
    then show ?thesis
      by (simp add: handle_destroy_def get_tl_def locked_blocks)
  next
    case miss
    then show ?thesis
      using assms by (simp add: handle_destroy_def get_tl_miss reg_typed_def tlmsg_ok_updates)
  next
    case hit
    obtain c where c: "get_tl (tln_index (tm_info m)) s = Some (Some (a, c), s)" "core_live c"
        "reg_map (svc_reg s) (tln_name (c_info c)) = Some (c_info c)"
      using get_tl_hit [OF assms(1) hit] by metis
    obtain w' where d: "TimelineCore_destroy env c (svc_reg s) (svc_world s) = Some
        ((svc_reg s)\<lparr>reg_map := (reg_map (svc_reg s))(tln_name (c_info c) := None),
           reg_ids := reg_ids (svc_reg s) - {tln_index (c_info c)},
           reg_class := (reg_class (svc_reg s))(tln_index (c_info c) := None)\<rparr>, w')"
      using c(2) hit(1) c(3) by (rule TimelineCore_destroy_eq)
    show ?thesis
      using assms c(1) d by (auto simp: handle_destroy_def reg_typed_def tlmsg_ok_updates)
  qed
qed

lemma handle_create_typed:
  assumes "svc_inv s" "reg_typed (svc_reg s)" "tlmsg_ok m"
  shows "typed_answer (handle_create env m s)"
proof -
  let ?r = "svc_reg s"
  show ?thesis
  proof (cases "reg_locked ?r")
    case True
    then show ?thesis
      by (simp add: handle_create_def TimelineCore_def locked_blocks Let_def)
  next
    case free: False
    obtain c info r' w' where c: "TimelineCore env (svc_next s) (svc_node_uuid s) (tm_info m) ?r (svc_world s) =
        Some (c, info, r', w')"
        "if c_status_flag c = 0 then constructed ?r (tm_info m) (svc_next s) c info r'
         else c_status_flag c \<in> {1, 2, 3} \<and> r' = ?r \<and>
             (c_status_flag c = 1 \<longleftrightarrow> reg_map ?r (tln_name (tm_info m)) \<noteq> None) \<and>
             (c_status_flag c = 1 \<longrightarrow> reg_map ?r (tln_name (tm_info m)) = Some info)"
      using TimelineCore_cases [OF svc_inv_reg [OF assms(1)] free] by metis
    have info: "info_typed info"
      using TimelineCore_info [OF c(1)] register_typed [OF free assms(2) tlmsg_ok_info [OF assms(3)]]
      by blast
    show ?thesis
    proof (cases "c_status_flag c = 0")
      case True
      then have "r' = registered ?r info (svc_next s)"
        using c(2) by (simp add: constructed_def)
      then have "reg_typed r'"
        using assms(2) info by (auto simp: reg_typed_def registered_def)
      then show ?thesis
        using True c(1) info assms(3) by (simp add: handle_create_def Let_def tlmsg_ok_updates)
    next
      case False
      then have "c_status_flag c > 0" "r' = ?r"
        using c(2) by auto
      then show ?thesis
        using c(1) info assms(2,3) by (simp add: handle_create_def Let_def TimelineCore_destroy_def tlmsg_ok_updates)
    qed
  qed
qed

lemma serve_typed:
  assumes "svc_inv s" "reg_typed (svc_reg s)" "tlmsg_ok m" "serve env sd m s = Some (rep, s')"
  shows "tlmsg_ok rep \<and> reg_typed (svc_reg s')"
proof -
  let ?m = "m\<lparr>tm_retval := QOT_RETURN_TYPE_OK\<rparr>"
  have m: "tlmsg_ok ?m" "\<And>rv. return_ok rv \<Longrightarrow> tlmsg_ok (m\<lparr>tm_retval := rv\<rparr>)"
    using assms(3) by (simp_all add: tlmsg_ok_updates)
  have "typed_answer (dispatch env sd (tm_msgtype m) ?m s)"
    using handlers_typed [OF assms(1,2) m(1)] handle_latency_typed [OF assms(2) m(1)]
      handle_destroy_typed [OF assms(1,2) m(1)] handle_create_typed [OF assms(1,2) m(1)] assms(2) m(2)
    by (cases "tm_msgtype m") simp_all
  then show ?thesis
    using assms(4) by (auto simp: serve_def typed_answer_def reply_def split: bind_splits prod.splits if_splits)
qed

text \<open>A reply is of the type of its request, and says success or failure.\<close>

definition verdict :: "tlmsg \<Rightarrow> (tlmsg \<times> service) option \<Rightarrow> bool" where
  "verdict m r \<longleftrightarrow> (\<forall>m' s'. r = Some (m', s') \<longrightarrow> tm_msgtype m' = tm_msgtype m \<and>
     tm_retval m' \<in> {QOT_RETURN_TYPE_OK, QOT_RETURN_TYPE_ERR})"

lemma with_timeline_verdict:
  assumes "\<And>a c s. verdict m (f a c s)"
  shows "verdict m (get_tl i s \<bind> (\<lambda>(p, s). case p of
           None \<Rightarrow> Some (m\<lparr>tm_retval := QOT_RETURN_TYPE_ERR\<rparr>, s) | Some (a, c) \<Rightarrow> f a c s))"
proof (cases "get_tl i s")
  case (Some r)
  then obtain p s1 where r: "get_tl i s = Some (p, s1)"
    by (cases r) simp
  show ?thesis
  proof (cases p)
    case None
    with r show ?thesis
      by (simp add: verdict_def)
  next
    case (Some ac)
    with r assms [of "fst ac" "snd ac" s1] show ?thesis
      by (simp add: case_prod_unfold)
  qed
qed (simp add: verdict_def)

lemma handlers_verdict:
  "verdict m (handle_destroy env m s)" "verdict m (handle_bind env m s)" "verdict m (handle_unbind env m s)"
  "verdict m (handle_update env m s)" "verdict m (handle_quality env m s)"
  "verdict m (handle_info env m s)" "verdict m (handle_shm_clock env sd m s)"
  "verdict m (handle_shm_clksync env sd m s)" "verdict m (handle_ov_shm_clock env sd m s)"
  "verdict m (handle_ov_shm_clksync env sd m s)" "verdict m (handle_get_server env m s)"
  "verdict m (handle_set_server env m s)"
  unfolding handle_destroy_def handle_bind_def handle_unbind_def handle_update_def handle_quality_def handle_info_def
    handle_shm_clock_def handle_shm_clksync_def handle_ov_shm_clock_def handle_ov_shm_clksync_def
    handle_get_server_def handle_set_server_def
  by (rule with_timeline_verdict,
      auto simp: verdict_def send_clock_fd_def Let_def split: bind_splits if_splits option.splits prod.splits)+

lemma handle_latency_verdict: "verdict m (handle_latency env m s)"
  by (auto simp: verdict_def handle_latency_def split: bind_splits)

lemma handle_create_verdict: "verdict m (handle_create env m s)"
  by (auto simp: verdict_def handle_create_def Let_def split: bind_splits if_splits)

lemma serve_verdict:
  assumes "serve env sd m s = Some (rep, s')"
  shows "tm_msgtype rep = tm_msgtype m" "tm_retval rep \<in> {QOT_RETURN_TYPE_OK, QOT_RETURN_TYPE_ERR}"
proof -
  let ?m = "m\<lparr>tm_retval := QOT_RETURN_TYPE_OK\<rparr>"
  have "verdict ?m (dispatch env sd (tm_msgtype m) ?m s)"
    using handlers_verdict [of ?m] handle_latency_verdict [of ?m] handle_create_verdict [of ?m]
    by (cases "tm_msgtype m") (simp_all add: verdict_def)
  then show "tm_msgtype rep = tm_msgtype m" "tm_retval rep \<in> {QOT_RETURN_TYPE_OK, QOT_RETURN_TYPE_ERR}"
    using assms by (auto simp: serve_def verdict_def split: bind_splits)
qed

inductive typed_step :: "service \<Rightarrow> service \<Rightarrow> bool" where
  "tlmsg_ok m \<Longrightarrow> serve env sd m s = Some (m', s') \<Longrightarrow> typed_step s s'"

inductive_cases typed_stepE: "typed_step s s'"

lemma typed_step_inv:
  assumes "typed_step s s'" "svc_inv s" "reg_typed (svc_reg s)"
  shows "svc_inv s' \<and> reg_typed (svc_reg s')"
  using assms(1)
proof (rule typed_stepE)
  fix env m sd m'
  assume a: "tlmsg_ok m" "serve env sd m s = Some (m', s')"
  then show ?thesis
    using svc_step_inv [OF svc_step.request [OF a(2)] assms(2)] serve_typed [OF assms(2,3) a] by simp
qed

lemma startup_typed:
  assumes "startup genv lenv junk b0 ix node pf peers = Some s"
  shows "reg_typed (svc_reg s)"
proof -
  let ?t = "\<lparr>tln_name = ''gl_global'', tln_index = ix, tln_type = QOT_TIMELINE_GLOBAL\<rparr>"
  obtain w c info w' where c: "TimelineCore genv 0 node ?t TimelineRegistry w = Some (c, info, svc_reg s, w')"
      "\<not> c_status_flag c > 0"
    using assms by (auto simp: startup_def Let_def split_beta split: if_splits bind_splits)
  then have "constructed TimelineRegistry ?t 0 c info (svc_reg s)"
    using TimelineCore_cases [OF reg_inv_init(1) reg_init_range reg_inv_init(2), of genv 0 node ?t w]
    by (auto split: if_splits)
  then show ?thesis
    by (auto simp: constructed_def registered_def reg_typed_def info_typed_def TimelineRegistry_def next_index_def
        name_ok_def QOT_MAX_NAMELEN_def int32_def timeline_type_ok_def timeline_type_of_int_def split: if_splits)
qed

text \<open>C13: Type preservation of the timeline service: from start-up, after any well-typed
  requests, the answer to a well-typed request is well-typed (names terminated inside
  their arrays, 32-bit integers, enumerations with 32-bit values, named or not), so is
  every timeline in the registry; the answer keeps the type of the request, its return
  code is success or error, and the client reads it back from its JSON form.\<close>

lemma replies_well_typed:
  assumes "startup genv lenv junk b0 ix node pf peers = Some s0" "typed_step\<^sup>*\<^sup>* s0 s"
    and "tlmsg_ok m" "serve env sd m s = Some (rep, s')"
  shows "tlmsg_ok rep \<and> reg_typed (svc_reg s') \<and>
     tm_msgtype rep = tm_msgtype m \<and> tm_retval rep \<in> {QOT_RETURN_TYPE_OK, QOT_RETURN_TYPE_ERR} \<and>
     deserialize_tlmsg (serialize_tlmsg rep) m0 = Some (rep\<lparr>tm_binding := (tm_binding m0)
       \<lparr>bd_name := bd_name (tm_binding rep), bd_id := bd_id (tm_binding rep), bd_demand := tm_demand rep\<rparr>\<rparr>)"
proof -
  have "svc_inv s \<and> reg_typed (svc_reg s)"
    using assms(2)
  proof (induction rule: rtranclp_induct)
    case base
    show ?case
      using startup_inv(1) [OF assms(1)] startup_typed [OF assms(1)] by simp
  next
    case (step y z)
    then show ?case
      using typed_step_inv by blast
  qed
  then have "tlmsg_ok rep \<and> reg_typed (svc_reg s')"
    using serve_typed assms(3,4) by blast
  then show ?thesis
    using tlmsg_read_back serve_verdict [OF assms(4)] by blast
qed

lemma ex_msg_typed:
  assumes "tlmsg_type_ok ty" "int32 i"
  shows "tlmsg_ok (ex_msg ty i)"
  using assms by (simp add: ex_msg_def ex_binding_def tlmsg_ok_def name_ok_def QOT_MAX_NAMELEN_def
      int32_def timeline_type_ok_def timeline_type_of_int_def)

lemma replies_well_typed_witness:
  "\<exists>s rep s'. startup ex_env ex_env 0 ex_binding 0 ''node'' False [] = Some s \<and>
     serve ex_env 4 (ex_msg TIMELINE_CREATE 0) s = Some (rep, s') \<and> tlmsg_ok rep"
proof -
  obtain s c where s: "startup ex_env ex_env 0 ex_binding 0 ''node'' False [] = Some s"
    using ex_startup by blast
  have "\<not> stuck ex_env (ex_msg TIMELINE_CREATE 0) s"
    using startup_inv(2) [OF s] by (simp add: stuck_def ex_msg_def split: option.split)
  then obtain rep s' where r: "serve ex_env 4 (ex_msg TIMELINE_CREATE 0) s = Some (rep, s')"
    using serve_progress [OF startup_inv(1) [OF s], of ex_env "ex_msg TIMELINE_CREATE 0" 4] by auto
  have "tlmsg_ok (ex_msg TIMELINE_CREATE 0)"
    by (rule ex_msg_typed) (simp_all add: tlmsg_type_ok_def tlmsg_of_int_def tlmsg_names_def int32_def)
  then show ?thesis
    using replies_well_typed [OF s rtranclp.rtrancl_refl _ r] s r by blast
qed

end
