(* ===== verification/Sync_Uncertainty.thy ===== *)
theory Sync_Uncertainty
  imports Ring_Buffers Wire_Json "HOL-Library.Multiset"
begin

text \<open>
  The uncertainty of a synchronised clock, \<open>SyncUncertainty\<close> of
  \<open>sync-service/sync/SyncUncertainty.cpp\<close> with the helpers of
  \<open>ProbabilityLib.cpp\<close>: the windows of the last drifts and offsets, their
  variances, the bounds computed from them, and what is published over NATS to
  the applications and to the master of the timeline.

  All arithmetic is that of \<open>double\<close>.  The quantile functions are those of the Boost
  library and are the parameter \<open>prob_lib\<close>.
\<close>

section \<open>Square roots\<close>

fun isqrt :: "nat \<Rightarrow> nat" where
  "isqrt n = (if n = 0 then 0
              else let r = 2 * isqrt (n div 4) in if (r + 1) * (r + 1) \<le> n then r + 1 else r)"

declare isqrt.simps [simp del]

text \<open>The C library's \<open>sqrt\<close> is correctly rounded.  The root is computed to more than
  54 bits, with a half for a remainder, and rounded.  Arguments are not negative.\<close>

definition d_sqrt :: "double \<Rightarrow> double" where
  "d_sqrt x =
     (if x \<le> 0 then 0
      else let k = nat (56 - rexp x div 2); y = x * 4 ^ k; s = isqrt (nat \<lfloor>y\<rfloor>)
           in rnd64 ((of_nat s + (if of_nat (s * s) = y then 0 else 1 / 2)) / 2 ^ k))"

lemma isqrt_bounds: "isqrt n * isqrt n \<le> n \<and> n < (isqrt n + 1) * (isqrt n + 1)"
proof (induction n rule: isqrt.induct)
  case (1 n)
  show ?case
  proof (cases "n = 0")
    case False
    let ?q = "isqrt (n div 4)"
    have IH: "?q * ?q \<le> n div 4" "n div 4 < (?q + 1) * (?q + 1)"
      using 1 False by simp_all
    have "4 * (?q * ?q) \<le> n"
      using IH(1) by linarith
    then have lo: "(2 * ?q) * (2 * ?q) \<le> n"
      by simp
    have "n div 4 + 1 \<le> (?q + 1) * (?q + 1)"
      using IH(2) by simp
    then have "n < 4 * ((?q + 1) * (?q + 1))"
      using mod_less_divisor [of 4 n] by (simp add: mult.commute) linarith?
    then have hi: "n < (2 * ?q + 2) * (2 * ?q + 2)"
      by simp
    show ?thesis
      using lo hi False by (simp add: isqrt.simps [of n] Let_def)
  qed (simp add: isqrt.simps)
qed

lemma d_sqrt_nonneg: "0 \<le> d_sqrt x"
  by (simp add: d_sqrt_def Let_def fp.rnd_nonneg)


section \<open>Quantiles\<close>

text \<open>Quantile of the chi-squared distribution by degrees of freedom and probability, that
  of its complement, quantile of the normal distribution around zero by standard
  deviation and probability, inverse error function.  They throw on arguments outside
  their domain (\<open>None\<close>).\<close>

record prob_lib =
  pl_chi_squared :: "nat \<Rightarrow> double \<Rightarrow> double option"
  pl_chi_squared_complement :: "nat \<Rightarrow> double \<Rightarrow> double option"
  pl_normal :: "double \<Rightarrow> double \<Rightarrow> double option"
  pl_erf_inv :: "double \<Rightarrow> double option"

text \<open>The sample size is an \<open>unsigned\<close>.  The lower limit is only printed.  A quantile of
  zero makes the limit infinite or undefined, which the model does not follow.\<close>

definition upper_confidence_limit_on_std_deviation ::
  "prob_lib \<Rightarrow> double \<Rightarrow> int \<Rightarrow> double \<Rightarrow> double option" where
  "upper_confidence_limit_on_std_deviation pl Sd N pds = do {
     let df = (N - 1) mod 2 ^ 32;
     _ \<leftarrow> pl_chi_squared_complement pl (nat df) (d_sub 1 pds);
     q \<leftarrow> pl_chi_squared pl (nat df) (d_sub 1 pds);
     if q = 0 then None else Some (d_div (d_mul (d_mul (of_int df) Sd) Sd) q)
   }"

definition upper_confidence_limit_gaussian :: "prob_lib \<Rightarrow> double \<Rightarrow> double \<Rightarrow> double option" where
  "upper_confidence_limit_gaussian pl Sd pdv = pl_normal pl Sd pdv"

definition get_inverse_error_func :: "prob_lib \<Rightarrow> double \<Rightarrow> double option" where
  "get_inverse_error_func pl p = (if p > 1 \<and> p < - 1 then Some 0 else pl_erf_inv pl p)"

section \<open>State\<close>

record uncertainty_params =
  up_M :: int
  up_N :: int
  up_pds :: double
  up_pdv :: double
  up_pos :: double
  up_pov :: double

text \<open>The vector of samples with the pointer to the slot written next.\<close>

record 'a window =
  win_samples :: "'a list"
  win_pointer :: int

record sync_uncertainty =
  su_config :: uncertainty_params
  su_offsets :: "s64 window"
  su_drifts :: "double window"
  su_drift_popvar :: double
  su_drift_samvar :: double
  su_offset_popvar :: double
  su_drift_bound :: double
  su_offset_bound :: double
  su_inv_error_pov :: double
  su_right_predictor :: double
  su_left_predictor :: double
  su_right_margin :: double
  su_left_margin :: double
  su_nats_status :: int
  su_nats_status_flag :: int
  su_sub :: "string option"
  su_master_topic :: string
  su_master_flag :: bool
  su_node_uuid :: string
  su_desired_accuracy :: u64

definition NATS_OK_SYNC :: int where "NATS_OK_SYNC = 0"
definition NATS_ERR :: int where "NATS_ERR = 1"

definition Configure ::
  "prob_lib \<Rightarrow> uncertainty_params \<Rightarrow> sync_uncertainty \<Rightarrow> sync_uncertainty option" where
  "Configure pl configuration su = do {
     ie \<leftarrow> get_inverse_error_func pl (up_pov configuration);
     Some (su\<lparr>su_config := configuration, su_inv_error_pov := ie\<rparr>)
   }"

text \<open>The constructor; \<open>junk\<close> holds the members it does not initialise.\<close>

definition SyncUncertainty ::
  "prob_lib \<Rightarrow> sync_uncertainty \<Rightarrow> uncertainty_params \<Rightarrow> sync_uncertainty option" where
  "SyncUncertainty pl junk cfg = do {
     su \<leftarrow> Configure pl cfg
       (junk\<lparr>su_offsets := \<lparr>win_samples = [], win_pointer = 0\<rparr>,
             su_drifts := \<lparr>win_samples = [], win_pointer = 0\<rparr>,
             su_drift_popvar := 0, su_drift_samvar := 0, su_offset_popvar := 0,
             su_drift_bound := 0, su_offset_bound := 0, su_master_flag := False\<rparr>);
     Some (su\<lparr>su_nats_status := NATS_ERR, su_node_uuid := ''default''\<rparr>)
   }"

definition StartMasterSyncPublish :: "string \<Rightarrow> sync_uncertainty \<Rightarrow> sync_uncertainty" where
  "StartMasterSyncPublish topic su = su\<lparr>su_master_topic := topic, su_master_flag := True\<rparr>"

definition StopMasterSyncPublish :: "sync_uncertainty \<Rightarrow> sync_uncertainty" where
  "StopMasterSyncPublish su = su\<lparr>su_master_flag := False\<rparr>"

definition SetNodeUUID :: "string \<Rightarrow> sync_uncertainty \<Rightarrow> sync_uncertainty" where
  "SetNodeUUID node_name su = su\<lparr>su_node_uuid := node_name\<rparr>"

definition SetNodeAccuracy :: "u64 \<Rightarrow> sync_uncertainty \<Rightarrow> sync_uncertainty" where
  "SetNodeAccuracy accuracy su = su\<lparr>su_desired_accuracy := accuracy\<rparr>"

definition natsConnect :: "int \<Rightarrow> sync_uncertainty \<Rightarrow> int \<times> sync_uncertainty" where
  "natsConnect status su = (status, su\<lparr>su_nats_status := status\<rparr>)"

definition getNatsStatus :: "sync_uncertainty \<Rightarrow> int" where
  "getNatsStatus su = su_nats_status su"

text \<open>Subscribing: the outcome of the subscription replaces the status of the
  connection; \<open>su_sub\<close> is the subscription object, by its topic.\<close>

definition su_natsSubscribe :: "string \<Rightarrow> int \<Rightarrow> sync_uncertainty \<Rightarrow> int \<times> sync_uncertainty" where
  "su_natsSubscribe topic status su =
     (let su = (if su_nats_status su = NATS_OK_SYNC
                then su\<lparr>su_nats_status_flag := 1, su_nats_status := status,
                        su_sub := (if status = NATS_OK_SYNC then Some topic else su_sub su)\<rparr>
                else su)
      in (su_nats_status su, su))"

text \<open>Unsubscribing returns the subscription it destroys: none when the connection is in
  error, although the pointer is cleared.\<close>

definition su_natsUnSubscribe :: "sync_uncertainty \<Rightarrow> string option \<times> sync_uncertainty" where
  "su_natsUnSubscribe su =
     (if su_nats_status su = NATS_OK_SYNC then su_sub su else None, su\<lparr>su_sub := None\<rparr>)"

section \<open>Samples and variances\<close>

text \<open>\<open>samples.size() < capacity\<close> compares unsigned: a negative capacity is huge.\<close>

definition size_lt :: "'a list \<Rightarrow> int \<Rightarrow> bool" where
  "size_lt xs cap \<longleftrightarrow> cap < 0 \<or> int (length xs) < cap"

definition win_add :: "int \<Rightarrow> 'a \<Rightarrow> 'a window \<Rightarrow> 'a window" where
  "win_add cap x w =
     \<lparr>win_samples = (if size_lt (win_samples w) cap then win_samples w @ [x]
                     else (win_samples w)[nat (win_pointer w) := x]),
      win_pointer = (win_pointer w + 1) smod cap\<rparr>"

text \<open>A capacity of zero divides by zero; a full window is written at the pointer, which a
  change of the configuration can leave behind the end.\<close>

definition win_fits :: "int \<Rightarrow> 'a window \<Rightarrow> bool" where
  "win_fits cap w \<longleftrightarrow> cap \<noteq> 0 \<and>
     (size_lt (win_samples w) cap \<or> 0 \<le> win_pointer w \<and> win_pointer w < int (length (win_samples w)))"

definition AddSample :: "s64 \<Rightarrow> double \<Rightarrow> sync_uncertainty \<Rightarrow> sync_uncertainty option" where
  "AddSample offset drift su =
     (if win_fits (up_M (su_config su)) (su_drifts su) \<and> win_fits (up_N (su_config su)) (su_offsets su)
      then Some (su\<lparr>su_drifts := win_add (up_M (su_config su)) drift (su_drifts su),
                    su_offsets := win_add (up_N (su_config su)) offset (su_offsets su)\<rparr>)
      else None)"

definition mean_of :: "double list \<Rightarrow> double" where
  "mean_of xs = d_div (fold (\<lambda>x mean. d_add mean x) xs 0) (of_nat (length xs))"

definition square_sum :: "double \<Rightarrow> double list \<Rightarrow> double" where
  "square_sum mean xs = fold (\<lambda>x var. d_add var (d_mul (d_sub x mean) (d_sub x mean))) xs 0"

definition GetPopulationVarianceDouble :: "double list \<Rightarrow> double" where
  "GetPopulationVarianceDouble samples =
     d_div (square_sum (mean_of samples) samples) (of_nat (length samples))"

definition GetPopulationVariance :: "s64 list \<Rightarrow> double" where
  "GetPopulationVariance samples =
     (let xs = map d_of_s64 samples in d_div (square_sum (mean_of xs) xs) (of_nat (length xs)))"

text \<open>With one sample this divides by zero; the result is not used.\<close>

definition GetSampleVarianceDouble :: "double list \<Rightarrow> double" where
  "GetSampleVarianceDouble samples =
     d_div (square_sum (mean_of samples) samples) (of_int (int (length samples) - 1))"

definition CalcVarBounds :: "prob_lib \<Rightarrow> sync_uncertainty \<Rightarrow> sync_uncertainty option" where
  "CalcVarBounds pl su = do {
     let dp = GetPopulationVarianceDouble (win_samples (su_drifts su));
     let ds = GetSampleVarianceDouble (win_samples (su_drifts su));
     let op = GetPopulationVariance (win_samples (su_offsets su));
     db \<leftarrow> upper_confidence_limit_on_std_deviation pl (d_sqrt dp) (up_M (su_config su)) (up_pds (su_config su));
     ob \<leftarrow> upper_confidence_limit_on_std_deviation pl (d_sqrt op) (up_N (su_config su)) (up_pos (su_config su));
     Some (su\<lparr>su_drift_popvar := dp, su_drift_samvar := ds, su_offset_popvar := op,
              su_drift_bound := db, su_offset_bound := ob\<rparr>)
   }"

section \<open>Bounds and their publication\<close>

definition d_ceil :: "double \<Rightarrow> s64" where
  "d_ceil x = s64_of_d (of_int \<lceil>x\<rceil>)"

definition write_bounds :: "qot_bounds \<Rightarrow> tl_translation \<Rightarrow> tl_translation" where
  "write_bounds b p =
     p\<lparr>tr_u_nsec := qot_bounds.u_nsec b, tr_l_nsec := - qot_bounds.l_nsec b,
       tr_u_mult := u_drift b, tr_l_mult := - l_drift b\<rparr>"

definition params_topic :: "string \<Rightarrow> string" where
  "params_topic timeline_uuid = ''qot.timeline.'' @ timeline_uuid @ ''.params''"

text \<open>A publication creates the message and, when that succeeds, publishes it; the
  outcome \<open>create\<close> of the creation becomes the status of the connection.\<close>

definition publish ::
  "(string \<Rightarrow> int) \<Rightarrow> string \<Rightarrow> json \<Rightarrow> sync_uncertainty \<Rightarrow> (string \<times> json) list \<times> sync_uncertainty" where
  "publish create topic data su =
     (if create topic = NATS_OK_SYNC then [(topic, data)] else [],
      su\<lparr>su_nats_status := create topic\<rparr>)"

definition SetBounds ::
  "(string \<Rightarrow> int) \<Rightarrow> tl_translation option \<Rightarrow> qot_bounds \<Rightarrow> string \<Rightarrow> sync_uncertainty
     \<Rightarrow> bool \<times> tl_translation option \<times> (string \<times> json) list \<times> sync_uncertainty" where
  "SetBounds create params b timeline_uuid su =
     (case params of
        None \<Rightarrow> (True, None, [], su)
      | Some p \<Rightarrow>
          let p = write_bounds b p
          in if su_nats_status su = NATS_OK_SYNC
             then let (es, su) = publish create (params_topic timeline_uuid) (serialize_clkparams p) su
                  in (True, Some p, es, su)
             else (True, Some p, [], su))"

definition master_report :: "sync_uncertainty \<Rightarrow> tl_translation \<Rightarrow> json" where
  "master_report su p =
     jset [''desired_accuracy''] (ju (su_desired_accuracy su))
       (jset [''node_uuid''] (JStr (su_node_uuid su)) (serialize_clkparams p))"

definition report_bounds ::
  "(string \<Rightarrow> int) \<Rightarrow> string \<Rightarrow> tl_translation \<Rightarrow> sync_uncertainty
     \<Rightarrow> (string \<times> json) list \<times> sync_uncertainty" where
  "report_bounds create timeline_uuid p su =
     (if su_nats_status su = NATS_OK_SYNC
      then let data = master_report su p;
               (es, su) = publish create (params_topic timeline_uuid) data su
           in if su_master_flag su
              then let (es', su) = publish create (su_master_topic su) data su in (es @ es', su)
              else (es, su)
      else ([], su))"

definition compute_bounds :: "prob_lib \<Rightarrow> sync_uncertainty \<Rightarrow> (qot_bounds \<times> sync_uncertainty) option" where
  "compute_bounds pl su = do {
     su \<leftarrow> CalcVarBounds pl su;
     g \<leftarrow> upper_confidence_limit_gaussian pl (d_sqrt (su_drift_bound su)) (up_pdv (su_config su));
     let rp = d_div (d_mul 2 g) 3;
     let rm = d_mul (d_mul (d_sqrt 2) (su_inv_error_pov su)) (d_sqrt (su_offset_bound su));
     Some (\<lparr>u_drift = d_ceil (d_mul rp 1000000000), l_drift = d_ceil (d_mul (- rp) 1000000000),
            u_nsec = d_ceil rm, l_nsec = d_ceil (- rm)\<rparr>,
           su\<lparr>su_right_predictor := rp, su_left_predictor := - rp,
              su_right_margin := rm, su_left_margin := - rm\<rparr>)
   }"

definition CalculateBounds ::
  "prob_lib \<Rightarrow> (string \<Rightarrow> int) \<Rightarrow> s64 \<Rightarrow> double \<Rightarrow> tl_translation option \<Rightarrow> string \<Rightarrow> sync_uncertainty
     \<Rightarrow> (bool \<times> tl_translation option \<times> (string \<times> json) list \<times> sync_uncertainty) option" where
  "CalculateBounds pl create offset drift params timeline_uuid su = do {
     su \<leftarrow> AddSample offset drift su;
     if size_lt (win_samples (su_drifts su)) (up_M (su_config su))
        \<and> size_lt (win_samples (su_offsets su)) (up_N (su_config su))
     then Some (case params of
         None \<Rightarrow> (False, None, [], su)
       | Some p \<Rightarrow>
           if su_nats_status su = NATS_OK_SYNC
           then let (es, su) = publish create (params_topic timeline_uuid) (serialize_clkparams p) su
                in (False, Some p, es, su)
           else (False, Some p, [], su))
     else do {
       (b, su) \<leftarrow> compute_bounds pl su;
       Some (case params of
           None \<Rightarrow> (True, None, [], su)
         | Some p \<Rightarrow>
             let p = write_bounds b p; (es, su) = report_bounds create timeline_uuid p su
             in (True, Some p, es, su))
     }
   }"

section \<open>Reports to the master\<close>

definition syncmaster_topic :: "string \<Rightarrow> string" where
  "syncmaster_topic uuid = ''qot.timeline.'' @ uuid @ ''.syncmaster''"

fun find_sub :: "string \<Rightarrow> string \<Rightarrow> nat option" where
  "find_sub pat s =
     (if take (length pat) s = pat then Some 0
      else case s of [] \<Rightarrow> None | c # cs \<Rightarrow> map_option Suc (find_sub pat cs))"

declare find_sub.simps [simp del]

text \<open>The timeline's UUID from the topic: \<open>substr\<close> throws behind the end, and a negative
  length reads to the end.\<close>

definition topic_uuid :: "string \<Rightarrow> string option" where
  "topic_uuid subject =
     (let pos_start = length ''qot.timeline.'';
          pos_end = (case find_sub ''.syncmaster'' subject of None \<Rightarrow> - 1 | Some i \<Rightarrow> int i);
          n = pos_end - int pos_start
      in if length subject < pos_start then None
         else Some (if n < 0 then drop pos_start subject else take (nat n) (drop pos_start subject)))"

text \<open>\<open>subscription_handler\<close>: the arguments of the callback.\<close>

definition subscription_handler ::
  "(string \<Rightarrow> json option) \<Rightarrow> tl_translation \<Rightarrow> string \<Rightarrow> string
     \<Rightarrow> (tl_translation \<times> string \<times> string \<times> u64) option" where
  "subscription_handler parse junk subject text = do {
     data \<leftarrow> parse (c_str text);
     p \<leftarrow> deserialize_clkparams data junk;
     node_uuid \<leftarrow> jstr [''node_uuid''] data;
     timeline_uuid \<leftarrow> topic_uuid (c_str subject);
     desired_accuracy \<leftarrow> ju64 [''desired_accuracy''] data;
     Some (p, timeline_uuid, node_uuid, desired_accuracy)
   }"


section \<open>A window holds the most recent samples\<close>

definition win_inv :: "int \<Rightarrow> 'a window \<Rightarrow> bool" where
  "win_inv cap w \<longleftrightarrow> 0 < cap \<and> int (length (win_samples w)) \<le> cap
     \<and> 0 \<le> win_pointer w \<and> win_pointer w < cap
     \<and> (int (length (win_samples w)) < cap \<longrightarrow> win_pointer w = int (length (win_samples w)))"

text \<open>The samples, the newest first.\<close>

definition win_items :: "'a window \<Rightarrow> 'a list" where
  "win_items w = rev (drop (nat (win_pointer w)) (win_samples w) @ take (nat (win_pointer w)) (win_samples w))"

lemma mset_win_items: "mset (win_items w) = mset (win_samples w)"
proof -
  have "mset (win_items w) = mset (take (nat (win_pointer w)) (win_samples w))
      + mset (drop (nat (win_pointer w)) (win_samples w))"
    by (simp add: win_items_def add.commute)
  then show ?thesis
    by (metis append_take_drop_id mset_append)
qed

lemma smod_pos: "0 \<le> a \<Longrightarrow> 0 < c \<Longrightarrow> a smod c = a mod (c :: int)"
  by (simp add: signed_modulo_int_def signed_divide_int_def minus_mult_div_eq_mod sgn_if)

lemma win_pointer_next:
  assumes "win_inv cap w"
  shows "win_pointer (win_add cap x w) = (if win_pointer w + 1 = cap then 0 else win_pointer w + 1)"
  using assms by (auto simp: win_inv_def win_add_def smod_pos)

lemma win_add_growing:
  assumes inv: "win_inv cap w" and room: "int (length (win_samples w)) < cap"
  shows "win_inv cap (win_add cap x w)" "win_items (win_add cap x w) = x # win_items w"
proof -
  have p: "win_pointer w = int (length (win_samples w))"
    using inv room by (simp add: win_inv_def)
  have s: "win_samples (win_add cap x w) = win_samples w @ [x]"
    using room by (simp add: win_add_def size_lt_def)
  show "win_inv cap (win_add cap x w)"
    using inv room p s win_pointer_next [OF inv, of x] by (auto simp: win_inv_def)
  show "win_items (win_add cap x w) = x # win_items w"
    using p s win_pointer_next [OF inv, of x] by (auto simp: win_items_def nat_add_distrib)
qed

lemma win_add_full:
  assumes inv: "win_inv cap w" and full: "int (length (win_samples w)) = cap"
  shows "win_inv cap (win_add cap x w)"
    "win_items (win_add cap x w) = take (nat cap) (x # win_items w)"
proof -
  let ?xs = "win_samples w" let ?p = "nat (win_pointer w)"
  have p: "?p < length ?xs" "win_pointer w = int ?p"
    using inv full nat_less_iff [of "win_pointer w" "length ?xs"] by (simp_all add: win_inv_def)
  have s: "win_samples (win_add cap x w) = ?xs[?p := x]"
    using full inv by (simp add: win_add_def size_lt_def win_inv_def)
  have "0 \<le> win_pointer w" "win_pointer w < cap" "0 < cap"
    using inv by (simp_all add: win_inv_def)
  then show "win_inv cap (win_add cap x w)"
    using full s win_pointer_next [OF inv, of x] by (auto simp: win_inv_def)
  let ?r = "x # rev (drop (Suc ?p) ?xs @ take ?p ?xs)"
  have upd: "?xs[?p := x] = take ?p ?xs @ x # drop (Suc ?p) ?xs"
    using p(1) by (simp add: upd_conv_take_nth_drop)
  have "win_items (win_add cap x w) = ?r"
  proof (cases "win_pointer w + 1 = cap")
    case True
    then have "Suc ?p = length ?xs"
      using full p(2) by linarith
    with True show ?thesis
      using win_pointer_next [OF inv, of x] s upd by (simp add: win_items_def)
  next
    case False
    have "0 \<le> win_pointer w"
      using inv by (simp add: win_inv_def)
    with False have "nat (win_pointer (win_add cap x w)) = Suc ?p"
      using win_pointer_next [OF inv, of x] by (simp add: nat_add_distrib)
    then show ?thesis
      using s upd p(1) by (simp add: win_items_def)
  qed
  also have "?r = take (nat cap) (x # win_items w)"
  proof -
    have "win_items w = rev (drop (Suc ?p) ?xs @ take ?p ?xs) @ [?xs ! ?p]"
      using p(1) by (simp add: win_items_def Cons_nth_drop_Suc [symmetric])
    moreover have "length (rev (drop (Suc ?p) ?xs @ take ?p ?xs)) = nat cap - 1"
      using p(1) full by simp
    moreover have "nat cap = Suc (nat cap - 1)"
      using inv by (simp add: win_inv_def)
    ultimately show ?thesis
      by (metis append_eq_conv_conj take_Suc_Cons)
  qed
  finally show "win_items (win_add cap x w) = take (nat cap) (x # win_items w)" .
qed

lemma length_win_items [simp]: "length (win_items w) = length (win_samples w)"
  by (simp add: win_items_def)

lemma win_add_refines:
  assumes "win_inv cap w"
  shows "win_inv cap (win_add cap x w)"
    and "win_items (win_add cap x w) = recent_add (\<lambda>_ _. True) (nat cap) x (win_items w)"
proof -
  consider "int (length (win_samples w)) < cap" | "int (length (win_samples w)) = cap"
    using assms by (fastforce simp: win_inv_def)
  then have "win_inv cap (win_add cap x w) \<and>
      win_items (win_add cap x w) = take (nat cap) (x # win_items w)"
    by cases (use win_add_growing [OF assms, of x] win_add_full [OF assms, of x] in auto)
  then show "win_inv cap (win_add cap x w)"
    and "win_items (win_add cap x w) = recent_add (\<lambda>_ _. True) (nat cap) x (win_items w)"
    by (simp_all add: recent_add_def)
qed

lemma win_items_bound: "win_inv cap w \<Longrightarrow> length (win_items w) \<le> nat cap"
  by (auto simp: win_inv_def)

interpretation win: recent_items "win_inv cap" win_items "\<lambda>_. nat cap" "\<lambda>_ _. True" "win_add cap"
  by unfold_locales (simp_all add: win_add_refines win_items_bound del: length_win_items)

lemma win_fold:
  assumes "0 < cap"
  shows "win_inv cap (fold (win_add cap) xs \<lparr>win_samples = [], win_pointer = 0\<rparr>)"
    and "win_items (fold (win_add cap) xs \<lparr>win_samples = [], win_pointer = 0\<rparr>) = take (nat cap) (rev xs)"
proof -
  let ?e = "\<lparr>win_samples = [], win_pointer = 0\<rparr> :: 'a window"
  have e: "win_inv cap ?e" "win_items ?e = []"
    using assms by (simp_all add: win_inv_def win_items_def)
  show "win_inv cap (fold (win_add cap) xs ?e)"
    using e(1) by (rule win.fold_wf)
  show "win_items (fold (win_add cap) xs ?e) = take (nat cap) (rev xs)"
    by (simp add: win.fold_items [OF e(1)] e(2) fold_recent_all)
qed

definition add_samples :: "(s64 \<times> double) list \<Rightarrow> sync_uncertainty \<Rightarrow> sync_uncertainty option" where
  "add_samples xs su = fold (\<lambda>(offset, drift) s. s \<bind> AddSample offset drift) xs (Some su)"

lemma win_inv_fits: "win_inv cap w \<Longrightarrow> win_fits cap w"
  by (auto simp: win_inv_def win_fits_def size_lt_def)

lemma add_samples_eq:
  assumes "win_inv (up_M (su_config su)) (su_drifts su)" "win_inv (up_N (su_config su)) (su_offsets su)"
  shows "add_samples xs su = Some (su\<lparr>
     su_drifts := fold (win_add (up_M (su_config su))) (map snd xs) (su_drifts su),
     su_offsets := fold (win_add (up_N (su_config su))) (map fst xs) (su_offsets su)\<rparr>)"
  using assms
proof (induction xs arbitrary: su)
  case (Cons x xs)
  let ?su = "su\<lparr>su_drifts := win_add (up_M (su_config su)) (snd x) (su_drifts su),
                su_offsets := win_add (up_N (su_config su)) (fst x) (su_offsets su)\<rparr>"
  have "add_samples (x # xs) su = add_samples xs ?su"
    using Cons.prems by (simp add: add_samples_def AddSample_def win_inv_fits split: prod.split)
  then show ?case
    using Cons.IH [of ?su] Cons.prems by (simp add: win_add_refines(1))
qed (simp add: add_samples_def)

lemma SyncUncertainty_fresh:
  assumes "SyncUncertainty pl junk cfg = Some su"
  shows "su_config su = cfg" "su_drifts su = \<lparr>win_samples = [], win_pointer = 0\<rparr>"
    "su_offsets su = \<lparr>win_samples = [], win_pointer = 0\<rparr>" "su_master_flag su = False"
    "su_nats_status su = NATS_ERR"
  using assms by (auto simp: SyncUncertainty_def Configure_def bind_eq_Some_conv)

lemma win_inv_empty: "0 < cap \<Longrightarrow> win_inv cap \<lparr>win_samples = [], win_pointer = 0\<rparr>"
  by (simp add: win_inv_def)

text \<open>C29: After any sequence of samples a freshly constructed uncertainty calculation holds
  exactly the last M drifts and the last N offsets, as multisets, and no sample is
  rejected.\<close>

lemma windows_hold_last_samples:
  assumes "SyncUncertainty pl junk cfg = Some su" "0 < up_M cfg" "0 < up_N cfg"
  shows "\<exists>su'. add_samples xs su = Some su' \<and>
     mset (win_samples (su_drifts su')) = mset (take (nat (up_M cfg)) (rev (map snd xs))) \<and>
     mset (win_samples (su_offsets su')) = mset (take (nat (up_N cfg)) (rev (map fst xs)))"
  using assms(2,3) add_samples_eq [of su xs]
  by (simp add: SyncUncertainty_fresh [OF assms(1)] win_inv_empty win_fold flip: mset_win_items)


section \<open>Variances and bounds\<close>

lemma d_div_nonneg: "0 \<le> a \<Longrightarrow> 0 \<le> b \<Longrightarrow> 0 \<le> d_div a b"
  by (simp add: d_div_def fp.rnd_nonneg)

lemma d_mul_nonneg: "0 \<le> a \<Longrightarrow> 0 \<le> b \<Longrightarrow> 0 \<le> d_mul a b"
  by (simp add: d_mul_def fp.rnd_nonneg)

lemma d_mul_minus: "d_mul (- a) b = - d_mul a b"
  by (simp add: d_mul_def fp.rnd_minus)

lemma square_sum_nonneg: "0 \<le> square_sum mean xs"
proof -
  have "0 \<le> fold (\<lambda>x var. d_add var (d_mul (d_sub x mean) (d_sub x mean))) xs v" if "0 \<le> v" for v
    using that by (induction xs arbitrary: v) (simp_all add: d_add_def d_mul_def fp.rnd_nonneg)
  then show ?thesis
    by (simp add: square_sum_def)
qed

lemma variance_nonneg:
  "0 \<le> GetPopulationVarianceDouble xs" "0 \<le> GetPopulationVariance ys"
  by (simp_all add: GetPopulationVarianceDouble_def GetPopulationVariance_def Let_def d_div_nonneg
      square_sum_nonneg)

text \<open>The documented behaviour of the quantile functions the code relies on.\<close>

definition prob_lib_ok :: "prob_lib \<Rightarrow> bool" where
  "prob_lib_ok pl \<longleftrightarrow> (\<forall>df p q. 0 < p \<longrightarrow> pl_chi_squared pl df p = Some q \<longrightarrow> 0 < q)
     \<and> (\<forall>sd p q. 1 / 2 \<le> p \<longrightarrow> pl_normal pl sd p = Some q \<longrightarrow> 0 \<le> q)
     \<and> (\<forall>sd p. sd \<le> 0 \<longrightarrow> pl_normal pl sd p = None)
     \<and> (\<forall>p q. 0 \<le> p \<longrightarrow> pl_erf_inv pl p = Some q \<longrightarrow> 0 \<le> q)"

lemma compute_bounds_signs:
  assumes "prob_lib_ok pl" "1 / 2 \<le> up_pdv (su_config su)" "0 \<le> su_inv_error_pov su"
    and "compute_bounds pl su = Some (b, su')"
  shows "0 \<le> su_right_predictor su'" "0 \<le> su_right_margin su'"
    "b = \<lparr>u_drift = d_ceil (d_mul (su_right_predictor su') 1000000000),
          l_drift = d_ceil (- d_mul (su_right_predictor su') 1000000000),
          u_nsec = d_ceil (su_right_margin su'), l_nsec = d_ceil (- su_right_margin su')\<rparr>"
proof -
  have keep: "su_config s = su_config su \<and> su_inv_error_pov s = su_inv_error_pov su"
    if "CalcVarBounds pl su = Some s" for s
    using that by (auto simp: CalcVarBounds_def Let_def bind_eq_Some_conv)
  obtain s g where s: "CalcVarBounds pl su = Some s"
    and g: "upper_confidence_limit_gaussian pl (d_sqrt (su_drift_bound s)) (up_pdv (su_config s)) = Some g"
    and e: "(b, su') = (let rp = d_div (d_mul 2 g) 3;
              rm = d_mul (d_mul (d_sqrt 2) (su_inv_error_pov s)) (d_sqrt (su_offset_bound s))
          in (\<lparr>u_drift = d_ceil (d_mul rp 1000000000), l_drift = d_ceil (d_mul (- rp) 1000000000),
            u_nsec = d_ceil rm, l_nsec = d_ceil (- rm)\<rparr>,
           s\<lparr>su_right_predictor := rp, su_left_predictor := - rp,
              su_right_margin := rm, su_left_margin := - rm\<rparr>))"
    using assms(4) by (auto simp: compute_bounds_def Let_def bind_eq_Some_conv)
  show "b = \<lparr>u_drift = d_ceil (d_mul (su_right_predictor su') 1000000000),
          l_drift = d_ceil (- d_mul (su_right_predictor su') 1000000000),
          u_nsec = d_ceil (su_right_margin su'), l_nsec = d_ceil (- su_right_margin su')\<rparr>"
    using e by (simp add: Let_def d_mul_minus)
  have "0 \<le> g"
    using assms(1,2) g keep [OF s] unfolding prob_lib_ok_def upper_confidence_limit_gaussian_def by metis
  then show "0 \<le> su_right_predictor su'"
    using e by (simp add: Let_def d_div_nonneg d_mul_nonneg)
  show "0 \<le> su_right_margin su'"
    using e assms(3) keep [OF s] by (simp add: Let_def d_mul_nonneg d_sqrt_nonneg)
qed

text \<open>The predictor and the margin, from the windows.\<close>

definition margins_of :: "prob_lib \<Rightarrow> sync_uncertainty \<Rightarrow> (double \<times> double) option" where
  "margins_of pl su = do {
     let cfg = su_config su;
     db \<leftarrow> upper_confidence_limit_on_std_deviation pl
            (d_sqrt (GetPopulationVarianceDouble (win_samples (su_drifts su)))) (up_M cfg) (up_pds cfg);
     ob \<leftarrow> upper_confidence_limit_on_std_deviation pl
            (d_sqrt (GetPopulationVariance (win_samples (su_offsets su)))) (up_N cfg) (up_pos cfg);
     g \<leftarrow> upper_confidence_limit_gaussian pl (d_sqrt db) (up_pdv cfg);
     Some (d_div (d_mul 2 g) 3, d_mul (d_mul (d_sqrt 2) (su_inv_error_pov su)) (d_sqrt ob))
   }"

lemma compute_bounds_margins:
  assumes "compute_bounds pl su = Some (b, su')"
  shows "margins_of pl su = Some (su_right_predictor su', su_right_margin su')"
    and "su_nats_status su' = su_nats_status su" "su_master_flag su' = su_master_flag su"
    and "su_master_topic su' = su_master_topic su" "master_report su' = master_report su"
  using assms
  by (auto simp: compute_bounds_def CalcVarBounds_def margins_of_def master_report_def bind_eq_Some_conv Let_def)

lemma s64_of_d_near:
  assumes "0 \<le> i" "i \<le> 2 ^ 62"
  shows "sint (s64_of_d (of_int i)) = i" "sint (- s64_of_d (- of_int i)) = i"
proof -
  have t: "rtrunc (of_int i) = i" "rtrunc (- of_int i) = - i"
    by (simp_all add: rtrunc_def ceiling_minus)
  show "sint (s64_of_d (of_int i)) = i"
    by (rule sint_eqI) (use assms in \<open>simp_all add: s64_of_d_def t Let_def\<close>)
  show "sint (- s64_of_d (- of_int i)) = i"
    by (rule sint_eqI) (use assms in \<open>simp_all add: s64_of_d_def t Let_def\<close>)
qed

lemma d_ceil_pair:
  assumes "0 \<le> x" "x < 2 ^ 62"
  shows "sint (d_ceil x) = \<lceil>x\<rceil>" "sint (- d_ceil (- x)) = \<lfloor>x\<rfloor>"
proof -
  have c: "0 \<le> \<lceil>x\<rceil>" "\<lceil>x\<rceil> \<le> 2 ^ 62" "0 \<le> \<lfloor>x\<rfloor>" "\<lfloor>x\<rfloor> \<le> 2 ^ 62"
    using assms by (simp_all add: le_ceiling_iff ceiling_le_iff floor_le_iff)
  show "sint (d_ceil x) = \<lceil>x\<rceil>"
    unfolding d_ceil_def by (rule s64_of_d_near(1) [OF c(1,2)])
  show "sint (- d_ceil (- x)) = \<lfloor>x\<rfloor>"
    unfolding d_ceil_def ceiling_minus of_int_minus by (rule s64_of_d_near(2) [OF c(3,4)])
qed

lemma report_bounds_frame:
  assumes "report_bounds create uuid p su = (es, su')"
  shows "su_right_predictor su' = su_right_predictor su" "su_right_margin su' = su_right_margin su"
  using assms by (auto simp: report_bounds_def publish_def Let_def split: if_splits)

text \<open>What a successful calculation writes.\<close>

lemma CalculateBounds_written:
  assumes "CalculateBounds pl create offset drift (Some p) uuid su = Some (True, p', es, su')"
  obtains s1 b s2 where "AddSample offset drift su = Some s1" "compute_bounds pl s1 = Some (b, s2)"
    "p' = Some (write_bounds b p)" "report_bounds create uuid (write_bounds b p) s2 = (es, su')"
proof -
  obtain s1 where s1: "AddSample offset drift su = Some s1"
    using assms by (auto simp: CalculateBounds_def bind_eq_Some_conv)
  have full: "\<not> (size_lt (win_samples (su_drifts s1)) (up_M (su_config s1))
      \<and> size_lt (win_samples (su_offsets s1)) (up_N (su_config s1)))"
    using assms by (auto simp: CalculateBounds_def s1 split: if_splits prod.splits)
  obtain b s2 where b: "compute_bounds pl s1 = Some (b, s2)"
    using assms full by (auto simp: CalculateBounds_def s1 bind_eq_Some_conv)
  show thesis
    using that [OF s1 b] assms full by (simp add: CalculateBounds_def s1 b Let_def split: prod.splits)
qed

text \<open>What is sent: to the subscribers of the timeline, and to the master when there is one.\<close>

definition sent_on :: "(string \<Rightarrow> int) \<Rightarrow> string \<Rightarrow> json \<Rightarrow> (string \<times> json) list" where
  "sent_on create topic data = (if create topic = NATS_OK_SYNC then [(topic, data)] else [])"

lemma report_bounds_sent:
  assumes "report_bounds create uuid p su = (es, su')"
  shows "es = (if su_nats_status su = NATS_OK_SYNC
     then sent_on create (params_topic uuid) (master_report su p) @
       (if su_master_flag su then sent_on create (su_master_topic su) (master_report su p) else [])
     else [])"
  using assms by (auto simp: report_bounds_def publish_def sent_on_def Let_def split: if_splits)

text \<open>C30: The bounds a successful calculation writes to the clock parameters, when the quantile
  pdv is at least one half and margin and drift stay below 2^62: the margin and the
  predictor are those computed from the windows with the new sample; the upper bounds of
  offset and drift are the margin, and the predictor times 10^9, rounded up, the lower
  ones the same rounded down, none negative; the translation itself is not touched; and
  exactly these parameters, with the node and the accuracy it wants, are published for the
  timeline and, when there is one, for the master.\<close>

lemma published_bounds_enclose:
  assumes "CalculateBounds pl create offset drift (Some p) uuid su = Some (True, Some p', es, su')"
    and "prob_lib_ok pl" "1 / 2 \<le> up_pdv (su_config su)" "0 \<le> su_inv_error_pov su"
    and "su_right_margin su' < 2 ^ 62" "d_mul (su_right_predictor su') 1000000000 < 2 ^ 62"
  shows "AddSample offset drift su \<bind> margins_of pl = Some (su_right_predictor su', su_right_margin su') \<and>
         0 \<le> su_right_margin su' \<and> 0 \<le> su_right_predictor su' \<and>
         sint (tr_u_nsec p') = \<lceil>su_right_margin su'\<rceil> \<and> sint (tr_l_nsec p') = \<lfloor>su_right_margin su'\<rfloor> \<and>
         sint (tr_u_mult p') = \<lceil>d_mul (su_right_predictor su') 1000000000\<rceil> \<and>
         sint (tr_l_mult p') = \<lfloor>d_mul (su_right_predictor su') 1000000000\<rfloor> \<and>
         tr_last p' = tr_last p \<and> tr_mult p' = tr_mult p \<and> tr_nsec p' = tr_nsec p \<and>
         es = (if su_nats_status su = NATS_OK_SYNC
               then sent_on create (params_topic uuid) (master_report su p') @
                 (if su_master_flag su then sent_on create (su_master_topic su) (master_report su p') else [])
               else [])"
proof -
  obtain s1 b s2 where s: "AddSample offset drift su = Some s1" "compute_bounds pl s1 = Some (b, s2)"
    "Some p' = Some (write_bounds b p)" "report_bounds create uuid (write_bounds b p) s2 = (es, su')"
    using assms(1) by (rule CalculateBounds_written)
  note fr = report_bounds_frame [OF s(4)]
  have k: "up_pdv (su_config s1) = up_pdv (su_config su)" "su_inv_error_pov s1 = su_inv_error_pov su"
      "su_nats_status s1 = su_nats_status su" "su_master_flag s1 = su_master_flag su"
      "su_master_topic s1 = su_master_topic su" "master_report s1 = master_report su"
    using s(1) by (auto simp: AddSample_def master_report_def split: if_splits)
  note sg = compute_bounds_signs [OF assms(2) _ _ s(2), unfolded k, OF assms(3,4)]
  have x: "0 \<le> d_mul (su_right_predictor s2) 1000000000"
    using sg(1) by (simp add: d_mul_nonneg)
  note m = d_ceil_pair [OF x assms(6) [unfolded fr]] and n = d_ceil_pair [OF sg(2) assms(5) [unfolded fr]]
  have p': "p' = write_bounds b p"
    using s(3) by simp
  note c = compute_bounds_margins [OF s(2), unfolded k]
  have "es = (if su_nats_status su = NATS_OK_SYNC
       then sent_on create (params_topic uuid) (master_report su p') @
         (if su_master_flag su then sent_on create (su_master_topic su) (master_report su p') else [])
       else [])"
    unfolding report_bounds_sent [OF s(4)] c(2-5) p' ..
  then show ?thesis
    using sg(1,2) c(1) by (simp add: p' write_bounds_def sg(3) m n fr s(1))
qed

section \<open>A clock without drift\<close>

lemma zero_sum:
  assumes "set xs \<subseteq> {0}"
  shows "mean_of xs = 0" "square_sum 0 xs = 0"
proof -
  have z: "xs = replicate (length xs) 0"
    using assms by (metis replicate_length_same subset_eq singletonD)
  have "fold (\<lambda>x mean. d_add mean x) (replicate n 0) 0 = 0"
    "fold (\<lambda>x var. d_add var (d_mul (d_sub x 0) (d_sub x 0))) (replicate n 0) 0 = 0" for n
    by (induction n) (simp_all add: d_add_def d_mul_def d_sub_def)
  from this [of "length xs"] show "mean_of xs = 0" "square_sum 0 xs = 0"
    by (simp_all add: mean_of_def square_sum_def d_div_def flip: z)
qed

lemma zero_drift_no_bounds:
  assumes "prob_lib_ok pl" "set (win_samples (su_drifts su)) \<subseteq> {0}"
  shows "compute_bounds pl su = None"
proof -
  have "su_drift_bound s = 0" if "CalcVarBounds pl su = Some s" for s
    using that
    by (auto simp: CalcVarBounds_def Let_def bind_eq_Some_conv GetPopulationVarianceDouble_def
        zero_sum [OF assms(2)] upper_confidence_limit_on_std_deviation_def d_div_def d_mul_def
        d_sqrt_def split: if_splits)
  moreover have "pl_normal pl 0 p = None" for p
    using assms(1) by (simp add: prob_lib_ok_def)
  ultimately show ?thesis
    by (auto simp: compute_bounds_def upper_confidence_limit_gaussian_def d_sqrt_def
        split: bind_splits)
qed

text \<open>C31: When at least M - 1 samples have been added since construction, the last M - 1 of
  them with drift zero whatever came before, and one more sample has drift zero, the
  calculation of the bounds throws: the variance of the drifts in the window is zero and
  Boost refuses a normal distribution of standard deviation zero.\<close>

lemma zero_drift_throws:
  assumes "SyncUncertainty pl junk cfg = Some su" "0 < up_M cfg" "0 < up_N cfg" "prob_lib_ok pl"
    and "\<forall>(offset, drift) \<in> set (drop (length xs - (nat (up_M cfg) - 1)) xs). drift = 0"
    and "up_M cfg \<le> int (length xs) + 1"
  shows "add_samples xs su \<bind> CalculateBounds pl create offset 0 params uuid = None"
proof -
  let ?xs = "xs @ [(offset, 0)]"
  let ?w = "fold (win_add (up_M cfg)) (map snd ?xs) \<lparr>win_samples = [], win_pointer = 0\<rparr>"
  let ?v = "fold (win_add (up_N cfg)) (map fst ?xs) \<lparr>win_samples = [], win_pointer = 0\<rparr>"
  have m: "mset (win_samples ?w) = mset (take (nat (up_M cfg)) (rev (map snd ?xs)))"
    using assms(2) by (simp only: win_fold flip: mset_win_items)
  obtain n where n: "nat (up_M cfg) = Suc n"
    using assms(2) by (cases "nat (up_M cfg)") simp_all
  have "take (nat (up_M cfg)) (rev (map snd ?xs)) = 0 # rev (map snd (drop (length xs - n) xs))"
    by (simp add: n take_rev drop_map)
  then have "set (win_samples ?w) = insert 0 (snd ` set (drop (length xs - n) xs))"
    using mset_eq_setD [OF m] by simp
  then have zero: "set (win_samples ?w) \<subseteq> {0}"
    using assms(5) by (auto simp: n)
  have full: "\<not> size_lt (win_samples ?w) (up_M cfg)"
    using arg_cong [OF m, of size] assms(2,6) by (simp add: size_lt_def)
  have "add_samples ?xs su = Some (su\<lparr>su_drifts := ?w, su_offsets := ?v\<rparr>)"
    using assms(2,3) add_samples_eq [of su ?xs]
    by (simp only: SyncUncertainty_fresh [OF assms(1)] win_inv_empty)
  moreover have "add_samples ?xs su = add_samples xs su \<bind> AddSample offset 0"
    by (simp add: add_samples_def)
  ultimately have "add_samples xs su \<bind> AddSample offset 0 = Some (su\<lparr>su_drifts := ?w, su_offsets := ?v\<rparr>)"
    by simp
  then obtain s where s: "add_samples xs su = Some s" "AddSample offset 0 s = Some (su\<lparr>su_drifts := ?w, su_offsets := ?v\<rparr>)"
    by (auto simp: bind_eq_Some_conv)
  have "compute_bounds pl (su\<lparr>su_drifts := ?w, su_offsets := ?v\<rparr>) = None"
    using assms(4) zero by (intro zero_drift_no_bounds) simp_all
  then show ?thesis
    using full by (simp add: s CalculateBounds_def SyncUncertainty_fresh [OF assms(1)])
qed

section \<open>A report reaches the master unchanged\<close>

lemma find_sub_dot:
  "CHR ''.'' \<notin> set u \<Longrightarrow> find_sub (CHR ''.'' # p) (u @ CHR ''.'' # p) = Some (length u)"
  by (induction u) (auto simp: find_sub.simps)

lemma find_syncmaster:
  assumes "CHR ''.'' \<notin> set uuid" "take 10 uuid \<noteq> ''syncmaster''"
  shows "find_sub ''.syncmaster'' (syncmaster_topic uuid) = Some (13 + length uuid)"
proof -
  have ne: "take 10 (uuid @ ''.syncmaster'') \<noteq> ''syncmaster''"
  proof (cases "length uuid < 10")
    case True
    then have "CHR ''.'' \<in> set (take 10 (uuid @ ''.syncmaster''))"
      by (simp add: take_Cons')
    moreover have "CHR ''.'' \<notin> set ''syncmaster''"
      by simp
    ultimately show ?thesis
      by metis
  qed (use assms(2) in simp)
  then show ?thesis
    using find_sub_dot [OF assms(1), of "''syncmaster''"]
    by (simp add: syncmaster_topic_def find_sub.simps [of _ "_ # _"] eval_nat_numeral)
qed

lemma topic_uuid_syncmaster:
  assumes "CHR ''.'' \<notin> set uuid" "take 10 uuid \<noteq> ''syncmaster''"
  shows "topic_uuid (syncmaster_topic uuid) = Some uuid"
  using find_syncmaster [OF assms] by (simp add: topic_uuid_def syncmaster_topic_def)

lemma c_str_id: "CHR 0x00 \<notin> set s \<Longrightarrow> c_str s = s"
  by (auto simp: c_str_def takeWhile_eq_all_conv)

lemma report_read_back:
  assumes "parse (c_str text) = Some (master_report su p)"
    and "CHR ''.'' \<notin> set uuid" "CHR 0x00 \<notin> set uuid" "take 10 uuid \<noteq> ''syncmaster''"
  shows "subscription_handler parse junk (syncmaster_topic uuid) text =
    Some (p\<lparr>tr_slope := tr_slope junk\<rparr>, uuid, su_node_uuid su, su_desired_accuracy su)"
proof -
  have "c_str (syncmaster_topic uuid) = syncmaster_topic uuid"
    using assms(3) by (intro c_str_id) (simp add: syncmaster_topic_def)
  moreover have "deserialize_clkparams (master_report su p) junk = Some (p\<lparr>tr_slope := tr_slope junk\<rparr>)"
    "jstr [''node_uuid''] (master_report su p) = Some (su_node_uuid su)"
    "ju64 [''desired_accuracy''] (master_report su p) = Some (su_desired_accuracy su)"
    by (simp_all add: master_report_def serialize_clkparams_def deserialize_clkparams_def json_eval)
  ultimately show ?thesis
    by (simp add: subscription_handler_def assms(1) topic_uuid_syncmaster [OF assms(2,4)])
qed


section \<open>Worked examples\<close>

lemma isqrt_eq: "r * r \<le> n \<Longrightarrow> n < (r + 1) * (r + 1) \<Longrightarrow> isqrt n = r"
  using isqrt_bounds [of n] mult_le_mono [of "r + 1" "isqrt n" "r + 1" "isqrt n"]
    mult_le_mono [of "isqrt n + 1" r "isqrt n + 1" r]
  by (cases "isqrt n" r rule: linorder_cases) simp_all

lemma rexp_eval: "rexp 1 = 0" "rexp 2 = 1"
  by code_simp+

lemma rnd_ints: "rnd64 1 = 1" "numeral k \<le> (2 ^ 53 :: int) \<Longrightarrow> rnd64 (numeral k) = numeral k"
  using rnd64_of_int [of 1] rnd64_of_int [of "numeral k"] by simp_all

lemma d_sqrt_1: "d_sqrt 1 = 1"
proof -
  have "isqrt (2 ^ 112) = 2 ^ 56"
    by (rule isqrt_eq) simp_all
  moreover have "rnd64 1 = 1"
    by (rule rnd_ints)
  ultimately show ?thesis
    by (simp add: d_sqrt_def rexp_eval Let_def)
qed

lemma d_sqrt_2: "d_sqrt 2 \<le> 2"
proof -
  have "isqrt (2 ^ 113) = 101904826760412361"
    by (rule isqrt_eq) simp_all
  then show ?thesis
    using fp.rnd_le_int [of 2] by (simp add: d_sqrt_def rexp_eval Let_def)
qed

definition ex_prob_lib :: prob_lib where
  "ex_prob_lib = \<lparr>pl_chi_squared = \<lambda>_ _. Some 1, pl_chi_squared_complement = \<lambda>_ _. Some 1,
     pl_normal = \<lambda>sd _. if sd \<le> 0 then None else Some 3, pl_erf_inv = \<lambda>_. Some 1\<rparr>"

lemma ex_prob_lib_ok: "prob_lib_ok ex_prob_lib"
  by (simp add: prob_lib_ok_def ex_prob_lib_def)

definition ex_config :: uncertainty_params where
  "ex_config = \<lparr>up_M = 2, up_N = 2, up_pds = 1 / 2, up_pdv = 3 / 4, up_pos = 1 / 2, up_pov = 1 / 2\<rparr>"

definition ex_su :: sync_uncertainty where
  "ex_su = \<lparr>su_config = ex_config, su_offsets = \<lparr>win_samples = [0], win_pointer = 1\<rparr>,
     su_drifts = \<lparr>win_samples = [0], win_pointer = 1\<rparr>, su_drift_popvar = 0, su_drift_samvar = 0,
     su_offset_popvar = 0, su_drift_bound = 0, su_offset_bound = 0, su_inv_error_pov = 1,
     su_right_predictor = 0, su_left_predictor = 0, su_right_margin = 0, su_left_margin = 0,
     su_nats_status = 0, su_nats_status_flag = 1, su_sub = None, su_master_topic = syncmaster_topic ''tl'',
     su_master_flag = True, su_node_uuid = ''node'', su_desired_accuracy = 1000\<rparr>"

lemma ex_fresh: "\<exists>su. SyncUncertainty ex_prob_lib ex_su ex_config = Some su"
  by (simp add: SyncUncertainty_def Configure_def get_inverse_error_func_def ex_prob_lib_def)

lemma windows_hold_last_samples_witness:
  "\<exists>su su'. SyncUncertainty ex_prob_lib ex_su ex_config = Some su \<and>
     add_samples [(1, 5), (2, 6), (3, 7)] su = Some su' \<and>
     mset (win_samples (su_drifts su')) = {#7, 6#} \<and> mset (win_samples (su_offsets su')) = {#3, 2#}"
proof -
  obtain su where su: "SyncUncertainty ex_prob_lib ex_su ex_config = Some su"
    using ex_fresh by blast
  show ?thesis
    using windows_hold_last_samples [OF su, of "[(1, 5), (2, 6), (3, 7)]"] su
    by (simp add: ex_config_def add_mset_commute)
qed

lemma zero_drift_throws_witness:
  "\<exists>su. SyncUncertainty ex_prob_lib ex_su ex_config = Some su \<and>
     add_samples [(3, 9), (5, 0)] su \<bind> CalculateBounds ex_prob_lib (\<lambda>_. 0) 7 0 None ''tl'' = None"
proof -
  obtain su where su: "SyncUncertainty ex_prob_lib ex_su ex_config = Some su"
    using ex_fresh by blast
  show ?thesis
    using zero_drift_throws [OF su _ _ ex_prob_lib_ok, of "[(3, 9), (5, 0)]"] su
    by (simp add: ex_config_def)
qed

lemma ex_drift_variance: "GetPopulationVarianceDouble [0, 2] = 1"
  by (simp add: GetPopulationVarianceDouble_def mean_of_def square_sum_def d_add_def d_sub_def d_mul_def
      d_div_def rnd_ints rnd64_minus)

lemma ex_offset_variance: "GetPopulationVariance [0, 2] = 1"
  using ex_drift_variance
  by (simp add: GetPopulationVariance_def GetPopulationVarianceDouble_def d_of_s64_def rnd_ints)

lemma ex_roundings:
  "d_mul (d_mul 1 1) 1 = 1" "d_div 1 1 = 1" "d_div (d_mul 2 3) 3 = 2" "d_mul 2 1000000000 = 2000000000"
  by (simp_all add: d_mul_def d_div_def rnd_ints)

lemma ex_margin: "d_mul (d_mul (d_sqrt 2) 1) 1 \<le> 2"
  using fp.rnd_le_int [of 2 "d_sqrt 2"] fp.rnd_le_int [of 2 "rnd64 (d_sqrt 2)"] d_sqrt_2
  by (simp add: d_mul_def)

lemma ex_bounds:
  assumes "AddSample 2 2 ex_su = Some s"
  obtains b s' where "compute_bounds ex_prob_lib s = Some (b, s')" "su_right_predictor s' = 2"
    "su_right_margin s' \<le> 2"
proof -
  have s: "s = ex_su\<lparr>su_drifts := \<lparr>win_samples = [0, 2], win_pointer = 0\<rparr>,
                     su_offsets := \<lparr>win_samples = [0, 2], win_pointer = 0\<rparr>\<rparr>"
    using assms
    by (simp add: AddSample_def ex_su_def ex_config_def win_fits_def size_lt_def win_add_def smod_pos)
  obtain c where "CalcVarBounds ex_prob_lib s = Some c" "su_drift_bound c = 1" "su_offset_bound c = 1"
    "su_config c = ex_config" "su_inv_error_pov c = 1"
    by (simp add: CalcVarBounds_def s ex_su_def ex_drift_variance ex_offset_variance d_sqrt_1
        upper_confidence_limit_on_std_deviation_def ex_prob_lib_def ex_config_def ex_roundings)
  then show thesis
    using that
    by (simp add: compute_bounds_def upper_confidence_limit_gaussian_def ex_prob_lib_def d_sqrt_1
        ex_margin ex_roundings Let_def)
qed

definition ex_published :: tl_translation where
  "ex_published = \<lparr>tr_last = 10, tr_mult = 300, tr_nsec = 5, tr_u_nsec = 7, tr_l_nsec = 7, tr_u_mult = 0,
     tr_l_mult = 0, tr_slope = 0\<rparr>"

lemma published_bounds_enclose_witness:
  "\<exists>p' es su'. CalculateBounds ex_prob_lib (\<lambda>_. 0) 2 2 (Some ex_published) ''tl'' ex_su =
       Some (True, Some p', es, su') \<and>
     sint (tr_u_mult p') = 2000000000 \<and> sint (tr_l_mult p') = 2000000000 \<and>
     sint (tr_u_nsec p') = \<lceil>su_right_margin su'\<rceil> \<and> sint (tr_l_nsec p') = \<lfloor>su_right_margin su'\<rfloor> \<and>
     tr_last p' = tr_last ex_published"
proof -
  obtain s where s: "AddSample 2 2 ex_su = Some s"
    by (simp add: AddSample_def ex_su_def ex_config_def win_fits_def size_lt_def)
  obtain b s' where b: "compute_bounds ex_prob_lib s = Some (b, s')" "su_right_predictor s' = 2"
    "su_right_margin s' \<le> 2"
    using s by (rule ex_bounds)
  obtain es su' where r: "report_bounds (\<lambda>_. 0) ''tl'' (write_bounds b ex_published) s' = (es, su')"
    by fastforce
  have "\<not> (size_lt (win_samples (su_drifts s)) (up_M (su_config s)) \<and> size_lt (win_samples (su_offsets s)) (up_N (su_config s)))"
    using s by (auto simp: AddSample_def ex_su_def ex_config_def win_fits_def size_lt_def win_add_def)
  then have c: "CalculateBounds ex_prob_lib (\<lambda>_. 0) 2 2 (Some ex_published) ''tl'' ex_su =
       Some (True, Some (write_bounds b ex_published), es, su')"
    by (simp add: CalculateBounds_def s b r Let_def)
  then show ?thesis
    using published_bounds_enclose [OF c ex_prob_lib_ok] report_bounds_frame [OF r] b(2,3)
    by (simp add: ex_su_def ex_config_def ex_roundings)
qed

end
