(* ===== verification/Sync_Base.thy ===== *)
theory Sync_Base
  imports Sync_Uncertainty
begin

text \<open>
  What the synchronisation plug-ins share: \<open>sync/Sync.hpp\<close> and \<open>sync/Sync.cpp\<close> (the
  kinds of plug-in, the options of their external control, the factory's
  configuration, the test for private addresses), and the scanning of numbers the
  sync service uses (\<open>sscanf\<close> and \<open>std::stoi\<close> with a detected base).
\<close>

section \<open>Scanning numbers\<close>

text \<open>The value of a character as a digit, as \<open>strtol\<close> reads it; 99 is no digit.\<close>

definition digit_val :: "char \<Rightarrow> nat" where
  "digit_val c = (let n = of_char c
     in if 48 \<le> n \<and> n \<le> 57 then n - 48
        else if 97 \<le> n \<and> n \<le> 122 then n - 87
        else if 65 \<le> n \<and> n \<le> 90 then n - 55 else 99)"

definition digits_in :: "nat \<Rightarrow> string \<Rightarrow> string" where
  "digits_in base s = takeWhile (\<lambda>c. digit_val c < base) s"

definition number_in :: "nat \<Rightarrow> string \<Rightarrow> nat" where
  "number_in base ds = foldl (\<lambda>a c. a * base + digit_val c) 0 ds"

definition clamp64 :: "int \<Rightarrow> int" where
  "clamp64 i = max (- (2 ^ 63)) (min i (2 ^ 63 - 1))"

text \<open>White space, a sign, and what follows.\<close>

definition scan_sign :: "string \<Rightarrow> bool \<times> string" where
  "scan_sign s = (case dropWhile is_space s of
      [] \<Rightarrow> (False, [])
    | c # cs \<Rightarrow> if c = CHR ''-'' then (True, cs) else if c = CHR ''+'' then (False, cs) else (False, c # cs))"

definition signed_val :: "bool \<Rightarrow> nat \<Rightarrow> int" where
  "signed_val neg n = clamp64 (if neg then - int n else int n)"

text \<open>The conversion \<open>%d\<close>: read as a \<open>long\<close>, stored in an \<open>int\<close>.\<close>

definition scan_d :: "string \<Rightarrow> (int \<times> string) option" where
  "scan_d s =
     (let (neg, t) = scan_sign s; ds = digits_in 10 t
      in if ds = [] then None else Some (s32 (signed_val neg (number_in 10 ds)), drop (length ds) t))"

definition scan_char :: "char \<Rightarrow> string \<Rightarrow> string option" where
  "scan_char c s = (case s of [] \<Rightarrow> None | x # xs \<Rightarrow> if x = c then Some xs else None)"

text \<open>\<open>std::stoi(s, nullptr, 0)\<close>: hexadecimal after \<open>0x\<close>, octal after \<open>0\<close>; it throws without a
  digit and outside the range of \<open>int\<close>.\<close>

definition stoi_auto :: "string \<Rightarrow> int option" where
  "stoi_auto s =
     (let (neg, t) = scan_sign (c_str s);
          hex = (length t > 2 \<and> t ! 0 = CHR ''0'' \<and> (t ! 1 = CHR ''x'' \<or> t ! 1 = CHR ''X'') \<and> digit_val (t ! 2) < 16);
          base = (if hex then 16 else if t \<noteq> [] \<and> t ! 0 = CHR ''0'' then 8 else 10);
          ds = digits_in base (if hex then drop 2 t else t);
          v = signed_val neg (number_in base ds)
      in if ds = [] \<or> \<not> int32 v then None else Some v)"

section \<open>Kinds of synchronisation\<close>

datatype sync_type = SYNC_NTP | SYNC_PTP | SYNC_PULSESYNC | SYNC_FTSP

datatype ext_ctrl_options =
    REQ_LOCAL_TL_CLOCK_MAIN
  | REQ_LOCAL_TL_CLOCK_OV
  | SET_PUBSUB_SERVER
  | MODIFY_SYNC_PARAMS
  | GET_TIMELINE_SERVER
  | SET_TIMELINE_SERVER
  | ADD_TL_SYNC_DATA
  | DEL_TL_SYNC_DATA
  | SET_INIT_SYNC_CFG

text \<open>What the \<open>void**\<close> of the external control points to, by the type the callee casts it
  to.  Arrays indexed by a timeline's number have \<open>MAX_TIMELINES\<close> elements.\<close>

datatype ext_arg =
    Ptr_null
  | Ptr_text string
  | Ptr_index int
  | Ptr_msg syncmsg
  | Ptr_server qot_server
  | Ptr_clock tl_translation

definition MAX_TIMELINES :: int where "MAX_TIMELINES = 5"

definition ENOTSUP :: int where "ENOTSUP = 95"

text \<open>The configuration the factory passes to the plug-ins.\<close>

definition uncertainty_config :: uncertainty_params where
  "uncertainty_config =
     (let p = rnd64 (999999 / 1000000)
      in \<lparr>up_M = 50, up_N = 50, up_pds = p, up_pdv = p, up_pos = p, up_pov = p\<rparr>)"

text \<open>A cleared statistic.\<close>

definition stat0 :: qot_stat where
  "stat0 = \<lparr>st_offset = 0, st_drift = 0, st_data_id = 0\<rparr>"

text \<open>The accuracy a request demands, in nanoseconds.\<close>

definition demanded_accuracy :: "timequality \<Rightarrow> u64" where
  "demanded_accuracy demand =
     tl_sec (above (tq_accuracy demand)) * 1000000000 + tl_asec (above (tq_accuracy demand)) div 1000000000"

section \<open>Private addresses\<close>

text \<open>\<open>sscanf\<close> with the format \<open>%d.%d.%d.%d\<close>.\<close>

definition scan_ip :: "string \<Rightarrow> (int \<times> int \<times> int \<times> int) option" where
  "scan_ip s = do {
     (a, s) \<leftarrow> scan_d s;
     s \<leftarrow> scan_char CHR ''.'' s;
     (b, s) \<leftarrow> scan_d s;
     s \<leftarrow> scan_char CHR ''.'' s;
     (c, s) \<leftarrow> scan_d s;
     s \<leftarrow> scan_char CHR ''.'' s;
     (d, s) \<leftarrow> scan_d s;
     Some (a, b, c, d)
   }"

definition IPtoUint :: "string \<Rightarrow> 32 word" where
  "IPtoUint ip =
     (case scan_ip (c_str ip) of
        None \<Rightarrow> 0
      | Some (a, b, c, d) \<Rightarrow>
          or (or (or (push_bit 24 (word_of_int a)) (push_bit 16 (word_of_int b)))
            (push_bit 8 (word_of_int c))) (word_of_int d))"

definition IsIPprivate :: "string \<Rightarrow> bool" where
  "IsIPprivate ip \<longleftrightarrow>
     and (IPtoUint ip) 0x0A000000 = 0x0A000000
   \<or> and (IPtoUint ip) 0xAC100000 = 0xAC100000
   \<or> and (IPtoUint ip) 0xC0A80000 = 0xC0A80000"


section \<open>Lemmas\<close>

lemma demanded_accuracy_exact:
  assumes "tl_val (above (tq_accuracy demand)) div 10 ^ 9 < 2 ^ 64"
  shows "unat (demanded_accuracy demand) = tl_val (above (tq_accuracy demand)) div 10 ^ 9"
proof -
  let ?a = "above (tq_accuracy demand)"
  have v: "tl_val ?a div 10 ^ 9 = unat (tl_sec ?a) * 10 ^ 9 + unat (tl_asec ?a) div 10 ^ 9"
  proof -
    have d: "(k * 10 ^ 9 + r) div 10 ^ 9 = k + r div 10 ^ 9" for k r :: nat
      by (rule div_mult_self3) simp
    have "tl_val ?a = unat (tl_sec ?a) * 10 ^ 9 * 10 ^ 9 + unat (tl_asec ?a)"
      by (simp add: tl_val_def)
    then show ?thesis
      by (simp only: d)
  qed
  have m: "unat (tl_sec ?a * 1000000000) = unat (tl_sec ?a) * 10 ^ 9"
    using assms unfolding v by (subst unat_mult_nowrap) simp_all
  show ?thesis
    using assms unfolding v demanded_accuracy_def
    by (subst unat_add_nowrap) (simp_all add: m unat_div)
qed

text \<open>The masks test only that the bits of the prefix are set: public addresses pass.\<close>

lemma private_check_too_wide: "\<not> IsIPprivate ''8.8.8.8'' \<and> IsIPprivate ''11.1.2.3''"
  by (simp add: IsIPprivate_def IPtoUint_def scan_ip_def scan_d_def scan_sign_def scan_char_def c_str_def
      is_space_def digits_in_def digit_val_def number_in_def signed_val_def clamp64_def s32_def Let_def)

end
