(* ===== verification/Ptp_Sync.thy ===== *)
theory Ptp_Sync
  imports Sync_Base
begin

text \<open>
  The PTP plug-in of the sync service, \<open>sync/ptp/PTP18.cpp\<close>: start and stop, external
  control, the iterations of the synchronisation thread, and the tuning of the
  synchronisation rate by the master from the reports of the other nodes.

  The daemon itself (linuxptp, vendored) appears as the values it leaves: the outcome of
  \<open>clock_poll\<close>, the clock parameters in shared memory, the latest statistic and the
  flag that tells whether this node is the master.
\<close>

section \<open>State\<close>

record accuracy_vector =
  av_delivered :: u64
  av_desired :: u64

text \<open>The globals of the process.  The values of the options live in the static table of
  linuxptp's \<open>config.c\<close>, which every configuration refers to: \<open>config_set_int\<close> writes the
  table, whichever configuration it is given.  A configuration is known by a number;
  \<open>pg_live\<close> are those not destroyed.\<close>

record ptp_globals =
  pg_items :: "string \<Rightarrow> int"
  pg_live :: "nat list"
  pg_next :: nat
  pg_config_map :: "string \<rightharpoonup> nat"
  pg_qot :: "string \<Rightarrow> (string \<times> accuracy_vector) list"
  pg_point :: "int \<Rightarrow> qot_stat"

record ptp18 =
  pt_cfg :: "nat option"
  pt_timeline_uuid :: string
  pt_node_uuid :: string
  pt_kill :: bool
  pt_thread :: bool
  pt_su :: sync_uncertainty
  pt_last :: qot_stat
  pt_desired_accuracy :: u64
  pt_clk_params :: "tl_translation option"
  pt_nats_server :: string
  pt_subscriber :: bool

text \<open>linuxptp's configurations; memory for one is always found.  Options are integer options
  of the table, set and read without a section; a configuration that was destroyed, or
  none, is dereferenced.\<close>

definition config_create :: "ptp_globals \<Rightarrow> nat \<times> ptp_globals" where
  "config_create g = (pg_next g, g\<lparr>pg_live := pg_next g # pg_live g, pg_next := pg_next g + 1\<rparr>)"

definition config_destroy :: "nat option \<Rightarrow> ptp_globals \<Rightarrow> ptp_globals option" where
  "config_destroy cfg g = do {
     c \<leftarrow> cfg;
     if c \<in> set (pg_live g) then Some (g\<lparr>pg_live := remove1 c (pg_live g)\<rparr>) else None
   }"

definition config_set_int ::
  "nat option \<Rightarrow> string \<Rightarrow> int \<Rightarrow> ptp_globals \<Rightarrow> ptp_globals option" where
  "config_set_int cfg option v g = do {
     c \<leftarrow> cfg;
     if c \<in> set (pg_live g) then Some (g\<lparr>pg_items := (pg_items g)(option := v)\<rparr>) else None
   }"

definition config_get_int :: "nat option \<Rightarrow> string \<Rightarrow> ptp_globals \<Rightarrow> int option" where
  "config_get_int cfg option g = do {
     c \<leftarrow> cfg;
     if c \<in> set (pg_live g) then Some (pg_items g option) else None
   }"

text \<open>The domain of a clock, read from the options when the clock is created, is an 8-bit
  number.\<close>

definition clock_domain :: "nat option \<Rightarrow> ptp_globals \<Rightarrow> 8 word option" where
  "clock_domain cfg g = map_option word_of_int (config_get_int cfg ''domainNumber'' g)"

section \<open>Life cycle\<close>

definition ptp_Reset :: "ptp_globals \<times> ptp18 \<Rightarrow> (ptp_globals \<times> ptp18) option" where
  "ptp_Reset = (\<lambda>(g, p). do {
     g \<leftarrow> (if pt_cfg p = None then Some g else config_destroy (pt_cfg p) g);
     let (c, g) = config_create g;
     Some (g\<lparr>pg_config_map := (pg_config_map g)(pt_timeline_uuid p \<mapsto> c)\<rparr>,
           p\<lparr>pt_cfg := Some c, pt_subscriber := False\<rparr>)
   })"

definition PTP18 ::
  "prob_lib \<Rightarrow> ptp18 \<Rightarrow> uncertainty_params \<Rightarrow> ptp_globals \<Rightarrow> (ptp_globals \<times> ptp18) option" where
  "PTP18 pl junk config g = do {
     su \<leftarrow> SyncUncertainty pl (pt_su junk) config;
     ptp_Reset (g, junk\<lparr>pt_su := su, pt_cfg := None, pt_clk_params := None, pt_subscriber := False,
        pt_nats_server := ''nats://nats.default.svc.cluster.local:4222'', pt_desired_accuracy := 0,
        pt_timeline_uuid := [], pt_node_uuid := [], pt_thread := False\<rparr>)
   }"

text \<open>\<open>Stop\<close> waits for the thread, which destroys the configuration when it ends.\<close>

definition ptp_Stop :: "ptp_globals \<times> ptp18 \<Rightarrow> (ptp_globals \<times> ptp18) option" where
  "ptp_Stop = (\<lambda>(g, p). do {
     g \<leftarrow> (if pt_thread p then config_destroy (pt_cfg p) g else Some g);
     Some (g, p\<lparr>pt_kill := True, pt_thread := False\<rparr>)
   })"

definition ptp_Start ::
  "bool \<Rightarrow> int \<Rightarrow> int \<Rightarrow> int \<Rightarrow> string \<Rightarrow> string \<Rightarrow> ptp_globals \<times> ptp18 \<Rightarrow> (ptp_globals \<times> ptp18) option" where
  "ptp_Start master log_sync_interval sync_session timelineid tl_name node_name = (\<lambda>s. do {
     (g, p) \<leftarrow> ptp_Stop s;
     let p = p\<lparr>pt_timeline_uuid := tl_name, pt_node_uuid := node_name\<rparr>;
     let (c, g) = config_create g;
     let g = g\<lparr>pg_config_map := (pg_config_map g)(tl_name \<mapsto> c)\<rparr>;
     let p = p\<lparr>pt_cfg := Some c, pt_subscriber := False\<rparr>;
     let mod_log_sync_interval = (if log_sync_interval < 0 then 0 else log_sync_interval);
     g \<leftarrow> config_set_int (pt_cfg p) ''logSyncInterval'' mod_log_sync_interval g;
     g \<leftarrow> config_set_int (pt_cfg p) ''domainNumber'' sync_session g;
     g \<leftarrow> (if master then config_set_int (pt_cfg p) ''slaveOnly'' 0 g else Some g);
     let p = p\<lparr>pt_kill := False, pt_last := stat0\<rparr>;
     if 0 \<le> timelineid \<and> timelineid < MAX_TIMELINES
     then Some (g\<lparr>pg_point := (pg_point g)(timelineid := stat0)\<rparr>, p\<lparr>pt_thread := True\<rparr>)
     else None
   })"

definition ptp_SetDesiredAccuracy :: "u64 \<Rightarrow> ptp18 \<Rightarrow> ptp18" where
  "ptp_SetDesiredAccuracy accuracy p =
     p\<lparr>pt_desired_accuracy := accuracy, pt_su := SetNodeAccuracy accuracy (pt_su p)\<rparr>"

definition ptp_SetPubSubServer :: "string \<Rightarrow> ptp18 \<Rightarrow> ptp18" where
  "ptp_SetPubSubServer server p = p\<lparr>pt_nats_server := server\<rparr>"

text \<open>The external control reads its argument by the type the option calls for; reading
  it as another is not defined.\<close>

definition ptp_ExtControl :: "ext_arg \<Rightarrow> ext_ctrl_options \<Rightarrow> ptp18 \<Rightarrow> (int \<times> ptp18) option" where
  "ptp_ExtControl pointer type p =
     (if pointer = Ptr_null then Some (- 1, p)
      else case type of
        SET_PUBSUB_SERVER \<Rightarrow>
          (case pointer of Ptr_text s \<Rightarrow> Some (0, ptp_SetPubSubServer (c_str s) p) | _ \<Rightarrow> None)
      | ADD_TL_SYNC_DATA \<Rightarrow>
          (case pointer of
             Ptr_msg m \<Rightarrow> Some (0, ptp_SetDesiredAccuracy (demanded_accuracy (sm_demand m)) p)
           | _ \<Rightarrow> None)
      | _ \<Rightarrow> Some (ENOTSUP, p))"

section \<open>Tuning the rate\<close>

text \<open>The callback of the master for the reports of the nodes.\<close>

definition ptp_sync_tuner ::
  "tl_translation \<times> string \<times> string \<times> u64 \<Rightarrow> ptp_globals \<Rightarrow> ptp_globals" where
  "ptp_sync_tuner = (\<lambda>(params, timeline_uuid, node_name, desired_accuracy) g.
     let accuracy = \<lparr>av_delivered = tr_u_nsec params, av_desired = desired_accuracy\<rparr>
     in g\<lparr>pg_qot := (pg_qot g)(timeline_uuid := AList.update node_name accuracy (pg_qot g timeline_uuid))\<rparr>)"

text \<open>One node: the count of nodes whose accuracy is not delivered and the largest ratio of
  delivered to desired.\<close>

definition rate_step :: "accuracy_vector \<Rightarrow> int \<times> double \<Rightarrow> int \<times> double" where
  "rate_step v = (\<lambda>(change_sync_flag, exactness_factor).
     if av_desired v = 0 \<or> av_delivered v = 0 then (change_sync_flag, exactness_factor)
     else let r = d_div (d_of_u64 (av_delivered v)) (d_of_u64 (av_desired v))
          in (if av_desired v < av_delivered v then change_sync_flag + 1 else change_sync_flag,
              if r > exactness_factor then r else exactness_factor))"

definition ChangeSyncRate :: "string \<Rightarrow> ptp_globals \<Rightarrow> ptp_globals option" where
  "ChangeSyncRate timeline_uuid g = do {
     let cfg = pg_config_map g timeline_uuid;
     current_sync_interval \<leftarrow> config_get_int cfg ''logSyncInterval'' g;
     let (change_sync_flag, exactness_factor) = fold (rate_step \<circ> snd) (pg_qot g timeline_uuid) (0, 0);
     if change_sync_flag > 0
     then let mod_log_sync_interval = s32 (current_sync_interval - 1)
          in if mod_log_sync_interval > - 4
             then config_set_int cfg ''logSyncInterval'' mod_log_sync_interval g else Some g
     else if exactness_factor < 3 / 4 \<and> exactness_factor > 0
     then let mod_log_sync_interval = s32 (current_sync_interval + 1)
          in if mod_log_sync_interval \<le> 2
             then config_set_int cfg ''logSyncInterval'' mod_log_sync_interval g else Some g
     else Some g
   }"

section \<open>The synchronisation thread\<close>

text \<open>What the surroundings leave for one iteration: the two running flags, the outcome of
  polling, the clock parameters and the latest statistic after it, whether this node is
  the master, the outcomes of creating messages and of subscribing, and the reports
  delivered meanwhile.\<close>

record ptp_event =
  ev_running :: bool
  ev_poll :: int
  ev_params :: tl_translation
  ev_point :: qot_stat
  ev_master :: int
  ev_create :: "string \<Rightarrow> int"
  ev_subscribe :: int
  ev_reports :: "(tl_translation \<times> string \<times> string \<times> u64) list"

type_synonym publications = "(string \<times> json) list"

definition DECISION_MAKING_PERIOD :: int where "DECISION_MAKING_PERIOD = 10"

text \<open>A new statistic is handed to the uncertainty calculation.  The identifiers are compared
  signed.\<close>

definition ptp_new_point ::
  "prob_lib \<Rightarrow> ptp_event \<Rightarrow> ptp18 \<Rightarrow> (ptp18 \<times> publications) option" where
  "ptp_new_point pl ev p =
     (if sint (st_data_id (pt_last p)) < sint (st_data_id (ev_point ev))
      then do {
        let p = p\<lparr>pt_last := ev_point ev\<rparr>;
        (ok, params, es, su) \<leftarrow> CalculateBounds pl (ev_create ev) (st_offset (pt_last p))
           (d_div (d_of_s64 (st_drift (pt_last p))) 1000000000) (pt_clk_params p) (pt_timeline_uuid p) (pt_su p);
        Some (p\<lparr>pt_clk_params := params, pt_su := su\<rparr>, es)
      }
      else Some (p, []))"

definition ptp_roles :: "ptp_event \<Rightarrow> ptp18 \<Rightarrow> ptp18" where
  "ptp_roles ev p =
     (let topic = syncmaster_topic (pt_timeline_uuid p)
      in if ev_master ev = 1 \<and> \<not> pt_subscriber p
         then p\<lparr>pt_subscriber := True,
                pt_su := snd (su_natsSubscribe topic (ev_subscribe ev) (StopMasterSyncPublish (pt_su p)))\<rparr>
         else if ev_master ev = 0 \<and> pt_subscriber p
         then p\<lparr>pt_subscriber := False,
                pt_su := StartMasterSyncPublish topic (snd (su_natsUnSubscribe (pt_su p)))\<rparr>
         else p)"

definition ptp_iteration ::
  "prob_lib \<Rightarrow> ptp_event \<Rightarrow> int \<times> ptp_globals \<times> ptp18 \<Rightarrow> (publications \<times> int \<times> ptp_globals \<times> ptp18) option" where
  "ptp_iteration pl ev = (\<lambda>(counter, g, p). do {
     let g = fold ptp_sync_tuner (ev_reports ev) g;
     let p = (if pt_clk_params p = None then p else p\<lparr>pt_clk_params := Some (ev_params ev)\<rparr>);
     (p, es) \<leftarrow> ptp_new_point pl ev p;
     let p = ptp_roles ev p;
     let counter = s32 (counter + 1);
     g \<leftarrow> (if counter smod DECISION_MAKING_PERIOD = 0 \<and> pt_subscriber p
           then ChangeSyncRate (pt_timeline_uuid p) g else Some g);
     Some (es, counter, g, p)
   })"

text \<open>The loop over the events; the result tells whether the loop has been left.\<close>

fun ptp_loop ::
  "prob_lib \<Rightarrow> ptp_event list \<Rightarrow> int \<times> ptp_globals \<times> ptp18
     \<Rightarrow> (bool \<times> publications \<times> int \<times> ptp_globals \<times> ptp18) option" where
  "ptp_loop pl [] s = Some (False, [], s)"
| "ptp_loop pl (ev # evs) s =
     (if \<not> ev_running ev \<or> ev_poll ev \<noteq> 0 then Some (True, [], s)
      else do {
        (es, s) \<leftarrow> ptp_iteration pl ev s;
        (left, es', s) \<leftarrow> ptp_loop pl evs s;
        Some (left, es @ es', s)
      })"

text \<open>What the thread does before the loop: the overlay clock's memory (\<open>clk\<close>), the
  connection to NATS, the options, the interface and linuxptp's clock.  The result tells
  whether the loop is entered; on a failure the thread ends.\<close>

record ptp_setup =
  ps_clk :: "tl_translation option"
  ps_nats :: int
  ps_iface :: bool
  ps_clock :: bool

definition ptp_thread_setup ::
  "ptp_setup \<Rightarrow> ptp_globals \<times> ptp18 \<Rightarrow> (bool \<times> ptp_globals \<times> ptp18) option" where
  "ptp_thread_setup st = (\<lambda>(g, p).
     case ps_clk st of
       None \<Rightarrow> Some (False, g, p\<lparr>pt_clk_params := None, pt_thread := False\<rparr>)
     | Some clk \<Rightarrow> do {
         let su = snd (natsConnect (ps_nats st) (pt_su p));
         let su = StartMasterSyncPublish (syncmaster_topic (pt_timeline_uuid p)) (SetNodeUUID (pt_node_uuid p) su);
         let p = p\<lparr>pt_clk_params := Some clk, pt_su := su\<rparr>;
         g \<leftarrow> config_set_int (pt_cfg p) ''delay_mechanism'' 0 g;
         g \<leftarrow> config_set_int (pt_cfg p) ''network_transport'' 3 g;
         g \<leftarrow> config_set_int (pt_cfg p) ''time_stamping'' 1 g;
         if \<not> ps_iface st
         then do { g \<leftarrow> config_destroy (pt_cfg p) g; Some (False, g, p\<lparr>pt_thread := False\<rparr>) }
         else do {
           g \<leftarrow> config_set_int (pt_cfg p) ''verbose'' 1 g;
           if ps_clock st then Some (True, g, p)
           else do { g \<leftarrow> config_destroy (pt_cfg p) g; Some (False, g, p\<lparr>pt_thread := False\<rparr>) }
         }
       })"

text \<open>The whole thread: set-up, loop, and the configuration destroyed at the end.\<close>

definition ptp_SyncThread ::
  "prob_lib \<Rightarrow> ptp_setup \<Rightarrow> ptp_event list \<Rightarrow> ptp_globals \<times> ptp18
     \<Rightarrow> (publications \<times> ptp_globals \<times> ptp18) option" where
  "ptp_SyncThread pl st evs s = do {
     (run, g, p) \<leftarrow> ptp_thread_setup st s;
     if \<not> run then Some ([], g, p)
     else do {
       (left, es, counter, g, p) \<leftarrow> ptp_loop pl evs (0, g, p);
       if left then do { g \<leftarrow> config_destroy (pt_cfg p) g; Some (es, g, p\<lparr>pt_thread := False\<rparr>) }
       else Some (es, g, p)
     }
   }"


section \<open>The decision, exactly\<close>

definition av_valid :: "accuracy_vector \<Rightarrow> bool" where
  "av_valid v \<longleftrightarrow> av_desired v \<noteq> 0 \<and> av_delivered v \<noteq> 0"

definition av_unsatisfied :: "accuracy_vector \<Rightarrow> bool" where
  "av_unsatisfied v \<longleftrightarrow> av_valid v \<and> av_desired v < av_delivered v"

definition av_ratio :: "accuracy_vector \<Rightarrow> double" where
  "av_ratio v = d_div (d_of_u64 (av_delivered v)) (d_of_u64 (av_desired v))"

lemma av_ratio_pos: "av_valid v \<Longrightarrow> 0 < av_ratio v"
proof -
  assume v: "av_valid v"
  have "0 < d_of_u64 w" if "w \<noteq> 0" for w
  proof -
    have "0 < uint w"
      using that unsigned_greater_eq [of w] by (metis order_le_less unsigned_eq_0_iff)
    then show ?thesis
      unfolding d_of_u64_def by (intro rnd64_pos) (simp only: of_int_0_less_iff)
  qed
  with v show ?thesis
    unfolding av_ratio_def d_div_def av_valid_def by (intro rnd64_pos) simp
qed

lemma rate_fold:
  "fold rate_step vs (f, e) =
     (f + int (length (filter av_unsatisfied vs)), fold (\<lambda>v e. max e (av_ratio v)) (filter av_valid vs) e)"
  by (induction vs arbitrary: f e)
    (auto simp: rate_step_def av_unsatisfied_def av_valid_def av_ratio_def max_def Let_def)

lemma fold_max_less:
  fixes f :: "'a \<Rightarrow> 'b :: linorder"
  shows "fold (\<lambda>v e. max e (f v)) vs e < t \<longleftrightarrow> e < t \<and> (\<forall>v \<in> set vs. f v < t)"
    and "t < fold (\<lambda>v e. max e (f v)) vs e \<longleftrightarrow> t < e \<or> (\<exists>v \<in> set vs. t < f v)"
  by (induction vs arbitrary: e) (auto simp: less_max_iff_disj simp del: max_less_iff_conj
      simp: max_less_iff_conj)

text \<open>The reference: speed up when a node is not served, slow down when there are nodes with both
  values set and each of them has an error strictly below three quarters of the one it asks for;
  within the limits of the rate.  The comment beside the threshold speaks of a factor of two.\<close>

definition rate_change :: "accuracy_vector list \<Rightarrow> int" where
  "rate_change vs =
     (if \<exists>v \<in> set vs. av_unsatisfied v then - 1
      else if (\<exists>v \<in> set vs. av_valid v)
         \<and> (\<forall>v \<in> set vs. av_valid v \<longrightarrow> 4 * unat (av_delivered v) < 3 * unat (av_desired v)) then 1
      else 0)"

definition rate_limit :: "int \<Rightarrow> int \<Rightarrow> int" where
  "rate_limit i d = (if d < 0 then (if i - 1 > - 4 then i - 1 else i)
                     else if d > 0 then (if i + 1 \<le> 2 then i + 1 else i) else i)"

lemma rexp_half_to_one:
  assumes "1 / 2 \<le> x" "x < 1"
  shows "rexp x = - 1"
proof -
  have x: "x \<noteq> 0" "\<bar>x\<bar> = x"
    using assms(1) by simp_all
  note b = rexp_bounds [OF x(1), unfolded x(2)]
  have "\<not> 0 \<le> rexp x"
  proof
    assume "0 \<le> rexp x"
    then have "(2 :: rat) powi 0 \<le> 2 powi rexp x"
      by (intro power_int_increasing) simp_all
    with b(1) assms(2) show False
      by simp
  qed
  moreover have "\<not> rexp x + 1 \<le> - 1"
  proof
    assume "rexp x + 1 \<le> - 1"
    then have "(2 :: rat) powi (rexp x + 1) \<le> 2 powi (- 1)"
      by (intro power_int_increasing) simp_all
    with b(2) assms(1) show False
      by simp
  qed
  ultimately show ?thesis
    by simp
qed

lemma rnd64_half_to_one:
  assumes "1 / 2 \<le> (of_int i / 2 ^ 52 :: rat)" "of_int i / 2 ^ 52 < (1 :: rat)"
  shows "rnd64 (of_int i / 2 ^ 52) = of_int i / 2 ^ 52"
proof -
  let ?x = "of_int i / 2 ^ 52 :: rat"
  have grid: "?x = of_int i * 2 powi (- 52)"
    by (simp add: power_int_def power_divide)
  have "?x \<noteq> 0"
  proof
    assume "?x = 0"
    with assms(1) show False
      by simp
  qed
  then have "rnd64 ?x = rnd_at (rexp ?x) ?x"
    by (rule rnd64_at)
  also have "\<dots> = rnd_at (- 1) ?x"
    by (simp only: rexp_half_to_one [OF assms])
  also have "\<dots> = ?x"
    unfolding grid by (rule rnd_at_grid) simp
  finally show ?thesis .
qed

lemma ratio_three_quarters:
  assumes "av_valid v" "unat (av_delivered v) < 2 ^ 50" "unat (av_desired v) < 2 ^ 50"
  shows "av_ratio v < 3 / 4 \<longleftrightarrow> 4 * unat (av_delivered v) < 3 * unat (av_desired v)"
proof -
  define a b where "a = (of_nat (unat (av_delivered v)) :: rat)" and "b = (of_nat (unat (av_desired v)) :: rat)"
  have conv: "d_of_u64 (av_delivered v) = a" "d_of_u64 (av_desired v) = b"
  proof -
    have "d_of_u64 w = of_nat (unat w)" if "unat w < 2 ^ 50" for w
    proof -
      have u: "uint w = int (unat w)"
        by simp
      have "rnd64 (of_int (int (unat w))) = of_int (int (unat w))"
      proof (rule rnd64_of_int)
        have "unat w \<le> 2 ^ 53"
          using that by simp
        then have "int (unat w) \<le> int (2 ^ 53)"
          by (simp only: of_nat_le_iff)
        then show "\<bar>int (unat w)\<bar> \<le> 2 ^ 53"
          by (simp only: abs_of_nat of_nat_power of_nat_numeral)
      qed
      then show ?thesis
        unfolding d_of_u64_def u by (simp only: of_int_of_nat_eq)
    qed
    with assms(2,3) show "d_of_u64 (av_delivered v) = a" "d_of_u64 (av_desired v) = b"
      by (simp_all add: a_def b_def)
  qed
  have b: "0 < b" "b < 2 ^ 50"
  proof -
    have "0 < unat (av_desired v)"
      using assms(1) by (simp add: av_valid_def unat_gt_0)
    then show "0 < b"
      unfolding b_def by (simp only: of_nat_0_less_iff)
    have "b < of_nat (2 ^ 50)"
      unfolding b_def using assms(3) by (simp only: of_nat_less_iff)
    then show "b < 2 ^ 50"
      by simp
  qed
  have r: "av_ratio v = rnd64 (a / b)"
    by (simp add: av_ratio_def d_div_def conv)
  have n: "4 * unat (av_delivered v) < 3 * unat (av_desired v) \<longleftrightarrow> 4 * a < 3 * b"
  proof -
    have "4 * a < 3 * b \<longleftrightarrow> (of_nat (4 * unat (av_delivered v)) :: rat) < of_nat (3 * unat (av_desired v))"
      by (simp add: a_def b_def)
    then show ?thesis
      by (simp only: of_nat_less_iff)
  qed
  have q: "rnd64 (3 / 4) = 3 / 4"
    using rnd64_half_to_one [of "3 * 2 ^ 50"] by simp
  have q': "rnd64 (3 / 4 - 1 / 2 ^ 52) < 3 / 4"
    using rnd64_half_to_one [of "3 * 2 ^ 50 - 1"] by simp
  show ?thesis
  proof (cases "4 * a < 3 * b")
    case True
    then have "4 * unat (av_delivered v) + 1 \<le> 3 * unat (av_desired v)"
      using n by simp
    then have "(of_nat (4 * unat (av_delivered v) + 1) :: rat) \<le> of_nat (3 * unat (av_desired v))"
      by (simp only: of_nat_le_iff)
    then have "4 * a + 1 \<le> 3 * b"
      by (simp add: a_def b_def)
    then have "a / b \<le> 3 / 4 - 1 / (4 * b)"
      using b(1) by (simp add: field_simps)
    also have "\<dots> \<le> 3 / 4 - 1 / 2 ^ 52"
      using b by (simp add: frac_le)
    finally have "rnd64 (a / b) \<le> rnd64 (3 / 4 - 1 / 2 ^ 52)"
      by (rule rnd64_mono)
    also note q'
    finally show ?thesis
      using True n r by simp
  next
    case False
    then have "3 / 4 \<le> a / b"
      using b(1) by (simp add: field_simps)
    then have "3 / 4 \<le> rnd64 (a / b)"
      using rnd64_mono [of "3 / 4" "a / b"] q by simp
    then show ?thesis
      using False n r by simp
  qed
qed

definition av_small :: "accuracy_vector \<Rightarrow> bool" where
  "av_small v \<longleftrightarrow> unat (av_delivered v) < 2 ^ 50 \<and> unat (av_desired v) < 2 ^ 50"

definition rate_of :: "ptp_globals \<Rightarrow> int" where
  "rate_of g = pg_items g ''logSyncInterval''"

definition reported :: "ptp_globals \<Rightarrow> string \<Rightarrow> accuracy_vector list" where
  "reported g uuid = map snd (pg_qot g uuid)"

definition cfg_live :: "ptp_globals \<Rightarrow> string \<Rightarrow> bool" where
  "cfg_live g uuid \<longleftrightarrow> (\<exists>c. pg_config_map g uuid = Some c \<and> c \<in> set (pg_live g))"

lemma fold_rate_reported:
  "fold (rate_step \<circ> snd) (pg_qot g uuid) (f, e) = fold rate_step (reported g uuid) (f, e)"
  by (simp add: reported_def fold_map)

text \<open>What a decision does, whatever the accuracies.\<close>

lemma ChangeSyncRate_cases:
  assumes "cfg_live g uuid" "int32 (rate_of g - 1)" "int32 (rate_of g + 1)"
  obtains d where "d \<in> {- 1, 0, 1}"
    "ChangeSyncRate uuid g = Some (g\<lparr>pg_items := (pg_items g)(''logSyncInterval'' := rate_limit (rate_of g) d)\<rparr>)"
    "d = - 1 \<longleftrightarrow> (\<exists>v \<in> set (reported g uuid). av_unsatisfied v)"
    "d = 1 \<longleftrightarrow> \<not> (\<exists>v \<in> set (reported g uuid). av_unsatisfied v) \<and> (\<exists>v \<in> set (reported g uuid). av_valid v)
        \<and> (\<forall>v \<in> set (reported g uuid). av_valid v \<longrightarrow> av_ratio v < 3 / 4)"
proof -
  obtain c where c: "pg_config_map g uuid = Some c" "c \<in> set (pg_live g)"
    using assms(1) by (auto simp: cfg_live_def)
  let ?vs = "reported g uuid"
  let ?u = "\<exists>v \<in> set ?vs. av_unsatisfied v"
  let ?e = "fold (\<lambda>v e. max e (av_ratio v)) (filter av_valid ?vs) 0"
  have fl: "filter av_unsatisfied ?vs = [] \<longleftrightarrow> \<not> ?u"
    by (simp add: filter_empty_conv)
  have e: "?e < 3 / 4 \<and> 0 < ?e \<longleftrightarrow> (\<exists>v \<in> set ?vs. av_valid v)
      \<and> (\<forall>v \<in> set ?vs. av_valid v \<longrightarrow> av_ratio v < 3 / 4)"
    using av_ratio_pos unfolding fold_max_less by auto
  let ?d = "if ?u then - 1 else if ?e < 3 / 4 \<and> 0 < ?e then 1 else 0 :: int"
  have same: "(pg_items g)(''logSyncInterval'' := pg_items g ''logSyncInterval'') = pg_items g"
    by simp
  have "ChangeSyncRate uuid g =
      Some (g\<lparr>pg_items := (pg_items g)(''logSyncInterval'' := rate_limit (rate_of g) ?d)\<rparr>)"
    using assms(2,3) c same
    by (cases ?u; cases "?e < 3 / 4"; cases "0 < ?e")
      (simp_all add: ChangeSyncRate_def fold_rate_reported rate_fold fl config_get_int_def
        config_set_int_def rate_of_def rate_limit_def Let_def)
  then show thesis
    by (rule that [rotated]) (use e in auto)
qed

text \<open>C32: For accuracies below 2^50 ns, a configuration that is alive and a rate whose
  neighbours fit 32 bits, a decision about the synchronisation rate is that of the
  reference without rounding, over the nodes whose delivered and desired accuracy are both
  set: speed up when one of them has a larger error than it asks for, slow down when there
  are such nodes and every one has an error strictly below three quarters of the one it
  asks for (at exactly three quarters the rate stays), within the limits of the rate.\<close>

lemma rate_decision_exact:
  assumes "cfg_live g uuid" "int32 (rate_of g - 1)" "int32 (rate_of g + 1)"
    and "\<forall>v \<in> set (reported g uuid). av_small v"
  shows "ChangeSyncRate uuid g = Some (g\<lparr>pg_items := (pg_items g)
     (''logSyncInterval'' := rate_limit (rate_of g) (rate_change (reported g uuid)))\<rparr>)"
proof -
  obtain d where d: "d \<in> {- 1, 0, 1}"
    "ChangeSyncRate uuid g = Some (g\<lparr>pg_items := (pg_items g)(''logSyncInterval'' := rate_limit (rate_of g) d)\<rparr>)"
    "d = - 1 \<longleftrightarrow> (\<exists>v \<in> set (reported g uuid). av_unsatisfied v)"
    "d = 1 \<longleftrightarrow> \<not> (\<exists>v \<in> set (reported g uuid). av_unsatisfied v) \<and> (\<exists>v \<in> set (reported g uuid). av_valid v)
        \<and> (\<forall>v \<in> set (reported g uuid). av_valid v \<longrightarrow> av_ratio v < 3 / 4)"
    using assms(1-3) by (rule ChangeSyncRate_cases)
  have "av_ratio v < 3 / 4 \<longleftrightarrow> 4 * unat (av_delivered v) < 3 * unat (av_desired v)"
    if "v \<in> set (reported g uuid)" "av_valid v" for v
    using assms(4) that by (intro ratio_three_quarters) (simp_all add: av_small_def)
  then have "(\<forall>v \<in> set (reported g uuid). av_valid v \<longrightarrow> av_ratio v < 3 / 4) \<longleftrightarrow>
      (\<forall>v \<in> set (reported g uuid). av_valid v \<longrightarrow> 4 * unat (av_delivered v) < 3 * unat (av_desired v))"
    by blast
  with d(1,3,4) have "d = rate_change (reported g uuid)"
    by (auto simp: rate_change_def)
  with d(2) show ?thesis
    by simp
qed

section \<open>The rate over the iterations\<close>

definition ptp_inv :: "ptp_globals \<Rightarrow> ptp18 \<Rightarrow> bool" where
  "ptp_inv g p \<longleftrightarrow> pt_cfg p \<noteq> None \<and> pg_config_map g (pt_timeline_uuid p) = pt_cfg p
     \<and> cfg_live g (pt_timeline_uuid p) \<and> - 3 \<le> rate_of g \<and> rate_of g \<le> 2"

lemma tuner_frame [simp]:
  "pg_items (ptp_sync_tuner r g) = pg_items g" "pg_live (ptp_sync_tuner r g) = pg_live g"
  "pg_config_map (ptp_sync_tuner r g) = pg_config_map g"
  by (cases r; simp add: ptp_sync_tuner_def Let_def)+

lemma tuners_frame [simp]:
  "pg_items (fold ptp_sync_tuner rs g) = pg_items g" "pg_live (fold ptp_sync_tuner rs g) = pg_live g"
  "pg_config_map (fold ptp_sync_tuner rs g) = pg_config_map g"
  by (induction rs arbitrary: g) simp_all

lemma new_point_frame:
  assumes "ptp_new_point pl ev p = Some (p', es)"
  shows "pt_cfg p' = pt_cfg p" "pt_timeline_uuid p' = pt_timeline_uuid p" "pt_subscriber p' = pt_subscriber p"
    "pt_kill p' = pt_kill p" "pt_thread p' = pt_thread p"
  using assms by (auto simp: ptp_new_point_def Let_def bind_eq_Some_conv split: if_splits)

lemma roles_frame [simp]:
  "pt_cfg (ptp_roles ev p) = pt_cfg p" "pt_timeline_uuid (ptp_roles ev p) = pt_timeline_uuid p"
  "pt_thread (ptp_roles ev p) = pt_thread p"
  by (simp_all add: ptp_roles_def Let_def)

lemma roles_subscriber: "ev_master ev = 1 \<Longrightarrow> pt_subscriber (ptp_roles ev p)"
  by (simp add: ptp_roles_def Let_def)

text \<open>An iteration changes the rate only by a decision.\<close>

lemma iteration_rate:
  assumes "ptp_iteration pl ev (n, g, p) = Some (es, n', g', p')" "ptp_inv g p"
  obtains d where "d \<in> {- 1, 0, 1}" "rate_of g' = rate_limit (rate_of g) d"
    "n' = s32 (n + 1)" "pt_timeline_uuid p' = pt_timeline_uuid p" "pt_cfg p' = pt_cfg p"
    "pg_live g' = pg_live g" "pg_config_map g' = pg_config_map g"
    "pg_qot g' = pg_qot (fold ptp_sync_tuner (ev_reports ev) g)"
    "ev_master ev = 1 \<Longrightarrow> s32 (n + 1) smod 10 = 0 \<Longrightarrow>
       \<exists>v \<in> set (reported (fold ptp_sync_tuner (ev_reports ev) g) (pt_timeline_uuid p)). av_unsatisfied v \<Longrightarrow> d = - 1"
    "s32 (n + 1) smod 10 \<noteq> 0 \<Longrightarrow> d = 0"
proof -
  let ?g = "fold ptp_sync_tuner (ev_reports ev) g"
  let ?q = "if pt_clk_params p = None then p else p\<lparr>pt_clk_params := Some (ev_params ev)\<rparr>"
  obtain q es0 where q: "ptp_new_point pl ev ?q = Some (q, es0)"
    and g': "(if s32 (n + 1) smod 10 = 0 \<and> pt_subscriber (ptp_roles ev q)
              then ChangeSyncRate (pt_timeline_uuid (ptp_roles ev q)) ?g else Some ?g) = Some g'"
    and r: "p' = ptp_roles ev q" "n' = s32 (n + 1)"
    using assms(1) by (auto simp: ptp_iteration_def DECISION_MAKING_PERIOD_def Let_def bind_eq_Some_conv)
  have u: "pt_timeline_uuid q = pt_timeline_uuid p" "pt_cfg q = pt_cfg p"
    using new_point_frame [OF q] by (simp_all split: if_splits)
  have live: "cfg_live ?g (pt_timeline_uuid p)" "int32 (rate_of ?g - 1)" "int32 (rate_of ?g + 1)"
    using assms(2) by (auto simp: ptp_inv_def cfg_live_def rate_of_def int32_def)
  obtain d where d: "d \<in> {- 1, 0, 1}"
    "ChangeSyncRate (pt_timeline_uuid p) ?g =
       Some (?g\<lparr>pg_items := (pg_items ?g)(''logSyncInterval'' := rate_limit (rate_of ?g) d)\<rparr>)"
    "d = - 1 \<longleftrightarrow> (\<exists>v \<in> set (reported ?g (pt_timeline_uuid p)). av_unsatisfied v)"
    using live by (rule ChangeSyncRate_cases) blast
  have same: "rate_of ?g = rate_of g"
    by (simp add: rate_of_def)
  show thesis
  proof (cases "s32 (n + 1) smod 10 = 0 \<and> pt_subscriber (ptp_roles ev q)")
    case True
    then have "g' = ?g\<lparr>pg_items := (pg_items ?g)(''logSyncInterval'' := rate_limit (rate_of ?g) d)\<rparr>"
      using g' d(2) u by simp
    then show thesis
      using that [of d] d(1,3) r u True same by (simp add: rate_of_def)
  next
    case False
    then have "g' = ?g"
      using g' by (auto split: if_splits)
    then show thesis
      using that [of 0] r u same False roles_subscriber [of ev q] by (auto simp: rate_limit_def)
  qed
qed

lemma rate_limit_range: "- 3 \<le> i \<Longrightarrow> i \<le> 2 \<Longrightarrow> - 3 \<le> rate_limit i d \<and> rate_limit i d \<le> 2"
  by (simp add: rate_limit_def)

lemma iteration_inv:
  assumes "ptp_iteration pl ev (n, g, p) = Some (es, n', g', p')" "ptp_inv g p"
  shows "ptp_inv g' p'"
  using assms
  by (rule iteration_rate) (use assms(2) rate_limit_range [of "rate_of g"] in \<open>auto simp: ptp_inv_def cfg_live_def\<close>)

lemma loop_inv:
  assumes "ptp_loop pl evs (n, g, p) = Some (left, es, n', g', p')" "ptp_inv g p"
  shows "ptp_inv g' p'"
  using assms
proof (induction evs arbitrary: n g p left es)
  case (Cons ev evs)
  show ?case
  proof (cases "\<not> ev_running ev \<or> ev_poll ev \<noteq> 0")
    case True
    then show ?thesis
      using Cons.prems by auto
  next
    case False
    then obtain es1 n1 g1 p1 es2 where i: "ptp_iteration pl ev (n, g, p) = Some (es1, n1, g1, p1)"
      and l: "ptp_loop pl evs (n1, g1, p1) = Some (left, es2, n', g', p')"
      using Cons.prems(1) by (auto simp: bind_eq_Some_conv)
    show ?thesis
      using l iteration_inv [OF i Cons.prems(2)] by (rule Cons.IH)
  qed
qed simp

lemma Start_inv:
  assumes "ptp_Start master l dn i name node s = Some (g, p)" "l \<le> 2"
  shows "ptp_inv g p"
  using assms
  by (auto simp: ptp_Start_def config_set_int_def config_create_def ptp_inv_def cfg_live_def rate_of_def
      Let_def bind_eq_Some_conv split: if_splits)

lemma setup_inv:
  assumes "ptp_thread_setup st (g, p) = Some (True, g', p')" "ptp_inv g p"
  shows "ptp_inv g' p'"
  using assms
  by (auto simp: ptp_thread_setup_def config_set_int_def ptp_inv_def cfg_live_def rate_of_def Let_def
      bind_eq_Some_conv split: option.splits if_splits)

text \<open>C33: From the start of PTP with a logarithmic interval of at most 2, over any iterations
  of the thread, the interval stays between -3 and 2, and the configuration the decisions
  use stays alive.\<close>

lemma sync_rate_bounded:
  assumes "ptp_Start master l dn i name node s = Some s1" "l \<le> 2"
    and "ptp_thread_setup st s1 = Some (True, s2)"
    and "ptp_loop pl evs (0, s2) = Some (left, es, n, g, p)"
  shows "- 3 \<le> rate_of g \<and> rate_of g \<le> 2 \<and> cfg_live g (pt_timeline_uuid p)"
proof -
  obtain g1 p1 where s1: "s1 = (g1, p1)"
    by (rule prod.exhaust)
  obtain g2 p2 where s2: "s2 = (g2, p2)"
    by (rule prod.exhaust)
  note s = s1 s2
  have "ptp_inv g1 p1"
    using assms(1,2) unfolding s by (rule Start_inv)
  with assms(3) have "ptp_inv g2 p2"
    unfolding s by (rule setup_inv)
  with assms(4) have "ptp_inv g p"
    unfolding s by (rule loop_inv)
  then show ?thesis
    by (simp add: ptp_inv_def)
qed

section \<open>A master that is not served speeds up\<close>

text \<open>A report never makes the node \<open>node\<close> of the timeline satisfied.\<close>

definition report_unsatisfied ::
  "string \<Rightarrow> string \<Rightarrow> tl_translation \<times> string \<times> string \<times> u64 \<Rightarrow> bool" where
  "report_unsatisfied uuid node = (\<lambda>(params, u, n, desired). u = uuid \<and> n = node \<longrightarrow>
     av_unsatisfied \<lparr>av_delivered = tr_u_nsec params, av_desired = desired\<rparr>)"

definition node_unsatisfied :: "string \<Rightarrow> string \<Rightarrow> ptp_globals \<Rightarrow> bool" where
  "node_unsatisfied uuid node g \<longleftrightarrow> (\<exists>v. map_of (pg_qot g uuid) node = Some v \<and> av_unsatisfied v)"

lemma tuner_unsatisfied:
  assumes "node_unsatisfied uuid node g" "report_unsatisfied uuid node r"
  shows "node_unsatisfied uuid node (ptp_sync_tuner r g)"
  using assms
  by (cases r) (auto simp: node_unsatisfied_def report_unsatisfied_def ptp_sync_tuner_def Let_def update_conv)

lemma tuners_unsatisfied:
  "node_unsatisfied uuid node g \<Longrightarrow> list_all (report_unsatisfied uuid node) rs \<Longrightarrow>
   node_unsatisfied uuid node (fold ptp_sync_tuner rs g)"
  by (induction rs arbitrary: g) (simp_all add: tuner_unsatisfied)

lemma node_unsatisfied_reported:
  "node_unsatisfied uuid node g \<Longrightarrow> \<exists>v \<in> set (reported g uuid). av_unsatisfied v"
  by (force simp: node_unsatisfied_def reported_def dest: map_of_SomeD)

text \<open>An event in which the thread keeps running as the master.\<close>

definition master_event :: "string \<Rightarrow> string \<Rightarrow> ptp_event \<Rightarrow> bool" where
  "master_event uuid node ev \<longleftrightarrow> ev_running ev \<and> ev_poll ev = 0 \<and> ev_master ev = 1
     \<and> list_all (report_unsatisfied uuid node) (ev_reports ev)"

lemma smod_ten: "0 \<le> n \<Longrightarrow> n smod 10 = n mod (10 :: int)"
  by (rule smod_pos) simp_all

lemma div_suc_ten: "(n + 1) div 10 - n div 10 = (if (n + 1) mod 10 = 0 then 1 else (0 :: int))"
proof -
  have n: "n = 10 * (n div 10) + n mod 10" "0 \<le> n mod 10" "n mod 10 < 10"
    by simp_all
  show ?thesis
  proof (cases "n mod 10 = 9")
    case True
    then have e: "n + 1 = 10 * (n div 10 + 1) + 0"
      using n(1) by (simp add: algebra_simps)
    have "(n + 1) div 10 = n div 10 + 1" "(n + 1) mod 10 = 0"
      by (rule int_div_pos_eq [OF e] int_mod_pos_eq [OF e]; simp)+
    then show ?thesis
      by simp
  next
    case False
    have e: "n + 1 = 10 * (n div 10) + (n mod 10 + 1)"
      using n(1) by simp
    have "(n + 1) div 10 = n div 10" "(n + 1) mod 10 = n mod 10 + 1"
      by (rule int_div_pos_eq [OF e] int_mod_pos_eq [OF e]; use n False in simp)+
    then show ?thesis
      using n(2) by simp
  qed
qed

lemma max_steps:
  fixes a b c r :: int
  assumes "b \<le> c"
  shows "max (- 3) (max (- 3) (r - (b - a)) - (c - b)) = max (- 3) (r - (c - a))"
  using assms by (auto simp: max_def)

lemma rate_limit_faster: "- 3 \<le> i \<Longrightarrow> rate_limit i (- 1) = max (- 3) (i - 1)"
  by (simp add: rate_limit_def)

lemma loop_speeds_up:
  assumes "list_all (master_event (pt_timeline_uuid p) node) evs" "ptp_inv g p"
    and "node_unsatisfied (pt_timeline_uuid p) node g" "0 \<le> n" "n + int (length evs) < 2 ^ 31"
    and "ptp_loop pl evs (n, g, p) = Some (left, es, n', g', p')"
  shows "rate_of g' = max (- 3) (rate_of g - ((n + int (length evs)) div 10 - n div 10))"
  using assms
proof (induction evs arbitrary: n g p left es)
  case Nil
  then show ?case
    by (auto simp: ptp_inv_def)
next
  case (Cons ev evs)
  let ?u = "pt_timeline_uuid p" and ?g = "fold ptp_sync_tuner (ev_reports ev) g"
  have m: "ev_running ev" "ev_poll ev = 0" "ev_master ev = 1" "list_all (report_unsatisfied ?u node) (ev_reports ev)"
    using Cons.prems(1) by (simp_all add: master_event_def)
  obtain es1 n1 g1 p1 left' es2 where i: "ptp_iteration pl ev (n, g, p) = Some (es1, n1, g1, p1)"
    and l: "ptp_loop pl evs (n1, g1, p1) = Some (left', es2, n', g', p')"
    using Cons.prems(6) m(1,2) by (auto simp: bind_eq_Some_conv)
  have uns: "node_unsatisfied ?u node ?g"
    using Cons.prems(3) m(4) by (rule tuners_unsatisfied)
  obtain d where d: "rate_of g1 = rate_limit (rate_of g) d" "n1 = s32 (n + 1)"
    "pt_timeline_uuid p1 = ?u" "pg_qot g1 = pg_qot ?g"
    "s32 (n + 1) smod 10 = 0 \<Longrightarrow> d = - 1" "s32 (n + 1) smod 10 \<noteq> 0 \<Longrightarrow> d = 0"
    using i Cons.prems(2)
    by (rule iteration_rate) (use m(3) node_unsatisfied_reported [OF uns] in blast)
  have n1: "n1 = n + 1"
    using Cons.prems(4,5) d(2) by (simp add: int32_def)
  have r1: "rate_of g1 = max (- 3) (rate_of g - ((n + 1) div 10 - n div 10))"
  proof -
    have "- 3 \<le> rate_of g"
      using Cons.prems(2) by (simp add: ptp_inv_def)
    moreover have "d = (if (n + 1) mod 10 = 0 then - 1 else 0)"
      using d(2,5,6) Cons.prems(4) n1 smod_ten [of "n + 1"] by auto
    ultimately show ?thesis
      unfolding div_suc_ten d(1) by (simp add: rate_limit_faster) (simp add: rate_limit_def)
  qed
  have "rate_of g' = max (- 3) (rate_of g1 - ((n1 + int (length evs)) div 10 - n1 div 10))"
  proof (rule Cons.IH [OF _ _ _ _ _ l])
    show "list_all (master_event (pt_timeline_uuid p1) node) evs" "0 \<le> n1" "n1 + int (length evs) < 2 ^ 31"
      using Cons.prems(1,4,5) d(3) n1 by simp_all
    show "ptp_inv g1 p1"
      using i Cons.prems(2) by (rule iteration_inv)
    show "node_unsatisfied (pt_timeline_uuid p1) node g1"
      using uns by (simp add: node_unsatisfied_def d(3,4))
  qed
  also have "(n1 + int (length evs)) div 10 = (n + int (length (ev # evs))) div 10"
    by (simp add: n1 add_ac)
  finally have "rate_of g' = max (- 3) (rate_of g1 - ((n + int (length (ev # evs))) div 10 - (n + 1) div 10))"
    by (simp add: n1)
  moreover have "(n + 1) div 10 \<le> (n + int (length (ev # evs))) div 10"
    by (rule zdiv_mono1) simp_all
  ultimately show ?case
    by (simp only: r1 max_steps)
qed

text \<open>The loop completes when no new statistic arrives.\<close>

definition no_new_point :: "qot_stat \<Rightarrow> ptp_event \<Rightarrow> bool" where
  "no_new_point st ev \<longleftrightarrow> sint (st_data_id (ev_point ev)) \<le> sint (st_data_id st)"

lemma roles_last [simp]: "pt_last (ptp_roles ev p) = pt_last p"
  by (simp add: ptp_roles_def Let_def)

lemma iteration_total:
  assumes "no_new_point (pt_last p) ev" "ptp_inv g p"
  obtains es n' g' p' where "ptp_iteration pl ev (n, g, p) = Some (es, n', g', p')" "pt_last p' = pt_last p"
proof -
  let ?g = "fold ptp_sync_tuner (ev_reports ev) g"
  define q where "q = (if pt_clk_params p = None then p else p\<lparr>pt_clk_params := Some (ev_params ev)\<rparr>)"
  have u: "pt_timeline_uuid q = pt_timeline_uuid p" "pt_last q = pt_last p"
    by (simp_all add: q_def)
  have np: "ptp_new_point pl ev q = Some (q, [])"
    using assms(1) by (simp add: ptp_new_point_def no_new_point_def u)
  have "cfg_live ?g (pt_timeline_uuid p)" "int32 (rate_of ?g - 1)" "int32 (rate_of ?g + 1)"
    using assms(2) by (auto simp: ptp_inv_def cfg_live_def rate_of_def int32_def)
  then obtain d where d: "ChangeSyncRate (pt_timeline_uuid p) ?g =
      Some (?g\<lparr>pg_items := (pg_items ?g)(''logSyncInterval'' := rate_limit (rate_of ?g) d)\<rparr>)"
    by (rule ChangeSyncRate_cases)
  obtain g2 where g2: "(if s32 (n + 1) smod 10 = 0 \<and> pt_subscriber (ptp_roles ev q)
      then ChangeSyncRate (pt_timeline_uuid (ptp_roles ev q)) ?g else Some ?g) = Some g2"
    using d by (cases "s32 (n + 1) smod 10 = 0 \<and> pt_subscriber (ptp_roles ev q)") (auto simp: u)
  have "ptp_iteration pl ev (n, g, p) = Some ([], s32 (n + 1), g2, ptp_roles ev q)"
    using np g2 by (simp add: ptp_iteration_def DECISION_MAKING_PERIOD_def Let_def flip: q_def)
  then show thesis
    by (rule that) (simp add: u)
qed

lemma loop_total:
  assumes "list_all (no_new_point (pt_last p)) evs" "ptp_inv g p"
  shows "ptp_loop pl evs (n, g, p) \<noteq> None"
  using assms
proof (induction evs arbitrary: n g p)
  case (Cons ev evs)
  obtain es1 n1 g1 p1 where i: "ptp_iteration pl ev (n, g, p) = Some (es1, n1, g1, p1)" "pt_last p1 = pt_last p"
  proof (rule iteration_total)
    show "no_new_point (pt_last p) ev" "ptp_inv g p"
      using Cons.prems by simp_all
  qed blast
  have "ptp_loop pl evs (n1, g1, p1) \<noteq> None"
    by (rule Cons.IH) (use Cons.prems i iteration_inv [OF i(1)] in simp_all)
  then show ?case
    by (auto simp: i(1))
qed simp

text \<open>C34: From a rate between -3 and 2 with a configuration that is alive, when in every one of
  at least 50 and fewer than 2^31 iterations the thread runs, polling succeeds, this node
  is the master and the reports of one node, which is recorded as unsatisfied at the
  start, never satisfy its demand: after the iterations the rate is the fastest, -3; and
  the iterations complete when no new statistic has to be evaluated.\<close>

lemma unsatisfied_node_reaches_fastest_rate:
  assumes "list_all (master_event (pt_timeline_uuid p) node) evs"
    and inv: "pt_cfg p \<noteq> None" "pg_config_map g (pt_timeline_uuid p) = pt_cfg p" "cfg_live g (pt_timeline_uuid p)"
      "- 3 \<le> rate_of g" "rate_of g \<le> 2"
    and "node_unsatisfied (pt_timeline_uuid p) node g" "50 \<le> length evs" "length evs < 2 ^ 31"
  shows "(\<forall>left es n' g' p'. ptp_loop pl evs (0, g, p) = Some (left, es, n', g', p') \<longrightarrow> rate_of g' = - 3) \<and>
         (list_all (no_new_point (pt_last p)) evs \<longrightarrow> ptp_loop pl evs (0, g, p) \<noteq> None)"
proof -
  have p: "ptp_inv g p"
    using inv by (simp add: ptp_inv_def)
  have "rate_of g' = - 3" if l: "ptp_loop pl evs (0, g, p) = Some (left, es, n', g', p')" for left es n' g' p'
  proof -
    have "rate_of g' = max (- 3) (rate_of g - ((0 + int (length evs)) div 10 - 0 div 10))"
      by (rule loop_speeds_up [OF assms(1) p assms(7) _ _ l]) (use assms(9) in simp_all)
    moreover have "5 \<le> int (length evs) div 10"
      using assms(8) by linarith
    ultimately show ?thesis
      using inv by simp
  qed
  then show ?thesis
    using loop_total [OF _ p, of evs pl 0] by blast
qed

section \<open>From a node's report to the master's decision\<close>

text \<open>From the report of a node to the decision of the master: the report a node publishes
  about its clock, received on the master's topic, is recorded under the node's name, and
  the next decision doubles the rate when the accuracy is not met.\<close>

lemma report_speeds_up_master:
  assumes "parse (c_str text) = Some (master_report su params)"
    and "CHR ''.'' \<notin> set uuid" "CHR 0x00 \<notin> set uuid" "take 10 uuid \<noteq> ''syncmaster''"
    and "0 < su_desired_accuracy su" "su_desired_accuracy su < tr_u_nsec params"
    and "cfg_live g uuid" "- 3 < rate_of g" "rate_of g \<le> 2"
  shows "\<exists>report. subscription_handler parse junk (syncmaster_topic uuid) text = Some report \<and>
     map_of (pg_qot (ptp_sync_tuner report g) uuid) (su_node_uuid su) =
       Some \<lparr>av_delivered = tr_u_nsec params, av_desired = su_desired_accuracy su\<rparr> \<and>
     (\<exists>g'. ChangeSyncRate uuid (ptp_sync_tuner report g) = Some g' \<and> rate_of g' = rate_of g - 1)"
proof -
  let ?r = "(params\<lparr>tr_slope := tr_slope junk\<rparr>, uuid, su_node_uuid su, su_desired_accuracy su)"
  let ?v = "\<lparr>av_delivered = tr_u_nsec params, av_desired = su_desired_accuracy su\<rparr>"
  let ?g = "ptp_sync_tuner ?r g"
  have h: "subscription_handler parse junk (syncmaster_topic uuid) text = Some ?r"
    using assms(1-4) by (rule report_read_back)
  have q: "map_of (pg_qot ?g uuid) (su_node_uuid su) = Some ?v"
    by (simp add: ptp_sync_tuner_def update_conv)
  have "av_unsatisfied ?v"
    using assms(5,6) by (auto simp: av_unsatisfied_def av_valid_def)
  with q have uns: "\<exists>v \<in> set (reported ?g uuid). av_unsatisfied v"
    by (intro node_unsatisfied_reported) (auto simp: node_unsatisfied_def)
  have live: "cfg_live ?g uuid" "int32 (rate_of ?g - 1)" "int32 (rate_of ?g + 1)"
    using assms(7-9) by (simp_all add: cfg_live_def rate_of_def int32_def)
  obtain d where d: "ChangeSyncRate uuid ?g =
      Some (?g\<lparr>pg_items := (pg_items ?g)(''logSyncInterval'' := rate_limit (rate_of ?g) d)\<rparr>)" "d = - 1"
    using live by (rule ChangeSyncRate_cases) (use uns in blast)
  have "rate_limit (rate_of ?g) (- 1) = rate_of g - 1"
    using assms(8) by (simp add: rate_limit_def rate_of_def)
  with d have "\<exists>g'. ChangeSyncRate uuid ?g = Some g' \<and> rate_of g' = rate_of g - 1"
    by (simp add: rate_of_def)
  with h q show ?thesis
    by blast
qed


section \<open>Worked examples\<close>

definition ex_ptp_g :: ptp_globals where
  "ex_ptp_g = \<lparr>pg_items = \<lambda>_. 0, pg_live = [0], pg_next = 1, pg_config_map = [''tl'' \<mapsto> 0],
     pg_qot = \<lambda>_. [(''n'', \<lparr>av_delivered = 2000, av_desired = 1000\<rparr>)], pg_point = \<lambda>_. stat0\<rparr>"

definition ex_ptp :: ptp18 where
  "ex_ptp = \<lparr>pt_cfg = Some 0, pt_timeline_uuid = ''tl'', pt_node_uuid = ''m'', pt_kill = False,
     pt_thread = True, pt_su = ex_su, pt_last = stat0, pt_desired_accuracy = 1000,
     pt_clk_params = Some ex_published, pt_nats_server = ''nats'', pt_subscriber = False\<rparr>"

definition ex_event :: ptp_event where
  "ex_event = \<lparr>ev_running = True, ev_poll = 0, ev_params = ex_published, ev_point = stat0, ev_master = 1,
     ev_create = \<lambda>_. 0, ev_subscribe = 0,
     ev_reports = [(ex_published\<lparr>tr_u_nsec := 3000\<rparr>, ''tl'', ''n'', 1000)]\<rparr>"

lemma ex_ptp_inv: "ptp_inv ex_ptp_g ex_ptp" "cfg_live ex_ptp_g ''tl''" "rate_of ex_ptp_g = 0"
  "reported ex_ptp_g ''tl'' = [\<lparr>av_delivered = 2000, av_desired = 1000\<rparr>]"
  by (simp_all add: ptp_inv_def cfg_live_def rate_of_def reported_def ex_ptp_g_def ex_ptp_def)

lemma rate_decision_exact_witness:
  "\<exists>g'. ChangeSyncRate ''tl'' ex_ptp_g = Some g' \<and> rate_of g' = - 1"
  using rate_decision_exact [of ex_ptp_g "''tl''"]
  by (simp add: ex_ptp_inv av_small_def int32_def rate_of_def [of "_\<lparr>pg_items := _\<rparr>"] rate_limit_def
      rate_change_def av_unsatisfied_def av_valid_def)

lemma sync_rate_bounded_witness:
  "\<exists>s1 s2 left es n g p.
     ptp_Start True 1 0 1 ''tl'' ''m'' (ex_ptp_g, ex_ptp) = Some s1 \<and>
     ptp_thread_setup \<lparr>ps_clk = Some ex_published, ps_nats = 0, ps_iface = True, ps_clock = True\<rparr> s1 = Some (True, s2) \<and>
     ptp_loop ex_prob_lib [] (0, s2) = Some (left, es, n, g, p) \<and> rate_of g \<le> 2"
proof -
  let ?st = "\<lparr>ps_clk = Some ex_published, ps_nats = 0, ps_iface = True, ps_clock = True\<rparr>"
  obtain s1 where s1: "ptp_Start True 1 0 1 ''tl'' ''m'' (ex_ptp_g, ex_ptp) = Some s1"
    by (simp add: ptp_Start_def ptp_Stop_def config_destroy_def config_create_def config_set_int_def
        MAX_TIMELINES_def ex_ptp_def ex_ptp_g_def Let_def)
  then obtain s2 where s2: "ptp_thread_setup ?st s1 = Some (True, s2)"
    by (auto simp: ptp_Start_def ptp_Stop_def config_destroy_def config_create_def config_set_int_def
        MAX_TIMELINES_def ex_ptp_def ex_ptp_g_def Let_def ptp_thread_setup_def)
  obtain g p where "s2 = (g, p)"
    by (rule prod.exhaust)
  then have l: "ptp_loop ex_prob_lib [] (0, s2) = Some (False, [], 0, g, p)"
    by simp
  show ?thesis
    using sync_rate_bounded [OF s1 _ s2 l] s1 s2 l by fastforce
qed

lemma unsatisfied_node_reaches_fastest_rate_witness:
  "\<exists>left es n g p. ptp_loop ex_prob_lib (replicate 50 ex_event) (0, ex_ptp_g, ex_ptp) = Some (left, es, n, g, p) \<and>
     rate_of g = - 3"
proof -
  have "list_all (master_event (pt_timeline_uuid ex_ptp) ''n'') (replicate 50 ex_event)"
    "node_unsatisfied (pt_timeline_uuid ex_ptp) ''n'' ex_ptp_g"
    "list_all (no_new_point (pt_last ex_ptp)) (replicate 50 ex_event)"
    by (simp_all add: list_all_iff master_event_def ex_event_def ex_ptp_def report_unsatisfied_def
        node_unsatisfied_def ex_ptp_g_def av_unsatisfied_def av_valid_def no_new_point_def)
  with unsatisfied_node_reaches_fastest_rate [OF this(1) _ _ _ _ _ this(2), of ex_prob_lib]
  show ?thesis
    using ex_ptp_inv by (fastforce simp: ptp_inv_def ex_ptp_def)
qed

lemma report_speeds_up_master_witness:
  "\<exists>report g'. subscription_handler (\<lambda>_. Some (master_report ex_su (ex_published\<lparr>tr_u_nsec := 3000\<rparr>))) ex_published
       (syncmaster_topic ''tl'') ''x'' = Some report \<and>
     ChangeSyncRate ''tl'' (ptp_sync_tuner report ex_ptp_g) = Some g' \<and> rate_of g' = - 1"
  using report_speeds_up_master [of "\<lambda>_. Some (master_report ex_su (ex_published\<lparr>tr_u_nsec := 3000\<rparr>))" "''x''"
      ex_su "ex_published\<lparr>tr_u_nsec := 3000\<rparr>" "''tl''" ex_ptp_g ex_published]
  by (auto simp: ex_ptp_inv ex_su_def)

end
