(* ===== verification/Ntp_Sync.thy ===== *)
theory Ntp_Sync
  imports Sync_Base
begin

text \<open>
  The NTP plug-in of the sync service, \<open>sync/ntp/NTP18.cpp\<close>: start and stop, external
  control with the map of the timelines' demands, the monitor that watches whether
  the demands are met and chooses servers, and the uncertainty thread of the local
  timeline.

  The daemon (chrony, vendored), its command client and the communicator with the
  timeline service appear as the values they return (\<open>ntp_env\<close>) and as the list of
  the calls that act on them.
\<close>

section \<open>State\<close>

record qot_sdata =
  sd_accuracy :: s64
  sd_flag :: bool
  sd_server_ip :: string
  sd_timeline_uuid :: string
  sd_good_data_counter :: int

datatype ntp_effect =
    Client_call string
  | Set_timeline_server int qot_server
  | Adjust_poll s64 s64
  | Quit_program
  | Unmap_clock

text \<open>The process-wide variables and the plug-in.\<close>

record ntp_globals =
  ng_conf_file :: string
  ng_global_clk :: "tl_translation option"
  ng_local_clk :: "tl_translation option"
  ng_qotmap :: "(int \<times> qot_sdata) list"
  ng_point :: "int \<Rightarrow> qot_stat"

record ntp18 =
  nt_kill :: bool
  nt_status_flag :: bool
  nt_su :: sync_uncertainty
  nt_loc_su :: sync_uncertainty
  nt_last :: qot_stat
  nt_loc_last :: qot_stat
  nt_timeline_uuid :: string
  nt_clk :: "tl_translation option"
  nt_local_clk :: "tl_translation option"
  nt_nats_server :: string

record ntp_env =
  ne_clk_memory :: "int \<Rightarrow> tl_translation option"
  ne_ov_memory :: "int \<Rightarrow> tl_translation option"
  ne_client_call :: "string \<Rightarrow> int"
  ne_get_server :: "int \<Rightarrow> qot_server \<Rightarrow> int \<times> qot_server"
  ne_set_server :: "int \<Rightarrow> qot_server \<Rightarrow> int"
  ne_dispersion :: "int \<Rightarrow> double"
  ne_best_source :: "int \<Rightarrow> (string \<times> int) option"
  ne_best_addr :: "int \<Rightarrow> bool"

type_synonym ntp_state = "ntp_globals \<times> ntp18"

text \<open>The map is ordered by the timeline's number.\<close>

fun qotmap_put :: "int \<Rightarrow> qot_sdata \<Rightarrow> (int \<times> qot_sdata) list \<Rightarrow> (int \<times> qot_sdata) list" where
  "qotmap_put i d [] = [(i, d)]"
| "qotmap_put i d ((j, e) # m) =
     (if i < j then (i, d) # (j, e) # m else if i = j then (i, d) # m else (j, e) # qotmap_put i d m)"

section \<open>Life cycle\<close>

definition ntp_Reset :: "ntp18 \<Rightarrow> ntp18" where
  "ntp_Reset p = p\<lparr>nt_status_flag := False\<rparr>"

definition NTP18 ::
  "prob_lib \<Rightarrow> ntp18 \<Rightarrow> uncertainty_params \<Rightarrow> ntp_globals \<Rightarrow> ntp_state option" where
  "NTP18 pl junk config g = do {
     su \<leftarrow> SyncUncertainty pl (nt_su junk) config;
     lsu \<leftarrow> SyncUncertainty pl (nt_loc_su junk) config;
     Some (g\<lparr>ng_global_clk := None, ng_local_clk := None\<rparr>,
           ntp_Reset (junk\<lparr>nt_su := su, nt_loc_su := lsu, nt_clk := None, nt_local_clk := None,
             nt_nats_server := ''nats://nats.default.svc.cluster.local:4222'', nt_timeline_uuid := []\<rparr>))
   }"

text \<open>Only the first start spawns the threads; the statistics are indexed by the timeline's
  number.\<close>

definition ntp_Start :: "int \<Rightarrow> string \<Rightarrow> ntp_state \<Rightarrow> ntp_state option" where
  "ntp_Start timelineid tl_name = (\<lambda>(g, p).
     let p = p\<lparr>nt_timeline_uuid := tl_name\<rparr>
     in if \<not> nt_status_flag p
        then let p = p\<lparr>nt_kill := False, nt_status_flag := True, nt_last := stat0\<rparr>
             in if 0 \<le> timelineid \<and> timelineid < MAX_TIMELINES
                then Some (g\<lparr>ng_point := (ng_point g)(timelineid := stat0)\<rparr>, p)
                else None
        else Some (g, p))"

text \<open>Stopping joins the threads and unmaps the clock; the status flag and the pointer stay.\<close>

definition ntp_Stop :: "ntp18 \<Rightarrow> ntp_effect list \<times> ntp18" where
  "ntp_Stop p = (if \<not> nt_status_flag p then ([], p) else ([Quit_program, Unmap_clock], p\<lparr>nt_kill := True\<rparr>))"

text \<open>The memory of the global clock, asked for by the synchronisation thread; without it the
  thread ends.\<close>

definition ntp_map_global :: "ntp_env \<Rightarrow> int \<Rightarrow> ntp_state \<Rightarrow> bool \<times> ntp_state" where
  "ntp_map_global env timelineid = (\<lambda>(g, p).
     let p = p\<lparr>nt_clk := ne_clk_memory env timelineid\<rparr>
     in if nt_clk p \<noteq> None then (True, g\<lparr>ng_global_clk := nt_clk p\<rparr>, p) else (False, g, p))"

section \<open>External control\<close>

text \<open>The return value, what the argument points to afterwards, the calls, the state.\<close>

definition ntp_request_main ::
  "ntp_env \<Rightarrow> ext_arg \<Rightarrow> ntp_state \<Rightarrow> (int \<times> ext_arg \<times> ntp_effect list \<times> ntp_state) option" where
  "ntp_request_main env pointer = (\<lambda>(g, p). case pointer of
      Ptr_index i \<Rightarrow>
        let p = p\<lparr>nt_local_clk := ne_clk_memory env i\<rparr>;
            g = (if nt_local_clk p \<noteq> None then g\<lparr>ng_local_clk := nt_local_clk p\<rparr> else g)
        in Some (0, pointer, [], g, p)
    | _ \<Rightarrow> None)"

definition ntp_request_ov ::
  "ntp_env \<Rightarrow> ext_arg \<Rightarrow> ntp_state \<Rightarrow> (int \<times> ext_arg \<times> ntp_effect list \<times> ntp_state) option" where
  "ntp_request_ov env pointer s = (case pointer of
      Ptr_index i \<Rightarrow>
        (case ne_ov_memory env i of
           None \<Rightarrow> Some (0, pointer, [], s)
         | Some clk \<Rightarrow> Some (0, Ptr_clock clk, [], s))
    | _ \<Rightarrow> None)"

definition ntp_add_tl :: "syncmsg \<Rightarrow> ntp_globals \<Rightarrow> ntp_globals" where
  "ntp_add_tl m g =
     (let sflag = \<lparr>sd_accuracy = demanded_accuracy (sm_demand m), sd_flag = False, sd_server_ip = [],
                   sd_timeline_uuid = tln_name (sm_info m), sd_good_data_counter = 0\<rparr>
      in g\<lparr>ng_qotmap := qotmap_put (tln_index (sm_info m)) sflag (ng_qotmap g)\<rparr>)"

definition ntp_del_tl :: "syncmsg \<Rightarrow> ntp_globals \<Rightarrow> ntp_globals" where
  "ntp_del_tl m g = g\<lparr>ng_qotmap := filter (\<lambda>(i, _). i \<noteq> tln_index (sm_info m)) (ng_qotmap g)\<rparr>"

definition ntp_ExtControl ::
  "ntp_env \<Rightarrow> ext_arg \<Rightarrow> ext_ctrl_options \<Rightarrow> ntp_state \<Rightarrow> (int \<times> ext_arg \<times> ntp_effect list \<times> ntp_state) option" where
  "ntp_ExtControl env pointer type s =
     (let (g, p) = s in
      if pointer = Ptr_null then Some (- 1, pointer, [], s)
      else case type of
        REQ_LOCAL_TL_CLOCK_MAIN \<Rightarrow> ntp_request_main env pointer s
      | REQ_LOCAL_TL_CLOCK_OV \<Rightarrow> ntp_request_ov env pointer s
      | SET_PUBSUB_SERVER \<Rightarrow>
          (case pointer of Ptr_text t \<Rightarrow> Some (0, pointer, [], g, p\<lparr>nt_nats_server := c_str t\<rparr>) | _ \<Rightarrow> None)
      | MODIFY_SYNC_PARAMS \<Rightarrow>
          (case pointer of
             Ptr_text t \<Rightarrow> Some (ne_client_call env (c_str t), pointer, [Client_call (c_str t)], s)
           | _ \<Rightarrow> None)
      | GET_TIMELINE_SERVER \<Rightarrow>
          (case pointer of
             Ptr_server sv \<Rightarrow>
               let (r, sv) = ne_get_server env (sv_timeline_id sv) sv in Some (r, Ptr_server sv, [], s)
           | _ \<Rightarrow> None)
      | SET_TIMELINE_SERVER \<Rightarrow>
          (case pointer of
             Ptr_server sv \<Rightarrow> Some (ne_set_server env (sv_timeline_id sv) sv, pointer,
                                [Set_timeline_server (sv_timeline_id sv) sv], s)
           | _ \<Rightarrow> None)
      | ADD_TL_SYNC_DATA \<Rightarrow>
          (case pointer of Ptr_msg m \<Rightarrow> Some (0, pointer, [], ntp_add_tl m g, p) | _ \<Rightarrow> None)
      | DEL_TL_SYNC_DATA \<Rightarrow>
          (case pointer of Ptr_msg m \<Rightarrow> Some (0, pointer, [], ntp_del_tl m g, p) | _ \<Rightarrow> None)
      | SET_INIT_SYNC_CFG \<Rightarrow>
          (case pointer of Ptr_text t \<Rightarrow> Some (0, pointer, [], g\<lparr>ng_conf_file := c_str t\<rparr>, p) | _ \<Rightarrow> None))"


section \<open>The monitor of the demands\<close>

definition QOT_SERVER_GOOD_ITERATIONS :: int where "QOT_SERVER_GOOD_ITERATIONS = 5"

definition pool_server :: ntp_effect where
  "pool_server = Client_call ''add server 0.pool.ntp.org maxpoll 5''"

definition burst :: ntp_effect where
  "burst = Client_call ''burst 5/10''"

text \<open>A good sample of one timeline: after enough of them in a row the best source becomes
  the timeline's server.  \<open>server\<close> is the local variable that all timelines share.\<close>

definition ntp_good ::
  "ntp_env \<Rightarrow> int \<Rightarrow> qot_sdata \<Rightarrow> qot_server \<Rightarrow> qot_sdata \<times> qot_server \<times> ntp_effect list" where
  "ntp_good env tid d server =
     (let d = (if sd_good_data_counter d < 0 then d\<lparr>sd_good_data_counter := 0\<rparr> else d);
          d = d\<lparr>sd_good_data_counter := s32 (sd_good_data_counter d + 1)\<rparr>
      in if \<not> sd_flag d \<and> sd_good_data_counter d \<ge> QOT_SERVER_GOOD_ITERATIONS
         then (case ne_best_source env tid of
                 None \<Rightarrow> (d, server, [])
               | Some (ip, stratum) \<Rightarrow>
                   let server = server\<lparr>sv_hostname := ip, sv_type := ''global'', sv_stratum := stratum\<rparr>;
                       d = (if ne_set_server env tid server = 0
                            then d\<lparr>sd_flag := True, sd_server_ip := ip\<rparr> else d)
                   in (d, server, [Set_timeline_server tid server]))
         else (d, server, []))"

text \<open>A violation.  A server found at the coordination service is printed into a command
  with \<open>%s\<close> although it is a \<open>std::string\<close> object: no behaviour is defined.  Nor is one for
  the last branch after six violations, where a local \<open>char* input_data\<close> hides the array
  of that name and the command to burst is printed into a string literal.\<close>

definition ntp_bad ::
  "ntp_env \<Rightarrow> int \<Rightarrow> s64 \<Rightarrow> s64 \<Rightarrow> qot_sdata \<Rightarrow> qot_server \<Rightarrow> (qot_sdata \<times> qot_server \<times> ntp_effect list) option" where
  "ntp_bad env tid accuracy max_accuracy d server =
     (let d = d\<lparr>sd_good_data_counter := s32 (sd_good_data_counter d - 1)\<rparr>;
          give_up = (sd_good_data_counter d < - QOT_SERVER_GOOD_ITERATIONS)
      in if sd_flag d \<and> sint max_accuracy < sint (sd_accuracy d)
         then Some (d, server, if ne_best_addr env tid then [Adjust_poll accuracy (sd_accuracy d), burst]
                               else [pool_server])
         else if \<not> sd_flag d
         then let (r, server) = ne_get_server env tid server
              in if r \<noteq> 0
                 then Some (if give_up then (d\<lparr>sd_good_data_counter := 0\<rparr>, server, [pool_server, burst])
                            else (d, server, []))
                 else None
         else if give_up then None
         else Some (d, server, []))"

definition ntp_monitor_one ::
  "ntp_env \<Rightarrow> tl_translation \<Rightarrow> int \<Rightarrow> qot_sdata \<Rightarrow> qot_server \<Rightarrow> (qot_sdata \<times> qot_server \<times> ntp_effect list) option" where
  "ntp_monitor_one env clk tid d server =
     (let accuracy = s64_of_d (d_mul (ne_dispersion env tid) 1000000000)
      in if sint accuracy \<le> sint (sd_accuracy d) then Some (ntp_good env tid d server)
         else ntp_bad env tid accuracy (tr_u_nsec clk) d server)"

fun ntp_monitor_pass ::
  "ntp_env \<Rightarrow> tl_translation \<Rightarrow> (int \<times> qot_sdata) list \<Rightarrow> qot_server
     \<Rightarrow> ((int \<times> qot_sdata) list \<times> qot_server \<times> ntp_effect list) option" where
  "ntp_monitor_pass env clk [] server = Some ([], server, [])"
| "ntp_monitor_pass env clk ((tid, d) # m) server = do {
     (d, server, es) \<leftarrow> ntp_monitor_one env clk tid d server;
     (m, server, es') \<leftarrow> ntp_monitor_pass env clk m server;
     Some ((tid, d) # m, server, es @ es')
   }"

text \<open>The passes of the uncertainty thread until it is told to stop.  The shared clock
  parameters are dereferenced for every timeline.\<close>

fun ntp_monitor ::
  "(bool \<times> ntp_env) list \<Rightarrow> ntp_globals \<Rightarrow> qot_server \<Rightarrow> (ntp_globals \<times> qot_server \<times> ntp_effect list) option" where
  "ntp_monitor [] g server = Some (g, server, [])"
| "ntp_monitor ((stop, env) # envs) g server =
     (if stop then Some (g, server, [])
      else if ng_qotmap g = [] then ntp_monitor envs g server
      else do {
        clk \<leftarrow> ng_global_clk g;
        (m, server, es) \<leftarrow> ntp_monitor_pass env clk (ng_qotmap g) server;
        (g, server, es') \<leftarrow> ntp_monitor envs (g\<lparr>ng_qotmap := m\<rparr>) server;
        Some (g, server, es @ es')
      })"

section \<open>The uncertainty of the local timeline\<close>

definition fake_local_timelineid :: int where "fake_local_timelineid = 1"

text \<open>What the thread clears when it starts.\<close>

definition ntp_local_setup :: "int \<Rightarrow> ntp_state \<Rightarrow> ntp_state" where
  "ntp_local_setup nats = (\<lambda>(g, p).
     (g\<lparr>ng_point := (ng_point g)(fake_local_timelineid := stat0)\<rparr>,
      p\<lparr>nt_loc_last := stat0, nt_loc_su := snd (natsConnect nats (nt_loc_su p))\<rparr>))"

text \<open>A wake-up of the thread: the statistic \<open>ng_point\<close> is new when its identifier is larger.\<close>

definition ntp_local_wakeup ::
  "prob_lib \<Rightarrow> (string \<Rightarrow> int) \<Rightarrow> ntp_state \<Rightarrow> ((string \<times> json) list \<times> ntp_state) option" where
  "ntp_local_wakeup pl create = (\<lambda>(g, p).
     let point = ng_point g fake_local_timelineid
     in if sint (st_data_id (nt_loc_last p)) < sint (st_data_id point)
        then do {
          (ok, params, es, su) \<leftarrow> CalculateBounds pl create (st_offset point)
             (d_div (d_of_s64 (st_drift point)) 1000000000) (nt_local_clk p) (nt_timeline_uuid p) (nt_loc_su p);
          Some (es, g, p\<lparr>nt_loc_last := point, nt_local_clk := params, nt_loc_su := su\<rparr>)
        }
        else Some ([], g, p))"

section \<open>Servers are announced once, after five good samples\<close>

definition meets :: "s64 \<Rightarrow> int \<Rightarrow> ntp_env \<Rightarrow> bool" where
  "meets req tid env \<longleftrightarrow> sint (s64_of_d (d_mul (ne_dispersion env tid) 1000000000)) \<le> sint req"

text \<open>One timeline over a sequence of passes.\<close>

fun ntp_watch ::
  "ntp_env list \<Rightarrow> tl_translation \<Rightarrow> int \<Rightarrow> qot_sdata \<Rightarrow> qot_server \<Rightarrow> (qot_sdata \<times> qot_server \<times> ntp_effect list) option" where
  "ntp_watch [] clk tid d server = Some (d, server, [])"
| "ntp_watch (env # envs) clk tid d server = do {
     (d, server, es) \<leftarrow> ntp_monitor_one env clk tid d server;
     (d, server, es') \<leftarrow> ntp_watch envs clk tid d server;
     Some (d, server, es @ es')
   }"

lemma monitor_single:
  assumes "ng_global_clk g = Some clk" "ng_qotmap g = [(tid, d)]"
  shows "ntp_monitor (map (Pair False) envs) g server =
     map_option (\<lambda>(d, server, es). (g\<lparr>ng_qotmap := [(tid, d)]\<rparr>, server, es)) (ntp_watch envs clk tid d server)"
  using assms
proof (induction envs arbitrary: g d server)
  case (Cons env envs)
  show ?case
  proof (cases "ntp_monitor_one env clk tid d server")
    case (Some r)
    obtain d1 s1 es1 where r: "r = (d1, s1, es1)"
      by (rule prod_cases3)
    let ?g = "g\<lparr>ng_qotmap := [(tid, d1)]\<rparr>"
    have "ntp_monitor (map (Pair False) envs) ?g s1 =
        map_option (\<lambda>(d, server, es). (?g\<lparr>ng_qotmap := [(tid, d)]\<rparr>, server, es)) (ntp_watch envs clk tid d1 s1)"
      by (rule Cons.IH) (use Cons.prems in simp_all)
    then show ?thesis
      using Cons.prems Some by (simp add: r option.map_comp map_option_case split: option.split prod.split)
  qed (use Cons.prems in simp)
qed simp

text \<open>The environment lets a good timeline announce its server.\<close>

definition announces :: "int \<Rightarrow> ntp_env \<Rightarrow> bool" where
  "announces tid env \<longleftrightarrow> ne_best_source env tid \<noteq> None \<and> (\<forall>sv. ne_set_server env tid sv = 0)"

lemma watch_announced:
  assumes "list_all (meets (sd_accuracy d) tid) envs" "sd_flag d" "0 \<le> sd_good_data_counter d"
    and "sd_good_data_counter d + int (length envs) < 2 ^ 31"
  shows "ntp_watch envs clk tid d server =
     Some (d\<lparr>sd_good_data_counter := sd_good_data_counter d + int (length envs)\<rparr>, server, [])"
  using assms
proof (induction envs arbitrary: d)
  case (Cons env envs)
  let ?d = "d\<lparr>sd_good_data_counter := sd_good_data_counter d + 1\<rparr>"
  have "ntp_monitor_one env clk tid d server = Some (?d, server, [])"
    using Cons.prems by (simp add: ntp_monitor_one_def ntp_good_def meets_def Let_def int32_def)
  moreover have "ntp_watch envs clk tid ?d server =
      Some (?d\<lparr>sd_good_data_counter := sd_good_data_counter ?d + int (length envs)\<rparr>, server, [])"
    by (rule Cons.IH) (use Cons.prems in simp_all)
  ultimately show ?case
    by (simp add: add_ac)
qed simp

text \<open>What is announced: the best source of the pass that reaches the fifth good sample.\<close>

definition announced :: "ntp_env list \<Rightarrow> int \<Rightarrow> nat \<Rightarrow> ntp_effect list \<Rightarrow> bool" where
  "announced envs tid k es \<longleftrightarrow>
     (if k + length envs < 5 then es = []
      else \<exists>sv. es = [Set_timeline_server tid sv] \<and> sv_type sv = ''global''
        \<and> ne_best_source (envs ! (4 - k)) tid = Some (sv_hostname sv, sv_stratum sv))"

lemma watch_good:
  assumes "list_all (meets (sd_accuracy d) tid) envs" "list_all (announces tid) envs" "\<not> sd_flag d"
    and "sd_good_data_counter d = int k" "k < 5" "length envs < 2 ^ 30"
  shows "\<exists>d' server' es. ntp_watch envs clk tid d server = Some (d', server', es) \<and>
    sd_good_data_counter d' = int (k + length envs) \<and> (sd_flag d' \<longleftrightarrow> 5 \<le> k + length envs) \<and>
    announced envs tid k es"
  using assms
proof (induction envs arbitrary: d k server)
  case Nil
  then show ?case
    by (simp add: announced_def)
next
  case (Cons env envs)
  let ?d = "d\<lparr>sd_good_data_counter := int (Suc k)\<rparr>"
  have s: "s32 (int k + 1) = int (Suc k)"
    using Cons.prems(5) by (simp add: int32_def)
  obtain ip st where best: "ne_best_source env tid = Some (ip, st)"
    using Cons.prems(2) by (auto simp: announces_def)
  let ?sv = "server\<lparr>sv_hostname := ip, sv_type := ''global'', sv_stratum := st\<rparr>"
  show ?case
  proof (cases "k = 4")
    case True
    let ?e = "?d\<lparr>sd_flag := True, sd_server_ip := ip\<rparr>"
    have one: "ntp_monitor_one env clk tid d server = Some (?e, ?sv, [Set_timeline_server tid ?sv])"
      using Cons.prems(1-4) best True s
      by (simp add: ntp_monitor_one_def ntp_good_def meets_def announces_def Let_def
          QOT_SERVER_GOOD_ITERATIONS_def)
    have "ntp_watch envs clk tid ?e ?sv =
        Some (?e\<lparr>sd_good_data_counter := sd_good_data_counter ?e + int (length envs)\<rparr>, ?sv, [])"
      by (rule watch_announced) (use Cons.prems True in simp_all)
    then show ?thesis
      using True best by (simp add: one announced_def)
  next
    case False
    then have k: "Suc k < 5" "4 - k = Suc (3 - k)" "4 - Suc k = 3 - k"
      using Cons.prems(5) by simp_all
    have one: "ntp_monitor_one env clk tid d server = Some (?d, server, [])"
      using Cons.prems(1,3,4) s k(1)
      by (simp add: ntp_monitor_one_def ntp_good_def meets_def Let_def QOT_SERVER_GOOD_ITERATIONS_def)
    obtain d' server' es where ih: "ntp_watch envs clk tid ?d server = Some (d', server', es)"
      "sd_good_data_counter d' = int (Suc k + length envs)"
      "sd_flag d' \<longleftrightarrow> 5 \<le> Suc k + length envs" "announced envs tid (Suc k) es"
      using Cons.IH [of ?d "Suc k" server] Cons.prems k(1) by auto
    have "announced (env # envs) tid k es"
      using ih(4) unfolding announced_def k(2,3) by simp
    with ih(1-3) show ?thesis
      by (simp add: one)
  qed
qed

text \<open>C36: When a single timeline is monitored, not yet announced, its demand is met in every
  one of fewer than 2^30 passes, the best source is known in every pass and the timeline
  service accepts every announcement: the best source is announced as the timeline's
  server in the fifth pass, once and never again.\<close>

lemma server_announced_after_five_good_samples:
  assumes "ng_global_clk g = Some clk"
    and "ng_qotmap g = [(tid, d)]" "\<not> sd_flag d" "sd_good_data_counter d = 0"
    and "list_all (meets (sd_accuracy d) tid) envs" "list_all (announces tid) envs" "length envs < 2 ^ 30"
  shows "\<exists>d' server' es. ntp_monitor (map (Pair False) envs) g server = Some (g\<lparr>ng_qotmap := [(tid, d')]\<rparr>, server', es) \<and>
     sd_good_data_counter d' = int (length envs) \<and> (sd_flag d' \<longleftrightarrow> 5 \<le> length envs) \<and>
     announced envs tid 0 es"
proof -
  obtain d' server' es where w: "ntp_watch envs clk tid d server = Some (d', server', es)"
    "sd_good_data_counter d' = int (0 + length envs)" "sd_flag d' \<longleftrightarrow> 5 \<le> 0 + length envs"
    "announced envs tid 0 es"
    using watch_good [of d tid envs 0 clk server] assms(3-7) by auto
  have "ntp_monitor (map (Pair False) envs) g server = Some (g\<lparr>ng_qotmap := [(tid, d')]\<rparr>, server', es)"
    by (simp add: monitor_single [OF assms(1,2)] w(1))
  with w(2-4) show ?thesis
    by auto
qed

section \<open>A server is added after every sixth violation\<close>

definition violates :: "s64 \<Rightarrow> int \<Rightarrow> ntp_env \<Rightarrow> bool" where
  "violates req tid env \<longleftrightarrow> \<not> meets req tid env \<and> (\<forall>sv. fst (ne_get_server env tid sv) \<noteq> 0)"

lemma watch_bad:
  assumes "list_all (violates (sd_accuracy d) tid) envs" "\<not> sd_flag d"
    and "sd_good_data_counter d = - int k" "k < 6"
  obtains server' where "ntp_watch envs clk tid d server =
     Some (d\<lparr>sd_good_data_counter := - int ((k + length envs) mod 6)\<rparr>, server',
           concat (replicate ((k + length envs) div 6) [pool_server, burst]))"
proof -
  have "\<exists>server'. ntp_watch envs clk tid d server =
     Some (d\<lparr>sd_good_data_counter := - int ((k + length envs) mod 6)\<rparr>, server',
           concat (replicate ((k + length envs) div 6) [pool_server, burst]))"
    using assms
  proof (induction envs arbitrary: d k server)
    case (Cons env envs)
    obtain r sv where r: "ne_get_server env tid server = (r, sv)" "r \<noteq> 0"
    proof -
      obtain r sv where "ne_get_server env tid server = (r, sv)"
        by (rule prod.exhaust)
      moreover have "fst (ne_get_server env tid server) \<noteq> 0"
        using Cons.prems(1) by (simp add: violates_def)
      ultimately show thesis
        using that by simp
    qed
    have s: "s32 (- int k - 1) = - int k - 1"
      using Cons.prems(4) by (simp add: int32_def)
    show ?case
    proof (cases "k = 5")
      case True
      let ?d = "d\<lparr>sd_good_data_counter := 0\<rparr>"
      have one: "ntp_monitor_one env clk tid d server = Some (?d, sv, [pool_server, burst])"
        using Cons.prems(1-3) r True s
        by (simp add: ntp_monitor_one_def ntp_bad_def violates_def meets_def Let_def
            QOT_SERVER_GOOD_ITERATIONS_def)
      have "\<exists>server'. ntp_watch envs clk tid ?d sv =
          Some (?d\<lparr>sd_good_data_counter := - int ((0 + length envs) mod 6)\<rparr>, server',
            concat (replicate ((0 + length envs) div 6) [pool_server, burst]))"
        by (rule Cons.IH) (use Cons.prems in simp_all)
      moreover have "(5 + length (env # envs)) mod 6 = length envs mod 6"
        "(5 + length (env # envs)) div 6 = Suc (length envs div 6)"
        by simp_all
      ultimately show ?thesis
        unfolding True by (auto simp: one simp del: list.size)
    next
      case False
      let ?d = "d\<lparr>sd_good_data_counter := - int (Suc k)\<rparr>"
      have "- int k - 1 = - int (Suc k)"
        by simp
      then have one: "ntp_monitor_one env clk tid d server = Some (?d, sv, [])"
        using Cons.prems(1-4) r False s
        by (simp add: ntp_monitor_one_def ntp_bad_def violates_def meets_def Let_def
            QOT_SERVER_GOOD_ITERATIONS_def)
      have "\<exists>server'. ntp_watch envs clk tid ?d sv =
          Some (?d\<lparr>sd_good_data_counter := - int ((Suc k + length envs) mod 6)\<rparr>, server',
            concat (replicate ((Suc k + length envs) div 6) [pool_server, burst]))"
        by (rule Cons.IH) (use Cons.prems False in simp_all)
      then show ?thesis
        by (auto simp: one)
    qed
  qed (simp add: mod_less)
  then show thesis
    using that by blast
qed

text \<open>\<close>

lemma violations_add_pool_servers:
  assumes "ng_global_clk g = Some clk"
    and "ng_qotmap g = [(tid, d)]" "\<not> sd_flag d" "sd_good_data_counter d = 0"
    and "list_all (violates (sd_accuracy d) tid) envs"
  shows "\<exists>server'. ntp_monitor (map (Pair False) envs) g server =
     Some (g\<lparr>ng_qotmap := [(tid, d\<lparr>sd_good_data_counter := - int (length envs mod 6)\<rparr>)]\<rparr>, server',
           concat (replicate (length envs div 6) [pool_server, burst]))"
proof -
  obtain server' where "ntp_watch envs clk tid d server =
     Some (d\<lparr>sd_good_data_counter := - int ((0 + length envs) mod 6)\<rparr>, server',
           concat (replicate ((0 + length envs) div 6) [pool_server, burst]))"
    by (rule watch_bad [of d tid envs 0]) (use assms in simp_all)
  then show ?thesis
    by (simp add: monitor_single [OF assms(1,2)])
qed


section \<open>Worked examples\<close>

definition ex_ntp_env :: "double \<Rightarrow> ntp_env" where
  "ex_ntp_env dispersion = \<lparr>ne_clk_memory = \<lambda>_. Some ex_published, ne_ov_memory = \<lambda>_. None,
     ne_client_call = \<lambda>_. 0, ne_get_server = \<lambda>_ sv. (- 1, sv), ne_set_server = \<lambda>_ _. 0,
     ne_dispersion = \<lambda>_. dispersion, ne_best_source = \<lambda>_. Some (''10.0.0.1'', 2), ne_best_addr = \<lambda>_. True\<rparr>"

definition ex_sdata :: qot_sdata where
  "ex_sdata = \<lparr>sd_accuracy = 1000, sd_flag = False, sd_server_ip = [], sd_timeline_uuid = ''gl'',
     sd_good_data_counter = 0\<rparr>"

definition ex_ntp_g :: ntp_globals where
  "ex_ntp_g = \<lparr>ng_conf_file = ''/etc/chrony.conf'', ng_global_clk = Some ex_published, ng_local_clk = None,
     ng_qotmap = [(0, ex_sdata)], ng_point = \<lambda>_. stat0\<rparr>"

lemma ex_dispersion: "s64_of_d (d_mul 0 1000000000) = 0" "s64_of_d (d_mul 1 1000000000) = 1000000000"
  by (simp_all add: d_mul_def rnd_ints s64_of_d_def rtrunc_def)

definition ex_time_server :: qot_server where
  "ex_time_server = \<lparr>sv_hostname = ''ntp'', sv_type = ''global'', sv_stratum = 2, sv_info_timestamp = 0,
     sv_root_dispersion = 0, sv_root_delay = 0, sv_timeline_id = 0\<rparr>"

lemma server_announced_after_five_good_samples_witness:
  "\<exists>g server' sv. ntp_monitor (map (Pair False) (replicate 7 (ex_ntp_env 0))) ex_ntp_g ex_time_server = Some (g, server', [Set_timeline_server 0 sv])
     \<and> sv_hostname sv = ''10.0.0.1''"
proof -
  have "list_all (meets (sd_accuracy ex_sdata) 0) (replicate 7 (ex_ntp_env 0))"
    "list_all (announces 0) (replicate 7 (ex_ntp_env 0))"
    by (simp_all add: list_all_iff meets_def announces_def ex_ntp_env_def ex_sdata_def ex_dispersion)
  from server_announced_after_five_good_samples [OF _ _ _ _ this, of ex_ntp_g ex_published ex_time_server]
  obtain d' server' es where
    m: "ntp_monitor (map (Pair False) (replicate 7 (ex_ntp_env 0))) ex_ntp_g ex_time_server = Some (ex_ntp_g\<lparr>ng_qotmap := [(0, d')]\<rparr>, server', es)"
    and a: "announced (replicate 7 (ex_ntp_env 0)) 0 0 es"
    by (auto simp: ex_ntp_g_def ex_sdata_def)
  from a obtain sv where "es = [Set_timeline_server 0 sv]" "sv_hostname sv = ''10.0.0.1''"
    by (auto simp: announced_def ex_ntp_env_def nth_Cons' simp flip: replicate_Suc)
  with m show ?thesis
    by blast
qed

lemma violations_add_pool_servers_witness:
  "\<exists>g server'. ntp_monitor (map (Pair False) (replicate 13 (ex_ntp_env 1))) ex_ntp_g ex_time_server =
     Some (g, server', [pool_server, burst, pool_server, burst])"
proof -
  have "list_all (violates (sd_accuracy ex_sdata) 0) (replicate 13 (ex_ntp_env 1))"
    by (simp add: list_all_iff violates_def meets_def ex_ntp_env_def ex_sdata_def ex_dispersion)
  from violations_add_pool_servers [OF _ _ _ _ this, of ex_ntp_g ex_published ex_time_server]
  show ?thesis
    by (auto simp: ex_ntp_g_def ex_sdata_def numeral_2_eq_2)
qed

text \<open>A violation without a server, when the coordination service knows one: the command is
  printed from an object that is no C string.\<close>

lemma found_server_undefined:
  assumes "\<not> meets (sd_accuracy d) tid env" "\<not> sd_flag d" "fst (ne_get_server env tid server) = 0"
  shows "ntp_monitor_one env clk tid d server = None"
  using assms by (auto simp: ntp_monitor_one_def ntp_bad_def meets_def Let_def split: prod.split)

text \<open>A violation with a server set, when the dispersion last published does not meet the demand
  either: the sixth in a row prints into a string literal.\<close>

lemma literal_overwritten_undefined:
  assumes "\<not> meets (sd_accuracy d) tid env" "sd_flag d" "sint (sd_accuracy d) \<le> sint (tr_u_nsec clk)"
    and "sd_good_data_counter d = - 5"
  shows "ntp_monitor_one env clk tid d server = None"
  using assms
  by (simp add: ntp_monitor_one_def ntp_bad_def meets_def Let_def QOT_SERVER_GOOD_ITERATIONS_def int32_def)

end
