(* ===== verification/Sync_Service.thy ===== *)
theory Sync_Service
  imports Ptp_Sync Ntp_Sync Timeline_Service
begin

text \<open>
  The synchronisation service, \<open>sync-service/qot_sync_service.cpp\<close>: its requests from the
  timeline service, the plug-ins it starts for them, the clients and receivers of the
  peer synchronisation, and the work it defers to another thread.

  \<open>GlobalSync\<close> is the one NTP plug-in; PTP plug-ins are objects by number, kept alive by
  the shared pointers \<open>LocalSync\<close> and those of the timelines.  A handler is \<open>None\<close> when
  the service does not survive it: a null pointer, an exception nobody catches, a plug-in
  deleted through its base class.
\<close>

section \<open>State\<close>

datatype sync_ptr = Sync_null | Sync_global | Sync_local nat

record tl_sync =
  ts_info :: qot_timeline
  ts_sync :: sync_ptr

datatype sync_effect =
    Ntp ntp_effect
  | Peer_client_start string int string
  | Peer_client_stop string
  | Receiver_start string
  | Receiver_stop string
  | Sync_reply syncmsg
  | Sync_close int

text \<open>The command line.\<close>

record sync_options =
  so_nats :: string
  so_ntpconfig :: string
  so_logsyncrate :: int
  so_peerserver :: int
  so_name :: string

record sync_service =
  ss_global_flag :: bool
  ss_local_flag :: bool
  ss_ptp_flag :: bool
  ss_global :: "ntp18 option"
  ss_ntp :: ntp_globals
  ss_ptp :: ptp_globals
  ss_plugins :: "(nat \<times> ptp18) list"
  ss_next :: nat
  ss_local :: "nat option"
  ss_syncmap :: "(string \<times> tl_sync) list"
  ss_clients :: "string list"
  ss_threads :: "string list"
  ss_threadflags :: "(string \<times> int) list"
  ss_receivers :: "(string \<times> ext_arg option) list"
  ss_node_uuid :: string
  ss_def_req :: bool
  ss_deferred :: "syncmsg list"
  ss_trace :: "sync_effect list"

text \<open>What the libraries and the outside return for one request.\<close>

record sync_env =
  se_pl :: prob_lib
  se_ntp :: ntp_env
  se_junk_ntp :: ntp18
  se_junk_ptp :: ptp18
  se_junk_server :: qot_server
  se_client_start :: "string \<Rightarrow> int"

definition ss_emit :: "sync_effect list \<Rightarrow> sync_service \<Rightarrow> sync_service" where
  "ss_emit es s = s\<lparr>ss_trace := ss_trace s @ es\<rparr>"

definition get_plugin :: "nat \<Rightarrow> sync_service \<Rightarrow> ptp18 option" where
  "get_plugin n s = map_of (ss_plugins s) n"

definition put_plugin :: "nat \<Rightarrow> ptp_globals \<times> ptp18 \<Rightarrow> sync_service \<Rightarrow> sync_service" where
  "put_plugin n = (\<lambda>(g, p) s. s\<lparr>ss_ptp := g, ss_plugins := AList.update n p (ss_plugins s)\<rparr>)"

section \<open>Calls through the pointers\<close>

definition global_ExtControl ::
  "sync_env \<Rightarrow> ext_arg \<Rightarrow> ext_ctrl_options \<Rightarrow> sync_service \<Rightarrow> (int \<times> ext_arg \<times> sync_service) option" where
  "global_ExtControl env pointer type s = do {
     p \<leftarrow> ss_global s;
     (r, out, es, g, p) \<leftarrow> ntp_ExtControl (se_ntp env) pointer type (ss_ntp s, p);
     Some (r, out, ss_emit (map Ntp es) (s\<lparr>ss_ntp := g, ss_global := Some p\<rparr>))
   }"

definition global_Start :: "syncmsg \<Rightarrow> sync_service \<Rightarrow> sync_service option" where
  "global_Start m s = do {
     p \<leftarrow> ss_global s;
     (g, p) \<leftarrow> ntp_Start (tln_index (sm_info m)) (tln_name (sm_info m)) (ss_ntp s, p);
     Some (s\<lparr>ss_ntp := g, ss_global := Some p\<rparr>)
   }"

definition local_ExtControl :: "nat \<Rightarrow> ext_arg \<Rightarrow> ext_ctrl_options \<Rightarrow> sync_service \<Rightarrow> (int \<times> sync_service) option" where
  "local_ExtControl n pointer type s = do {
     p \<leftarrow> get_plugin n s;
     (r, p) \<leftarrow> ptp_ExtControl pointer type p;
     Some (r, put_plugin n (ss_ptp s, p) s)
   }"

fun sync_ExtControl ::
  "sync_env \<Rightarrow> sync_ptr \<Rightarrow> ext_arg \<Rightarrow> ext_ctrl_options \<Rightarrow> sync_service \<Rightarrow> sync_service option" where
  "sync_ExtControl env Sync_null pointer type s = None"
| "sync_ExtControl env Sync_global pointer type s =
     map_option (\<lambda>(r, out, s). s) (global_ExtControl env pointer type s)"
| "sync_ExtControl env (Sync_local n) pointer type s = map_option snd (local_ExtControl n pointer type s)"

fun sync_Stop :: "sync_ptr \<Rightarrow> sync_service \<Rightarrow> sync_service option" where
  "sync_Stop Sync_null s = None"
| "sync_Stop Sync_global s = do {
     p \<leftarrow> ss_global s;
     let (es, p) = ntp_Stop p;
     Some (ss_emit (map Ntp es) (s\<lparr>ss_global := Some p\<rparr>))
   }"
| "sync_Stop (Sync_local n) s = do {
     p \<leftarrow> get_plugin n s;
     gp \<leftarrow> ptp_Stop (ss_ptp s, p);
     Some (put_plugin n gp s)
   }"

text \<open>A shared pointer lets go of a plug-in.  When no other points to it the plug-in is
  deleted through a \<open>Sync*\<close>, and \<open>Sync\<close> has no virtual destructor: no behaviour is
  defined, and the thread of the plug-in is not stopped.\<close>

definition referenced :: "nat \<Rightarrow> sync_service \<Rightarrow> bool" where
  "referenced n s \<longleftrightarrow> ss_local s = Some n \<or> Sync_local n \<in> set (map (ts_sync \<circ> snd) (ss_syncmap s))"

definition release :: "nat \<Rightarrow> sync_service \<Rightarrow> sync_service option" where
  "release n s =
     (if referenced n s then Some s else None)"

definition release_opt :: "nat option \<Rightarrow> sync_service \<Rightarrow> sync_service option" where
  "release_opt n s = (case n of None \<Rightarrow> Some s | Some n \<Rightarrow> release n s)"

section \<open>Creating and updating a timeline\<close>

definition set_retval :: "qot_return \<Rightarrow> syncmsg \<Rightarrow> syncmsg" where
  "set_retval r m = m\<lparr>sm_retval := r\<rparr>"

definition set_entry_sync :: "string \<Rightarrow> sync_ptr \<Rightarrow> sync_service \<Rightarrow> sync_service" where
  "set_entry_sync name ptr s =
     s\<lparr>ss_syncmap := AList.map_entry name (\<lambda>t. t\<lparr>ts_sync := ptr\<rparr>) (ss_syncmap s)\<rparr>"

definition sync_update :: "sync_env \<Rightarrow> tl_sync \<Rightarrow> syncmsg \<Rightarrow> sync_service \<Rightarrow> sync_service option" where
  "sync_update env t m s =
     (if tln_type (sm_info m) = QOT_TIMELINE_LOCAL
      then (if ts_sync t \<noteq> Sync_null then sync_ExtControl env (ts_sync t) (Ptr_msg m) ADD_TL_SYNC_DATA s
            else Some s)
      else global_Start m s)"

text \<open>The first global timeline creates the NTP plug-in.\<close>

definition start_global :: "sync_options \<Rightarrow> sync_env \<Rightarrow> syncmsg \<Rightarrow> sync_service \<Rightarrow> sync_service option" where
  "start_global opts env m s = do {
     (g, p) \<leftarrow> NTP18 (se_pl env) (se_junk_ntp env) uncertainty_config (ss_ntp s);
     let s = s\<lparr>ss_ntp := g, ss_global := Some p\<rparr>;
     (_, _, s) \<leftarrow> global_ExtControl env (Ptr_text (so_nats opts)) SET_PUBSUB_SERVER s;
     (_, _, s) \<leftarrow> global_ExtControl env (Ptr_text (so_ntpconfig opts)) SET_INIT_SYNC_CFG s;
     s \<leftarrow> global_Start m s;
     Some (set_entry_sync (tln_name (sm_info m)) Sync_global (s\<lparr>ss_global_flag := True\<rparr>))
   }"

text \<open>Which service a new timeline needs.\<close>

definition choose_sync ::
  "sync_options \<Rightarrow> sync_env \<Rightarrow> syncmsg \<Rightarrow> sync_service \<Rightarrow> (syncmsg \<times> sync_service) option" where
  "choose_sync opts env m s =
     (if tln_type (sm_info m) = QOT_TIMELINE_LOCAL \<and> \<not> ss_local_flag s
      then Some (if ss_global s \<noteq> None then (m, s\<lparr>ss_def_req := True\<rparr>)
                 else (set_retval QOT_RETURN_TYPE_ERR m, s))
      else if tln_type (sm_info m) = QOT_TIMELINE_LOCAL then Some (set_retval QOT_RETURN_TYPE_OK m, s)
      else if tln_type (sm_info m) = QOT_TIMELINE_GLOBAL \<and> \<not> ss_global_flag s
      then map_option (Pair m) (start_global opts env m s)
      else Some (m, (set_entry_sync (tln_name (sm_info m))
                       (if ss_global s = None then Sync_null else Sync_global) s)\<lparr>ss_def_req := True\<rparr>))"

text \<open>A new local timeline gets a PTP plug-in of its own; the previous one loses the pointer
  \<open>LocalSync\<close>.\<close>

definition start_ptp :: "sync_options \<Rightarrow> sync_env \<Rightarrow> syncmsg \<Rightarrow> sync_service \<Rightarrow> sync_service option" where
  "start_ptp opts env m s = do {
     gp \<leftarrow> PTP18 (se_pl env) (se_junk_ptp env) uncertainty_config (ss_ptp s);
     let n = ss_next s;
     let old = ss_local s;
     let s = put_plugin n gp (s\<lparr>ss_next := n + 1, ss_local := Some n\<rparr>);
     s \<leftarrow> release_opt old s;
     (_, s) \<leftarrow> local_ExtControl n (Ptr_text (so_nats opts)) SET_PUBSUB_SERVER s;
     (_, s) \<leftarrow> local_ExtControl n (Ptr_msg m) ADD_TL_SYNC_DATA s;
     ptp_domain \<leftarrow> stoi_auto (sm_data m);
     p \<leftarrow> get_plugin n s;
     gp \<leftarrow> ptp_Start False (so_logsyncrate opts) ptp_domain (tln_index (sm_info m)) (tln_name (sm_info m))
             (ss_node_uuid s) (ss_ptp s, p);
     Some (set_entry_sync (tln_name (sm_info m)) (Sync_local n) (put_plugin n gp s))
   }"

definition start_receiver :: "syncmsg \<Rightarrow> sync_service \<Rightarrow> syncmsg \<times> sync_service" where
  "start_receiver m s =
     (let name = tln_name (sm_info m)
      in if map_of (ss_receivers s) name \<noteq> None then (set_retval QOT_RETURN_TYPE_ERR m, s)
         else (m, ss_emit [Receiver_start name]
                (s\<lparr>ss_def_req := True, ss_receivers := AList.update name None (ss_receivers s)\<rparr>)))"

definition handle_create_update ::
  "sync_options \<Rightarrow> sync_env \<Rightarrow> syncmsg \<Rightarrow> sync_service \<Rightarrow> (syncmsg \<times> sync_service) option" where
  "handle_create_update opts env m s =
     (case map_of (ss_syncmap s) (tln_name (sm_info m)) of
        Some t \<Rightarrow> map_option (Pair m) (sync_update env t m s)
      | None \<Rightarrow> do {
          let s = s\<lparr>ss_syncmap := AList.update (tln_name (sm_info m))
                      \<lparr>ts_info = sm_info m, ts_sync = Sync_null\<rparr> (ss_syncmap s)\<rparr>;
          (m, s) \<leftarrow> choose_sync opts env m s;
          if tln_type (sm_info m) = QOT_TIMELINE_LOCAL
          then if ss_ptp_flag s then map_option (Pair m) (start_ptp opts env m s)
               else Some (start_receiver m s)
          else Some (m, s)
        })"

section \<open>Destroying a timeline\<close>

definition stop_local :: "tl_sync \<Rightarrow> syncmsg \<Rightarrow> sync_service \<Rightarrow> (syncmsg \<times> sync_service) option" where
  "stop_local t m s =
     (let name = tln_name (sm_info m)
      in if ss_ptp_flag s then map_option (Pair m) (sync_Stop (ts_sync t) s)
         else if map_of (ss_receivers s) name = None then Some (set_retval QOT_RETURN_TYPE_ERR m, s)
         else Some (m, ss_emit [Receiver_stop name] (s\<lparr>ss_receivers := AList.delete name (ss_receivers s)\<rparr>)))"

definition handle_tl_destroy :: "sync_env \<Rightarrow> syncmsg \<Rightarrow> sync_service \<Rightarrow> (syncmsg \<times> sync_service) option" where
  "handle_tl_destroy env m s =
     (case map_of (ss_syncmap s) (tln_name (sm_info m)) of
        None \<Rightarrow> Some (set_retval QOT_RETURN_TYPE_ERR m, s)
      | Some t \<Rightarrow> do {
          (m, s) \<leftarrow> (if tln_type (sm_info m) = QOT_TIMELINE_LOCAL then stop_local t m s
                     else map_option (\<lambda>(r, out, s). (m, s)) (global_ExtControl env (Ptr_msg m) DEL_TL_SYNC_DATA s));
          let s = s\<lparr>ss_syncmap := AList.delete (tln_name (sm_info m)) (ss_syncmap s)\<rparr>;
          s \<leftarrow> release_opt (case ts_sync t of Sync_local n \<Rightarrow> Some n | _ \<Rightarrow> None) s;
          Some (m, s)
        })"

section \<open>Peers, updates of the global synchronisation, names\<close>

definition handle_peer_start ::
  "sync_options \<Rightarrow> sync_env \<Rightarrow> syncmsg \<Rightarrow> sync_service \<Rightarrow> syncmsg \<times> sync_service" where
  "handle_peer_start opts env m s =
     (let host = sm_data m
      in if host \<in> set (ss_clients s) then (set_retval QOT_RETURN_TYPE_ERR m, s)
         else let s = ss_emit [Peer_client_start host (so_peerserver opts) (so_name opts)] s
              in if se_client_start env host \<ge> 0
                 then (set_retval QOT_RETURN_TYPE_OK m,
                       s\<lparr>ss_clients := host # ss_clients s,
                         ss_threadflags := AList.update host 1 (ss_threadflags s),
                         ss_threads := host # ss_threads s\<rparr>)
                 else (set_retval QOT_RETURN_TYPE_ERR m, s))"

definition handle_peer_stop :: "syncmsg \<Rightarrow> sync_service \<Rightarrow> syncmsg \<times> sync_service" where
  "handle_peer_stop m s =
     (let host = sm_data m
      in if host \<in> set (ss_clients s)
         then (set_retval QOT_RETURN_TYPE_OK m,
               ss_emit [Peer_client_stop host]
                 (s\<lparr>ss_clients := removeAll host (ss_clients s),
                    ss_threads := removeAll host (ss_threads s),
                    ss_threadflags := AList.delete host (ss_threadflags s)\<rparr>))
         else (set_retval QOT_RETURN_TYPE_ERR m, s))"

definition handle_glob_sync_update ::
  "sync_env \<Rightarrow> syncmsg \<Rightarrow> sync_service \<Rightarrow> (syncmsg \<times> sync_service) option" where
  "handle_glob_sync_update env m s =
     (if map_of (ss_syncmap s) (tln_name (sm_info m)) \<noteq> None \<and> tln_type (sm_info m) = QOT_TIMELINE_GLOBAL
      then do {
        (r, _, s) \<leftarrow> global_ExtControl env (Ptr_text (sm_data m)) MODIFY_SYNC_PARAMS s;
        Some (if r = 0 then m else set_retval QOT_RETURN_TYPE_ERR m, s)
      }
      else Some (set_retval QOT_RETURN_TYPE_ERR m, s))"

text \<open>The name is set, the answer is an error.\<close>

definition handle_set_node_uuid :: "syncmsg \<Rightarrow> sync_service \<Rightarrow> syncmsg \<times> sync_service" where
  "handle_set_node_uuid m s = (set_retval QOT_RETURN_TYPE_ERR m, s\<lparr>ss_node_uuid := sm_data m\<rparr>)"

fun sync_dispatch ::
  "sync_options \<Rightarrow> sync_env \<Rightarrow> csmsg_type \<Rightarrow> syncmsg \<Rightarrow> sync_service \<Rightarrow> (syncmsg \<times> sync_service) option" where
  "sync_dispatch opts env TL_CREATE_UPDATE m s = handle_create_update opts env m s"
| "sync_dispatch opts env TL_DESTROY m s = handle_tl_destroy env m s"
| "sync_dispatch opts env PEER_START m s = Some (handle_peer_start opts env m s)"
| "sync_dispatch opts env PEER_STOP m s = Some (handle_peer_stop m s)"
| "sync_dispatch opts env GLOB_SYNC_UPDATE m s = handle_glob_sync_update env m s"
| "sync_dispatch opts env SET_NODE_UUID m s = Some (handle_set_node_uuid m s)"
| "sync_dispatch opts env TL_UNDEFINED m s = Some (set_retval QOT_RETURN_TYPE_ERR m, s)"
| "sync_dispatch opts env (Csmsg_unnamed i) m s = Some (set_retval QOT_RETURN_TYPE_ERR m, s)"

text \<open>One request with its answer; deferred work gets a thread of its own.\<close>

definition sync_serve ::
  "sync_options \<Rightarrow> sync_env \<Rightarrow> syncmsg \<Rightarrow> sync_service \<Rightarrow> (syncmsg \<times> sync_service) option" where
  "sync_serve opts env m s = do {
     (m, s) \<leftarrow> sync_dispatch opts env (sm_msgtype m) (set_retval QOT_RETURN_TYPE_OK m) s;
     let s = ss_emit [Sync_reply m] s;
     Some (m, if ss_def_req s then s\<lparr>ss_def_req := False, ss_deferred := ss_deferred s @ [m]\<rparr> else s)
   }"

text \<open>One readable client socket: slot \<open>i\<close>.  The loop of \<open>read\<close>s is the one of the timeline
  service; \<open>parse\<close> is the JSON library's parser, its failure an exception nobody catches.\<close>

definition sync_serve_client ::
  "sync_options \<Rightarrow> sync_env \<Rightarrow> (string \<Rightarrow> json option) \<Rightarrow> read_result list \<Rightarrow> nat
     \<Rightarrow> int list \<times> syncmsg \<times> sync_service \<Rightarrow> (int list \<times> syncmsg \<times> sync_service) option" where
  "sync_serve_client opts env parse rs i st = do {
     let (clients, m, s) = st;
     (rcv, recv_flag, closed) \<leftarrow> receive rs;
     let (clients, s) = (if closed then (clients[i := 0], ss_emit [Sync_close (clients ! i)] s) else (clients, s));
     if \<not> recv_flag then Some (clients, m, s)
     else do {
       data \<leftarrow> parse rcv;
       m \<leftarrow> deserialize_syncmsg data m;
       (m, s) \<leftarrow> sync_serve opts env m s;
       Some (clients, m, s)
     }
   }"

section \<open>Deferred work\<close>

definition deferred_main :: "sync_env \<Rightarrow> syncmsg \<Rightarrow> sync_service \<Rightarrow> sync_service option" where
  "deferred_main env m s =
     (if tln_type (sm_info m) = QOT_TIMELINE_LOCAL \<and> \<not> ss_local_flag s
      then do {
        (r, _, s) \<leftarrow> global_ExtControl env (Ptr_index (tln_index (sm_info m))) REQ_LOCAL_TL_CLOCK_MAIN s;
        Some (if r = 0 then s\<lparr>ss_local_flag := True\<rparr> else s)
      }
      else Some s)"

text \<open>The receiver gets whatever the argument points to afterwards.\<close>

definition deferred_overlay :: "sync_env \<Rightarrow> syncmsg \<Rightarrow> sync_service \<Rightarrow> sync_service option" where
  "deferred_overlay env m s =
     (if tln_type (sm_info m) = QOT_TIMELINE_LOCAL \<and> \<not> ss_ptp_flag s
      then do {
        (r, out, s) \<leftarrow> global_ExtControl env (Ptr_index (tln_index (sm_info m))) REQ_LOCAL_TL_CLOCK_OV s;
        if r = 0
        then (if map_of (ss_receivers s) (tln_name (sm_info m)) = None then None
              else Some (s\<lparr>ss_receivers := AList.update (tln_name (sm_info m)) (Some out) (ss_receivers s)\<rparr>))
        else Some s
      }
      else Some s)"

definition deferred_server :: "sync_env \<Rightarrow> syncmsg \<Rightarrow> sync_service \<Rightarrow> sync_service option" where
  "deferred_server env m s =
     (if tln_type (sm_info m) = QOT_TIMELINE_GLOBAL \<and> ss_global_flag s
      then do {
        (_, _, s) \<leftarrow> global_ExtControl env (Ptr_msg m) ADD_TL_SYNC_DATA s;
        let server = (se_junk_server env)\<lparr>sv_hostname := [], sv_type := [], sv_timeline_id := tln_index (sm_info m)\<rparr>;
        (r, out, s) \<leftarrow> global_ExtControl env (Ptr_server server) GET_TIMELINE_SERVER s;
        (case out of
           Ptr_server sv \<Rightarrow>
             if r = 0
             then map_option (\<lambda>(r, out, s). s)
               (global_ExtControl env (Ptr_text (''add server '' @ sv_hostname sv)) MODIFY_SYNC_PARAMS s)
             else Some s
         | _ \<Rightarrow> None)
      }
      else Some s)"

definition deferred_message_handler :: "sync_env \<Rightarrow> syncmsg \<Rightarrow> sync_service \<Rightarrow> sync_service option" where
  "deferred_message_handler env m s =
     (if sm_msgtype m = TL_CREATE_UPDATE
      then deferred_main env m s \<bind> deferred_overlay env m \<bind> deferred_server env m
      else Some s)"

text \<open>A deferred thread runs to its end between two requests.\<close>

definition run_deferred :: "sync_env \<Rightarrow> sync_service \<Rightarrow> sync_service option" where
  "run_deferred env s =
     (case ss_deferred s of
        [] \<Rightarrow> Some s
      | m # ms \<Rightarrow> deferred_message_handler env m (s\<lparr>ss_deferred := ms\<rparr>))"

section \<open>Start-up\<close>

text \<open>With a port the peer-delay server runs and the receivers are used; without one, PTP.\<close>

definition sync_startup :: "sync_options \<Rightarrow> ntp_globals \<Rightarrow> ptp_globals \<Rightarrow> sync_service" where
  "sync_startup opts g h =
     \<lparr>ss_global_flag = False, ss_local_flag = False, ss_ptp_flag = (so_peerserver opts = 0),
      ss_global = None, ss_ntp = g, ss_ptp = h, ss_plugins = [], ss_next = 0, ss_local = None,
      ss_syncmap = [], ss_clients = [], ss_threads = [], ss_threadflags = [], ss_receivers = [],
      ss_node_uuid = so_name opts, ss_def_req = False, ss_deferred = [], ss_trace = []\<rparr>"


section \<open>The plug-ins stay sound\<close>

text \<open>A PTP thread that runs has a configuration of its own that is alive.\<close>

definition threads_ok :: "ptp_globals \<Rightarrow> (nat \<rightharpoonup> ptp18) \<Rightarrow> bool" where
  "threads_ok g P \<longleftrightarrow>
     (\<forall>n p. P n = Some p \<and> pt_thread p \<longrightarrow> (\<exists>c. pt_cfg p = Some c \<and> c \<in> set (pg_live g)))
     \<and> (\<forall>n p m q. P n = Some p \<and> P m = Some q \<and> pt_thread p \<and> pt_thread q \<and> pt_cfg p = pt_cfg q \<longrightarrow> n = m)
     \<and> distinct (pg_live g) \<and> (\<forall>c \<in> set (pg_live g). c < pg_next g)"

lemma threads_okD:
  assumes "threads_ok g P" "P n = Some p" "pt_thread p"
  obtains c where "pt_cfg p = Some c" "c \<in> set (pg_live g)"
  using assms unfolding threads_ok_def by blast

lemma threads_okI:
  assumes "\<And>n p. P n = Some p \<Longrightarrow> pt_thread p \<Longrightarrow> \<exists>c. pt_cfg p = Some c \<and> c \<in> set (pg_live g)"
    and "\<And>n p m q. P n = Some p \<Longrightarrow> P m = Some q \<Longrightarrow> pt_thread p \<Longrightarrow> pt_thread q \<Longrightarrow> pt_cfg p = pt_cfg q \<Longrightarrow> n = m"
    and "distinct (pg_live g)" "\<And>c. c \<in> set (pg_live g) \<Longrightarrow> c < pg_next g"
  shows "threads_ok g P"
  using assms unfolding threads_ok_def by blast

lemma threads_ok_uniq:
  assumes "threads_ok g P" "P n = Some p" "P m = Some q" "pt_thread p" "pt_thread q" "pt_cfg p = pt_cfg q"
  shows "n = m"
  using assms unfolding threads_ok_def by blast

lemma threads_ok_live:
  assumes "threads_ok g P"
  shows "distinct (pg_live g)" "c \<in> set (pg_live g) \<Longrightarrow> c < pg_next g"
  using assms unfolding threads_ok_def by blast+

lemma ptp_Stop_ok:
  assumes "threads_ok g P" "P n = Some p"
  obtains g' p' where "ptp_Stop (g, p) = Some (g', p')" "\<not> pt_thread p'" "threads_ok g' (P(n \<mapsto> p'))"
    "\<not> pt_thread p \<Longrightarrow> g' = g"
proof (cases "pt_thread p")
  case True
  then obtain c where c: "pt_cfg p = Some c" "c \<in> set (pg_live g)"
    using assms by (elim threads_okD)
  let ?g = "g\<lparr>pg_live := remove1 c (pg_live g)\<rparr>" and ?p = "p\<lparr>pt_kill := True, pt_thread := False\<rparr>"
  have "threads_ok ?g (P(n \<mapsto> ?p))"
  proof (rule threads_okI)
    fix m q
    assume m: "(P(n \<mapsto> ?p)) m = Some q" "pt_thread q"
    then have q: "P m = Some q" "m \<noteq> n"
      by (auto split: if_splits)
    obtain d where d: "pt_cfg q = Some d" "d \<in> set (pg_live g)"
      using assms(1) q(1) m(2) by (rule threads_okD)
    have "d \<noteq> c"
      using threads_ok_uniq [OF assms(1) q(1) assms(2) m(2) True] q(2) c(1) d(1) by auto
    with d show "\<exists>c. pt_cfg q = Some c \<and> c \<in> set (pg_live ?g)"
      by simp
  next
    fix m q k r
    assume "(P(n \<mapsto> ?p)) m = Some q" "(P(n \<mapsto> ?p)) k = Some r" "pt_thread q" "pt_thread r" "pt_cfg q = pt_cfg r"
    then show "m = k"
      by (auto split: if_splits intro: threads_ok_uniq [OF assms(1)])
  qed (use threads_ok_live [OF assms(1)] in \<open>auto dest: notin_set_remove1\<close>)
  moreover have "ptp_Stop (g, p) = Some (?g, ?p)"
    using True c by (simp add: ptp_Stop_def config_destroy_def)
  ultimately show thesis
    using that True by simp
next
  case False
  let ?p = "p\<lparr>pt_kill := True, pt_thread := False\<rparr>"
  have "threads_ok g (P(n \<mapsto> ?p))"
    using assms False unfolding threads_ok_def by (auto split: if_splits)
  then show thesis
    using that [of g ?p] False by (simp add: ptp_Stop_def)
qed

lemma threads_ok_idle:
  "threads_ok g P \<Longrightarrow> \<not> pt_thread p \<Longrightarrow> threads_ok g (P(n \<mapsto> p))"
  unfolding threads_ok_def by (auto split: if_splits)

lemma threads_ok_del: "threads_ok g P \<Longrightarrow> threads_ok g (P(n := None))"
  unfolding threads_ok_def by (auto split: if_splits)

lemma threads_ok_create:
  assumes "threads_ok g P"
  shows "threads_ok (g\<lparr>pg_live := pg_next g # pg_live g, pg_next := Suc (pg_next g), pg_config_map := cm\<rparr>) P"
  using assms unfolding threads_ok_def by (fastforce simp: less_Suc_eq)

text \<open>Construction leaves an idle plug-in.\<close>

lemma PTP18_ok:
  assumes "get_inverse_error_func pl (up_pov cfg) \<noteq> None" "threads_ok g P"
  obtains g' p where "PTP18 pl junk cfg g = Some (g', p)" "\<not> pt_thread p" "threads_ok g' P"
proof -
  obtain su where su: "SyncUncertainty pl (pt_su junk) cfg = Some su"
    using assms(1) by (auto simp: SyncUncertainty_def Configure_def)
  show thesis
    by (rule that, simp add: PTP18_def su ptp_Reset_def config_create_def Let_def)
      (simp_all add: threads_ok_create [OF assms(2)])
qed

lemma ptp_Start_ok:
  assumes "threads_ok g P" "P n = Some p" "\<not> pt_thread p" "0 \<le> i" "i < MAX_TIMELINES"
  obtains g' p' where "ptp_Start master l dn i name node (g, p) = Some (g', p')" "threads_ok g' (P(n \<mapsto> p'))"
    "pg_items g' ''domainNumber'' = dn" "pt_thread p'" "pt_timeline_uuid p' = name"
proof -
  let ?c = "pg_next g"
  have fresh: "q \<noteq> Some ?c" if "P m = Some r" "pt_thread r" "pt_cfg r = q" for m r q
  proof -
    note h = that
    obtain c where "pt_cfg r = Some c" "c \<in> set (pg_live g)"
      using assms(1) h(1,2) by (rule threads_okD)
    with threads_ok_live(2) [OF assms(1)] h(3) show ?thesis
      by (cases q) auto
  qed
  obtain g' p' where s: "ptp_Start master l dn i name node (g, p) = Some (g', p')"
    and g': "pg_live g' = ?c # pg_live g" "pg_next g' = Suc ?c" "pg_items g' ''domainNumber'' = dn"
    and p': "pt_cfg p' = Some ?c" "pt_thread p'" "pt_timeline_uuid p' = name"
    using assms(3-5)
    by (cases master) (simp_all add: ptp_Start_def ptp_Stop_def config_create_def config_set_int_def Let_def)
  have "threads_ok g' (P(n \<mapsto> p'))"
  proof (rule threads_okI)
    fix m q
    assume "(P(n \<mapsto> p')) m = Some q" "pt_thread q"
    then show "\<exists>c. pt_cfg q = Some c \<and> c \<in> set (pg_live g')"
      using g'(1) p'(1) by (cases "m = n") (simp, metis fun_upd_other list.set_intros(2) assms(1) threads_okD)
  next
    fix m q k r
    assume "(P(n \<mapsto> p')) m = Some q" "(P(n \<mapsto> p')) k = Some r" "pt_thread q" "pt_thread r" "pt_cfg q = pt_cfg r"
    then show "m = k"
      using fresh p'(1) by (cases "m = n"; cases "k = n") (auto intro: threads_ok_uniq [OF assms(1)])
  qed (use threads_ok_live [OF assms(1)] g' in \<open>fastforce simp: less_Suc_eq\<close>)+
  with s g'(3) p'(2,3) show thesis
    using that by blast
qed

lemma ptp_ExtControl_frame:
  assumes "ptp_ExtControl pointer type p = Some (r, p')"
  shows "pt_thread p' = pt_thread p" "pt_cfg p' = pt_cfg p" "pt_timeline_uuid p' = pt_timeline_uuid p"
  using assms
  by (auto simp: ptp_ExtControl_def ptp_SetPubSubServer_def ptp_SetDesiredAccuracy_def
      split: if_splits ext_ctrl_options.splits ext_arg.splits)

lemma threads_ok_same:
  assumes "threads_ok g P" "P n = Some p" "pt_thread p' = pt_thread p" "pt_cfg p' = pt_cfg p"
  shows "threads_ok g (P(n \<mapsto> p'))"
  using assms unfolding threads_ok_def by (auto split: if_splits)

section \<open>The state of the service stays sound\<close>

definition entry_ok :: "bool \<Rightarrow> (nat \<rightharpoonup> ptp18) \<Rightarrow> tl_sync \<Rightarrow> bool" where
  "entry_ok global P t =
     (case ts_sync t of
        Sync_null \<Rightarrow> False
      | Sync_global \<Rightarrow> global \<and> tln_type (ts_info t) = QOT_TIMELINE_GLOBAL
      | Sync_local n \<Rightarrow> P n \<noteq> None \<and> tln_type (ts_info t) = QOT_TIMELINE_LOCAL)"

text \<open>The PTP plug-ins and the pointers to them, the flags, the clients of the peers.\<close>

definition plugins_ok :: "sync_service \<Rightarrow> bool" where
  "plugins_ok s \<longleftrightarrow>
     threads_ok (ss_ptp s) (map_of (ss_plugins s))
     \<and> (\<forall>n. map_of (ss_plugins s) n \<noteq> None \<longrightarrow> n < ss_next s)
     \<and> (\<forall>n. ss_local s = Some n \<longrightarrow> map_of (ss_plugins s) n \<noteq> None)"

definition entries_ok :: "string set \<Rightarrow> sync_service \<Rightarrow> bool" where
  "entries_ok X s \<longleftrightarrow>
     (\<forall>name t. map_of (ss_syncmap s) name = Some t \<and> name \<notin> X
        \<longrightarrow> entry_ok (ss_global s \<noteq> None) (map_of (ss_plugins s)) t)"

definition flags_ok :: "sync_service \<Rightarrow> bool" where
  "flags_ok s \<longleftrightarrow>
     ss_ptp_flag s \<and> (ss_global_flag s \<longleftrightarrow> ss_global s \<noteq> None) \<and> (ss_local_flag s \<longrightarrow> ss_global s \<noteq> None)
     \<and> (\<forall>m \<in> set (ss_deferred s). tln_type (sm_info m) = QOT_TIMELINE_LOCAL \<longrightarrow> ss_global s \<noteq> None)"

definition peers_ok :: "sync_service \<Rightarrow> bool" where
  "peers_ok s \<longleftrightarrow>
     distinct (ss_clients s) \<and> ss_threads s = ss_clients s
     \<and> (\<forall>h. map_of (ss_threadflags s) h = (if h \<in> set (ss_clients s) then Some 1 else None))"

text \<open>A PTP plug-in serves at most one timeline.\<close>

definition entries_apart :: "(string \<times> tl_sync) list \<Rightarrow> bool" where
  "entries_apart es \<longleftrightarrow> distinct (map fst es)
     \<and> (\<forall>(k, t) \<in> set es. \<forall>(k', t') \<in> set es. \<forall>n. ts_sync t = Sync_local n \<and> ts_sync t' = Sync_local n \<longrightarrow> k = k')"

definition sound_but :: "string set \<Rightarrow> sync_service \<Rightarrow> bool" where
  "sound_but X s \<longleftrightarrow> plugins_ok s \<and> entries_ok X s \<and> flags_ok s \<and> peers_ok s \<and> entries_apart (ss_syncmap s)"

lemmas sound_defs = sound_but_def plugins_ok_def entries_ok_def flags_ok_def peers_ok_def

lemma entries_apart_Nil [simp]: "entries_apart []"
  by (simp add: entries_apart_def)

lemma entries_apartD:
  assumes "entries_apart es" "(k, t) \<in> set es" "(k', t') \<in> set es" "ts_sync t = Sync_local n" "ts_sync t' = Sync_local n"
  shows "k = k'"
  using assms unfolding entries_apart_def by blast

lemma entries_apart_subset:
  "entries_apart es \<Longrightarrow> set fs \<subseteq> set es \<Longrightarrow> distinct (map fst fs) \<Longrightarrow> entries_apart fs"
  unfolding entries_apart_def by blast

lemma entries_apart_delete: "entries_apart es \<Longrightarrow> entries_apart (AList.delete k es)"
  by (rule entries_apart_subset) (auto simp: entries_apart_def AList.delete_eq distinct_map_filter intro: inj_on_subset)

lemma alist_update_new: "map_of es k = None \<Longrightarrow> AList.update k v es = es @ [(k, v)]"
  by (induction es) auto

lemma entries_apart_new:
  assumes "entries_apart es" "map_of es k = None" "\<And>n. ts_sync t \<noteq> Sync_local n"
  shows "entries_apart (AList.update k t es)"
  using assms unfolding alist_update_new [OF assms(2)] entries_apart_def
  by (auto simp: map_of_eq_None_iff image_iff)

lemma map_entry_set:
  "(k, t) \<in> set (AList.map_entry name f es) \<Longrightarrow> (k, t) \<in> set es \<or> k = name \<and> (\<exists>u. (name, u) \<in> set es \<and> t = f u)"
  by (induction es) (auto split: if_splits)

lemma map_entry_keys: "map fst (AList.map_entry name f es) = map fst es"
  by (induction es) auto

lemma entries_apart_set:
  assumes "entries_apart es" "\<And>n k t. ptr = Sync_local n \<Longrightarrow> (k, t) \<in> set es \<Longrightarrow> ts_sync t \<noteq> Sync_local n"
  shows "entries_apart (AList.map_entry name (\<lambda>t. t\<lparr>ts_sync := ptr\<rparr>) es)"
proof -
  let ?es = "AList.map_entry name (\<lambda>t. t\<lparr>ts_sync := ptr\<rparr>) es"
  have "k = k'" if e: "(k, t) \<in> set ?es" "(k', t') \<in> set ?es" "ts_sync t = Sync_local n" "ts_sync t' = Sync_local n"
    for k t k' t' n
    using map_entry_set [OF e(1)] map_entry_set [OF e(2)] e(3,4) assms(2) [of n] entries_apartD [OF assms(1)]
    by (elim disjE conjE exE) auto
  then show ?thesis
    using assms(1) unfolding entries_apart_def map_entry_keys by blast
qed

text \<open>The calls into the NTP plug-in change only the plug-in and the trace.\<close>

definition only_global :: "sync_service \<Rightarrow> sync_service \<Rightarrow> bool" where
  "only_global s s' \<longleftrightarrow> (\<exists>g p tr. s' = s\<lparr>ss_ntp := g, ss_global := Some p, ss_trace := tr\<rparr>)"

lemma only_globalI:
  "only_global s (s\<lparr>ss_ntp := g, ss_global := Some p, ss_trace := tr\<rparr>)"
  "only_global s (s\<lparr>ss_ntp := g, ss_global := Some p\<rparr>)"
  "only_global s (s\<lparr>ss_global := Some p\<rparr>)"
proof -
  show "only_global s (s\<lparr>ss_ntp := g, ss_global := Some p, ss_trace := tr\<rparr>)" for tr
    unfolding only_global_def by blast
  show "only_global s (s\<lparr>ss_ntp := g, ss_global := Some p\<rparr>)" for g
    unfolding only_global_def by (rule exI [of _ g], rule exI [of _ p], rule exI [of _ "ss_trace s"]) simp
  from this [of "ss_ntp s"] show "only_global s (s\<lparr>ss_global := Some p\<rparr>)"
    by simp
qed

lemma only_global_sound: "only_global s s' \<Longrightarrow> ss_global s \<noteq> None \<Longrightarrow> sound_but X s \<Longrightarrow> sound_but X s'"
  by (auto simp: only_global_def sound_defs)

lemma only_globalD:
  assumes "only_global s s'"
  shows "ss_global s' \<noteq> None" "ss_global_flag s' = ss_global_flag s" "ss_local_flag s' = ss_local_flag s"
    "ss_def_req s' = ss_def_req s" "ss_syncmap s' = ss_syncmap s" "ss_ptp_flag s' = ss_ptp_flag s"
    "ss_deferred s' = ss_deferred s" "ss_plugins s' = ss_plugins s"
  using assms by (auto simp: only_global_def)

lemma only_global_trans: "only_global s s' \<Longrightarrow> only_global s' s'' \<Longrightarrow> only_global s s''"
  unfolding only_global_def [of s s'] only_global_def [of s' s''] by (elim exE) (simp add: only_globalI)

fun arg_fits :: "ext_arg \<Rightarrow> ext_ctrl_options \<Rightarrow> bool" where
  "arg_fits (Ptr_text t) type = (type \<in> {SET_PUBSUB_SERVER, MODIFY_SYNC_PARAMS, SET_INIT_SYNC_CFG})"
| "arg_fits (Ptr_index i) type = (type \<in> {REQ_LOCAL_TL_CLOCK_MAIN, REQ_LOCAL_TL_CLOCK_OV})"
| "arg_fits (Ptr_msg m) type = (type \<in> {ADD_TL_SYNC_DATA, DEL_TL_SYNC_DATA})"
| "arg_fits (Ptr_server sv) type = (type \<in> {GET_TIMELINE_SERVER, SET_TIMELINE_SERVER})"
| "arg_fits Ptr_null type = True"
| "arg_fits (Ptr_clock c) type = False"

lemma ntp_ExtControl_total:
  assumes "arg_fits pointer type"
  obtains r out es g' p' where "ntp_ExtControl env pointer type (g, p) = Some (r, out, es, g', p')"
    "(\<exists>sv. pointer = Ptr_server sv) \<Longrightarrow> \<exists>sv. out = Ptr_server sv"
proof -
  have "\<exists>r out es g' p'. ntp_ExtControl env pointer type (g, p) = Some (r, out, es, g', p') \<and>
      ((\<exists>sv. pointer = Ptr_server sv) \<longrightarrow> (\<exists>sv. out = Ptr_server sv))"
    using assms
    by (cases pointer)
      (auto simp: ntp_ExtControl_def ntp_request_main_def ntp_request_ov_def Let_def
        split: option.split prod.split)
  then show thesis
    using that by blast
qed

lemma global_ExtControl_ok:
  assumes "ss_global s \<noteq> None" "arg_fits pointer type"
  obtains r out s' where "global_ExtControl env pointer type s = Some (r, out, s')" "only_global s s'"
    "(\<exists>sv. pointer = Ptr_server sv) \<Longrightarrow> \<exists>sv. out = Ptr_server sv"
proof -
  obtain p where p: "ss_global s = Some p"
    using assms(1) by blast
  obtain r out es g' p' where "ntp_ExtControl (se_ntp env) pointer type (ss_ntp s, p) = Some (r, out, es, g', p')"
    "(\<exists>sv. pointer = Ptr_server sv) \<Longrightarrow> \<exists>sv. out = Ptr_server sv"
    by (rule ntp_ExtControl_total [OF assms(2), of "se_ntp env" "ss_ntp s" p]) blast
  with p show thesis
    by (intro that) (simp_all add: global_ExtControl_def ss_emit_def, rule only_globalI)
qed

lemma global_Start_ok:
  assumes "ss_global s \<noteq> None" "0 \<le> tln_index (sm_info m)" "tln_index (sm_info m) < MAX_TIMELINES"
  obtains s' where "global_Start m s = Some s'" "only_global s s'"
proof -
  obtain p where "ss_global s = Some p"
    using assms(1) by blast
  then have "\<exists>s'. global_Start m s = Some s' \<and> only_global s s'"
    using assms(2,3) by (cases "nt_status_flag p") (simp_all add: global_Start_def ntp_Start_def only_globalI Let_def)
  then show thesis
    using that by blast
qed

text \<open>The calls into a PTP plug-in.\<close>

lemma put_plugin_sound:
  assumes "sound_but X s" "map_of (ss_plugins s) n \<noteq> None"
    "threads_ok g ((map_of (ss_plugins s))(n \<mapsto> p))"
  shows "sound_but X (put_plugin n (g, p) s)"
proof -
  have "entry_ok G ((map_of (ss_plugins s))(n \<mapsto> p)) t = entry_ok G (map_of (ss_plugins s)) t" for G t
    using assms(2) by (auto simp: entry_ok_def split: sync_ptr.splits)
  then show ?thesis
    using assms by (auto simp: sound_defs put_plugin_def update_conv')
qed

lemma local_ExtControl_ok:
  assumes "sound_but X s" "map_of (ss_plugins s) n = Some p"
    "(type = SET_PUBSUB_SERVER \<and> (\<exists>t. pointer = Ptr_text t)) \<or> (type = ADD_TL_SYNC_DATA \<and> (\<exists>m. pointer = Ptr_msg m))"
  obtains r p' where "local_ExtControl n pointer type s = Some (r, put_plugin n (ss_ptp s, p') s)"
    "sound_but X (put_plugin n (ss_ptp s, p') s)" "pt_thread p' = pt_thread p"
proof -
  obtain r p' where e: "ptp_ExtControl pointer type p = Some (r, p')"
    using assms(3) by (auto simp: ptp_ExtControl_def)
  have "threads_ok (ss_ptp s) ((map_of (ss_plugins s))(n \<mapsto> p'))"
    using assms(1,2) by (intro threads_ok_same) (simp_all add: sound_defs ptp_ExtControl_frame [OF e])
  then have "sound_but X (put_plugin n (ss_ptp s, p') s)"
    using assms by (intro put_plugin_sound) auto
  then show thesis
    using that e assms(2) ptp_ExtControl_frame(1) [OF e] by (simp add: local_ExtControl_def get_plugin_def)
qed

lemma local_Stop_ok:
  assumes "sound_but X s" "map_of (ss_plugins s) n = Some p"
  obtains g p' where "sync_Stop (Sync_local n) s = Some (put_plugin n (g, p') s)"
    "sound_but X (put_plugin n (g, p') s)"
proof -
  have "threads_ok (ss_ptp s) (map_of (ss_plugins s))"
    using assms(1) by (simp add: sound_defs)
  then obtain g p' where s: "ptp_Stop (ss_ptp s, p) = Some (g, p')" "threads_ok g ((map_of (ss_plugins s))(n \<mapsto> p'))"
    using assms(2) by (rule ptp_Stop_ok)
  then have "sound_but X (put_plugin n (g, p') s)"
    using assms by (intro put_plugin_sound) auto
  with s(1) assms(2) show thesis
    by (intro that) (simp_all add: get_plugin_def)
qed

section \<open>Requests and deferred work keep the service sound\<close>

text \<open>What a request has to respect: its timeline is of one of the two kinds, numbered within
  the arrays, of the kind it was created with, and a new local timeline comes with
  the number of a PTP domain.\<close>

definition sync_request_ok :: "syncmsg \<Rightarrow> sync_service \<Rightarrow> bool" where
  "sync_request_ok m s \<longleftrightarrow>
     (sm_msgtype m \<in> {TL_CREATE_UPDATE, TL_DESTROY, GLOB_SYNC_UPDATE} \<longrightarrow>
        tln_type (sm_info m) \<in> {QOT_TIMELINE_LOCAL, QOT_TIMELINE_GLOBAL}
        \<and> 0 \<le> tln_index (sm_info m) \<and> tln_index (sm_info m) < MAX_TIMELINES
        \<and> (\<forall>t. map_of (ss_syncmap s) (tln_name (sm_info m)) = Some t
              \<longrightarrow> tln_type (ts_info t) = tln_type (sm_info m)))
     \<and> (sm_msgtype m = TL_CREATE_UPDATE \<and> tln_type (sm_info m) = QOT_TIMELINE_LOCAL
          \<and> map_of (ss_syncmap s) (tln_name (sm_info m)) = None \<longrightarrow> stoi_auto (sm_data m) \<noteq> None)"

definition sync_lib_ok :: "sync_env \<Rightarrow> bool" where
  "sync_lib_ok env \<longleftrightarrow> get_inverse_error_func (se_pl env) (up_pov uncertainty_config) \<noteq> None"

text \<open>The answer is about the same timeline, and work is deferred only where it can run.\<close>

definition handled :: "syncmsg \<Rightarrow> syncmsg \<Rightarrow> sync_service \<Rightarrow> bool" where
  "handled m m' s \<longleftrightarrow>
     sound_but {} s \<and> sm_info m' = sm_info m
     \<and> (ss_def_req s \<and> tln_type (sm_info m) = QOT_TIMELINE_LOCAL \<longrightarrow> ss_global s \<noteq> None)"

lemma set_retval_info [simp]: "sm_info (set_retval r m) = sm_info m" "sm_data (set_retval r m) = sm_data m"
  "sm_msgtype (set_retval r m) = sm_msgtype m" "sm_retval (set_retval r m) = r"
  by (simp_all add: set_retval_def)

lemma sound_def_req [simp]: "sound_but X (s\<lparr>ss_def_req := b\<rparr>) = sound_but X s"
  by (simp add: sound_defs)

lemma soundD:
  assumes "sound_but X s"
  shows "ss_ptp_flag s" "ss_global_flag s \<longleftrightarrow> ss_global s \<noteq> None" "ss_local_flag s \<Longrightarrow> ss_global s \<noteq> None"
  using assms by (auto simp: sound_defs)

lemma soundE:
  assumes "sound_but X s" "map_of (ss_syncmap s) name = Some t" "name \<notin> X"
  shows "entry_ok (ss_global s \<noteq> None) (map_of (ss_plugins s)) t"
  using assms unfolding sound_but_def entries_ok_def by blast

lemma set_entry_sync_sound:
  assumes "sound_but X s" "X \<subseteq> {name}" "map_of (ss_syncmap s) name = Some t"
    "entry_ok (ss_global s \<noteq> None) (map_of (ss_plugins s)) (t\<lparr>ts_sync := ptr\<rparr>)"
    and fresh: "\<And>n k t. ptr = Sync_local n \<Longrightarrow> (k, t) \<in> set (ss_syncmap s) \<Longrightarrow> ts_sync t \<noteq> Sync_local n"
  shows "sound_but {} (set_entry_sync name ptr s)"
proof -
  let ?s = "set_entry_sync name ptr s"
  have "entries_ok {} ?s"
    unfolding entries_ok_def
  proof (intro allI impI)
    fix k u
    assume u: "map_of (ss_syncmap ?s) k = Some u \<and> k \<notin> {}"
    show "entry_ok (ss_global ?s \<noteq> None) (map_of (ss_plugins ?s)) u"
    proof (cases "k = name")
      case True
      then show ?thesis
        using u assms(3,4) by (simp add: set_entry_sync_def map_of_map_entry)
    next
      case False
      then have "map_of (ss_syncmap s) k = Some u" "k \<notin> X"
        using u assms(2,3) by (auto simp: set_entry_sync_def map_of_map_entry)
      then show ?thesis
        using soundE [OF assms(1)] by (simp add: set_entry_sync_def)
    qed
  qed
  moreover have "entries_apart (ss_syncmap ?s)"
    using entries_apart_set [OF _ fresh] assms(1) by (simp add: sound_but_def set_entry_sync_def)
  ultimately show ?thesis
    using assms(1) by (simp add: sound_but_def plugins_ok_def flags_ok_def peers_ok_def set_entry_sync_def)
qed

lemma entry_local:
  assumes "sound_but {} s" "map_of (ss_syncmap s) name = Some t" "tln_type (ts_info t) = QOT_TIMELINE_LOCAL"
  obtains n p where "ts_sync t = Sync_local n" "map_of (ss_plugins s) n = Some p"
  using soundE [OF assms(1,2)] assms(3) that by (auto simp: entry_ok_def split: sync_ptr.splits)

lemma entry_global:
  assumes "sound_but {} s" "map_of (ss_syncmap s) name = Some t" "tln_type (ts_info t) = QOT_TIMELINE_GLOBAL"
  shows "ts_sync t = Sync_global" "ss_global s \<noteq> None"
  using soundE [OF assms(1,2)] assms(3) by (auto simp: entry_ok_def split: sync_ptr.splits)

lemma start_global_ok:
  assumes "sound_but {name} s" "ss_global s = None" "sync_lib_ok env" "name = tln_name (sm_info m)"
    "map_of (ss_syncmap s) name = Some t" "tln_type (ts_info t) = QOT_TIMELINE_GLOBAL"
    "0 \<le> tln_index (sm_info m)" "tln_index (sm_info m) < MAX_TIMELINES"
  obtains s' where "start_global opts env m s = Some s'" "sound_but {} s'" "ss_def_req s' = ss_def_req s"
proof -
  let ?c = uncertainty_config
  obtain e where e: "get_inverse_error_func (se_pl env) (up_pov ?c) = Some e"
    using assms(3) by (auto simp: sync_lib_ok_def)
  obtain g p where n: "NTP18 (se_pl env) (se_junk_ntp env) ?c (ss_ntp s) = Some (g, p)"
    using e by (simp add: NTP18_def SyncUncertainty_def Configure_def)
  let ?s = "s\<lparr>ss_ntp := g, ss_global := Some p\<rparr>"
  obtain r1 o1 s1 where s1: "global_ExtControl env (Ptr_text (so_nats opts)) SET_PUBSUB_SERVER ?s = Some (r1, o1, s1)"
      "only_global ?s s1"
    by (rule global_ExtControl_ok [of ?s "Ptr_text (so_nats opts)" SET_PUBSUB_SERVER env]) simp_all
  obtain r2 o2 s2 where s2: "global_ExtControl env (Ptr_text (so_ntpconfig opts)) SET_INIT_SYNC_CFG s1 = Some (r2, o2, s2)"
      "only_global s1 s2"
    by (rule global_ExtControl_ok [of s1 "Ptr_text (so_ntpconfig opts)" SET_INIT_SYNC_CFG env])
      (use only_globalD(1) [OF s1(2)] in simp_all)
  obtain s3 where s3: "global_Start m s2 = Some s3" "only_global s2 s3"
    by (rule global_Start_ok [of s2 m]) (use only_globalD(1) [OF s2(2)] assms(7,8) in simp_all)
  have o: "only_global ?s s3"
    using s1(2) s2(2) s3(2) only_global_trans by blast
  have "sound_but {name} (s3\<lparr>ss_global_flag := True\<rparr>)"
  proof -
    obtain g p' tr where s3: "s3 = ?s\<lparr>ss_ntp := g, ss_global := Some p', ss_trace := tr\<rparr>"
      using o unfolding only_global_def by blast
    have "entry_ok True P t" if "entry_ok False P t" for P t
      using that by (auto simp: entry_ok_def split: sync_ptr.splits)
    then show ?thesis
      using assms(1,2) by (auto simp: s3 sound_defs)
  qed
  then have "sound_but {} (set_entry_sync name Sync_global (s3\<lparr>ss_global_flag := True\<rparr>))"
    by (rule set_entry_sync_sound [where t = t])
      (use assms(5,6) only_globalD [OF o] in \<open>auto simp: entry_ok_def\<close>)
  then show thesis
    using that n s1(1) s2(1) s3(1) only_globalD(4) [OF o]
    by (simp add: start_global_def assms(4)) (simp add: set_entry_sync_def)
qed

text \<open>A plug-in runs for a timeline.\<close>

definition runs_for :: "string \<Rightarrow> nat \<Rightarrow> sync_service \<Rightarrow> bool" where
  "runs_for name n s \<longleftrightarrow> (\<exists>p. get_plugin n s = Some p \<and> pt_thread p \<and> pt_timeline_uuid p = name)"

lemma plugin_Start_ok:
  assumes "sound_but X s" "map_of (ss_plugins s) n = Some p" "\<not> pt_thread p" "0 \<le> i" "i < MAX_TIMELINES"
  obtains gp where "ptp_Start master l dn i name node (ss_ptp s, p) = Some gp" "sound_but X (put_plugin n gp s)"
    "runs_for name n (put_plugin n gp s)" "pg_items (ss_ptp (put_plugin n gp s)) ''domainNumber'' = dn"
proof -
  have "threads_ok (ss_ptp s) (map_of (ss_plugins s))"
    using assms(1) by (simp add: sound_defs)
  then obtain g' p' where "ptp_Start master l dn i name node (ss_ptp s, p) = Some (g', p')"
    "threads_ok g' ((map_of (ss_plugins s))(n \<mapsto> p'))" "pg_items g' ''domainNumber'' = dn" "pt_thread p'" "pt_timeline_uuid p' = name"
    using assms(2-5) by (rule ptp_Start_ok)
  then show thesis
    using assms(1,2)
    by (intro that [of "(g', p')"] put_plugin_sound) (simp_all add: runs_for_def get_plugin_def put_plugin_def update_conv')
qed

text \<open>The pointer \<open>LocalSync\<close> may be moved: its plug-in, if any, serves a timeline.\<close>

definition local_in_use :: "sync_service \<Rightarrow> bool" where
  "local_in_use s \<longleftrightarrow> (\<forall>k. ss_local s = Some k \<longrightarrow> Sync_local k \<in> ts_sync ` snd ` set (ss_syncmap s))"

lemma map_of_entry: "entries_apart es \<Longrightarrow> (k, t) \<in> set es \<Longrightarrow> map_of es k = Some t"
  by (simp add: entries_apart_def)

text \<open>The entries point to plug-ins that exist.\<close>

lemma entry_plugin_lt:
  assumes "sound_but X s" "(k, t) \<in> set (ss_syncmap s)" "k \<notin> X" "ts_sync t = Sync_local n"
  shows "n < ss_next s"
proof -
  have "map_of (ss_syncmap s) k = Some t"
    using assms(1,2) by (intro map_of_entry) (simp_all add: sound_but_def)
  then have "map_of (ss_plugins s) n \<noteq> None"
    using soundE [OF assms(1) _ assms(3)] assms(4) by (fastforce simp: entry_ok_def)
  then show ?thesis
    using assms(1) by (simp add: sound_but_def plugins_ok_def)
qed

text \<open>The new plug-in before the previous one is let go.\<close>

lemma new_plugin_ok:
  assumes "sound_but X s" "PTP18 pl junk cfg (ss_ptp s) = Some (g, p)" "\<not> pt_thread p"
    "threads_ok g (map_of (ss_plugins s))"
  shows "sound_but X (put_plugin (ss_next s) (g, p) (s\<lparr>ss_next := ss_next s + 1, ss_local := Some (ss_next s)\<rparr>))"
proof -
  have "entry_ok G (P(n \<mapsto> p)) t" if "entry_ok G P t" for G P n t
    using that by (auto simp: entry_ok_def split: sync_ptr.splits)
  then show ?thesis
    using assms(1) threads_ok_idle [OF assms(4,3)]
    by (auto simp: sound_defs put_plugin_def update_conv' less_SucI)
qed

lemma start_ptp_ok:
  assumes "sound_but {name} s" "sync_lib_ok env" "name = tln_name (sm_info m)"
    "map_of (ss_syncmap s) name = Some t" "ts_sync t = Sync_null" "tln_type (ts_info t) = QOT_TIMELINE_LOCAL"
    "0 \<le> tln_index (sm_info m)" "tln_index (sm_info m) < MAX_TIMELINES" "stoi_auto (sm_data m) = Some d"
    "local_in_use s"
  obtains s' where "start_ptp opts env m s = Some s'" "sound_but {} s'" "ss_def_req s' = ss_def_req s"
    "ss_global s' = ss_global s" "ss_local s' = Some (ss_next s)" "runs_for name (ss_next s) s'"
    "pg_items (ss_ptp s') ''domainNumber'' = d"
    "map_of (ss_syncmap s') name = Some (t\<lparr>ts_sync := Sync_local (ss_next s)\<rparr>)"
proof -
  let ?n = "ss_next s"
  have th: "threads_ok (ss_ptp s) (map_of (ss_plugins s))"
    using assms(1) by (simp add: sound_defs)
  have "get_inverse_error_func (se_pl env) (up_pov uncertainty_config) \<noteq> None"
    using assms(2) by (simp add: sync_lib_ok_def)
  then obtain g p where p: "PTP18 (se_pl env) (se_junk_ptp env) uncertainty_config (ss_ptp s) = Some (g, p)"
      "\<not> pt_thread p" "threads_ok g (map_of (ss_plugins s))"
    using th by (rule PTP18_ok)
  let ?s1 = "put_plugin ?n (g, p) (s\<lparr>ss_next := ?n + 1, ss_local := Some ?n\<rparr>)"
  have s1: "sound_but {name} ?s1"
    using assms(1) p by (rule new_plugin_ok)
  let ?s2 = ?s1
  have s2: "release_opt (ss_local s) ?s1 = Some ?s2" "sound_but {name} ?s2" "map_of (ss_plugins ?s2) ?n = Some p"
      "ss_syncmap ?s2 = ss_syncmap s" "ss_local ?s2 = Some ?n" "ss_def_req ?s2 = ss_def_req s" "ss_global ?s2 = ss_global s"
    using assms(10) s1
    by (auto simp: release_opt_def release_def referenced_def local_in_use_def put_plugin_def update_conv' image_image
        split: option.split)
  obtain r3 p3 where s3: "local_ExtControl ?n (Ptr_text (so_nats opts)) SET_PUBSUB_SERVER ?s2 =
      Some (r3, put_plugin ?n (ss_ptp ?s2, p3) ?s2)" "sound_but {name} (put_plugin ?n (ss_ptp ?s2, p3) ?s2)"
      "pt_thread p3 = pt_thread p"
    by (rule local_ExtControl_ok [OF s2(2,3), of SET_PUBSUB_SERVER "Ptr_text (so_nats opts)"]) simp_all
  let ?s3 = "put_plugin ?n (ss_ptp ?s2, p3) ?s2"
  have q3: "map_of (ss_plugins ?s3) ?n = Some p3"
    by (simp add: put_plugin_def update_conv')
  obtain r4 p4 where s4: "local_ExtControl ?n (Ptr_msg m) ADD_TL_SYNC_DATA ?s3 =
      Some (r4, put_plugin ?n (ss_ptp ?s3, p4) ?s3)" "sound_but {name} (put_plugin ?n (ss_ptp ?s3, p4) ?s3)"
      "pt_thread p4 = pt_thread p3"
    by (rule local_ExtControl_ok [OF s3(2) q3, of ADD_TL_SYNC_DATA "Ptr_msg m"]) simp_all
  let ?s4 = "put_plugin ?n (ss_ptp ?s3, p4) ?s3"
  have q4: "map_of (ss_plugins ?s4) ?n = Some p4"
    by (simp add: put_plugin_def update_conv')
  obtain gp where s5: "ptp_Start False (so_logsyncrate opts) d (tln_index (sm_info m)) name (ss_node_uuid ?s4) (ss_ptp ?s4, p4) = Some gp"
      "sound_but {name} (put_plugin ?n gp ?s4)" "runs_for name ?n (put_plugin ?n gp ?s4)"
      "pg_items (ss_ptp (put_plugin ?n gp ?s4)) ''domainNumber'' = d"
    by (rule plugin_Start_ok [OF s4(2) q4, of "tln_index (sm_info m)" False "so_logsyncrate opts" d name "ss_node_uuid ?s4"])
      (use p(2) s3(3) s4(3) assms(7,8) in simp_all)
  let ?s5 = "put_plugin ?n gp ?s4"
  have f5: "ss_syncmap ?s5 = ss_syncmap s" "ss_def_req ?s5 = ss_def_req s" "ss_global ?s5 = ss_global s"
    "ss_local ?s5 = Some ?n"
    using s2 by (simp_all add: put_plugin_def split: prod.split)
  have "sound_but {} (set_entry_sync name (Sync_local ?n) ?s5)"
  proof (rule set_entry_sync_sound [OF s5(2), where t = t])
    show "map_of (ss_syncmap ?s5) name = Some t"
      using assms(4) f5 by simp
    show "entry_ok (ss_global ?s5 \<noteq> None) (map_of (ss_plugins ?s5)) (t\<lparr>ts_sync := Sync_local ?n\<rparr>)"
      using assms(6) s5(3) by (auto simp: entry_ok_def runs_for_def get_plugin_def)
    show "ts_sync u \<noteq> Sync_local k" if e: "Sync_local ?n = Sync_local k" "(nm, u) \<in> set (ss_syncmap ?s5)" for k nm u
    proof (cases "nm = name")
      case True
      then have "map_of (ss_syncmap s) name = Some u"
        using e(2) f5(1) assms(1) by (intro map_of_entry) (simp_all add: sound_but_def)
      then show ?thesis
        using assms(4,5) by simp
    next
      case False
      then show ?thesis
        using entry_plugin_lt [OF assms(1), of nm u k] e f5(1) by auto
    qed
  qed simp
  moreover have "start_ptp opts env m s = Some (set_entry_sync name (Sync_local ?n) ?s5)"
    using p(1) s2(1) s3(1) s4(1) s5(1) q4 assms(9)
    by (simp add: start_ptp_def Let_def get_plugin_def flip: assms(3))
  ultimately show thesis
    using that f5 s5(3,4) assms(4) by (simp add: set_entry_sync_def runs_for_def get_plugin_def map_of_map_entry)
qed

lemma sync_update_ok:
  assumes "sound_but {} s" "\<not> ss_def_req s" "sync_request_ok m s" "sm_msgtype m = TL_CREATE_UPDATE"
    "map_of (ss_syncmap s) (tln_name (sm_info m)) = Some t"
  obtains s' where "sync_update env t m s = Some s'" "handled m m s'"
proof (cases "tln_type (sm_info m) = QOT_TIMELINE_LOCAL")
  case True
  have "tln_type (ts_info t) = QOT_TIMELINE_LOCAL"
    using assms(3-5) True by (simp add: sync_request_ok_def)
  with assms(1,5) obtain n p where n: "ts_sync t = Sync_local n" "map_of (ss_plugins s) n = Some p"
    by (rule entry_local)
  obtain r p' where e: "local_ExtControl n (Ptr_msg m) ADD_TL_SYNC_DATA s = Some (r, put_plugin n (ss_ptp s, p') s)"
      "sound_but {} (put_plugin n (ss_ptp s, p') s)"
    by (rule local_ExtControl_ok [OF assms(1) n(2), of ADD_TL_SYNC_DATA "Ptr_msg m"]) simp_all
  show thesis
    using that [of "put_plugin n (ss_ptp s, p') s"] True n(1) e assms(2)
    by (simp add: sync_update_def handled_def put_plugin_def)
next
  case False
  have k: "tln_type (sm_info m) = QOT_TIMELINE_GLOBAL" "tln_type (ts_info t) = QOT_TIMELINE_GLOBAL"
    "0 \<le> tln_index (sm_info m)" "tln_index (sm_info m) < MAX_TIMELINES"
    using assms(3-5) False by (auto simp: sync_request_ok_def)
  note g = entry_global(2) [OF assms(1,5) k(2)]
  obtain s' where s': "global_Start m s = Some s'" "only_global s s'"
    using g k(3,4) by (rule global_Start_ok)
  then have "handled m m s'"
    using only_global_sound [OF s'(2) g assms(1)] only_globalD [OF s'(2)] by (simp add: handled_def)
  then show thesis
    using that s'(1) False by (simp add: sync_update_def)
qed

lemma new_entry_sound:
  assumes "sound_but {} s" "map_of (ss_syncmap s) name = None" "ts_sync t = Sync_null"
  shows "sound_but {name} (s\<lparr>ss_syncmap := AList.update name t (ss_syncmap s)\<rparr>)"
  using assms entries_apart_new [of "ss_syncmap s" name t] by (auto simp: sound_defs update_conv')

lemma choose_sync_local:
  assumes "tln_type (sm_info m) = QOT_TIMELINE_LOCAL"
  shows "\<exists>r s'. choose_sync opts env m s = Some (m\<lparr>sm_retval := r\<rparr>, s') \<and>
     (s' = s \<or> s' = s\<lparr>ss_def_req := True\<rparr> \<and> ss_global s \<noteq> None)"
proof -
  have "choose_sync opts env m s = Some (m\<lparr>sm_retval := sm_retval m\<rparr>, s\<lparr>ss_def_req := True\<rparr>)"
    if "\<not> ss_local_flag s" "ss_global s \<noteq> None"
    using assms that by (simp add: choose_sync_def)
  moreover have "choose_sync opts env m s = Some (m\<lparr>sm_retval := QOT_RETURN_TYPE_OK\<rparr>, s)" if "ss_local_flag s"
    using assms that by (simp add: choose_sync_def set_retval_def)
  moreover have "choose_sync opts env m s = Some (m\<lparr>sm_retval := QOT_RETURN_TYPE_ERR\<rparr>, s)"
    if "\<not> ss_local_flag s" "ss_global s = None"
    using assms that by (simp add: choose_sync_def set_retval_def)
  ultimately show ?thesis
    by (cases "ss_local_flag s"; cases "ss_global s = None") blast+
qed

lemma choose_sync_global:
  assumes "sound_but {name} s" "sync_lib_ok env" "name = tln_name (sm_info m)"
    "map_of (ss_syncmap s) name = Some t" "tln_type (ts_info t) = QOT_TIMELINE_GLOBAL"
    "tln_type (sm_info m) = QOT_TIMELINE_GLOBAL"
    "0 \<le> tln_index (sm_info m)" "tln_index (sm_info m) < MAX_TIMELINES"
  shows "\<exists>s'. choose_sync opts env m s = Some (m, s') \<and> sound_but {} s'"
proof (cases "ss_global s = None")
  case True
  obtain s' where "start_global opts env m s = Some s'" "sound_but {} s'"
    using assms(1) True assms(2-5,7,8) by (rule start_global_ok)
  then show ?thesis
    using soundD(2) [OF assms(1)] True assms(6) by (simp add: choose_sync_def)
next
  case False
  then obtain y where y: "ss_global s = Some y"
    by blast
  have "entry_ok True (map_of (ss_plugins s)) (t\<lparr>ts_sync := Sync_global\<rparr>)"
    using assms(5) by (simp add: entry_ok_def)
  then have "sound_but {} (set_entry_sync name Sync_global s)"
    using y by (intro set_entry_sync_sound [OF assms(1) _ assms(4)]) simp_all
  then show ?thesis
    using soundD(2) [OF assms(1)] y assms(3,6) by (simp add: choose_sync_def)
qed

text \<open>A new local timeline: its PTP session gets the domain the request names.\<close>

lemma create_local_ok:
  assumes "sound_but {} s" "\<not> ss_def_req s" "sync_lib_ok env" "map_of (ss_syncmap s) (tln_name (sm_info m)) = None"
    "tln_type (sm_info m) = QOT_TIMELINE_LOCAL" "0 \<le> tln_index (sm_info m)" "tln_index (sm_info m) < MAX_TIMELINES"
    "stoi_auto (sm_data m) = Some d" "local_in_use s"
  obtains m' s' where "handle_create_update opts env m s = Some (m', s')" "handled m m' s'"
    "ss_local s' = Some (ss_next s)" "runs_for (tln_name (sm_info m)) (ss_next s) s'"
    "pg_items (ss_ptp s') ''domainNumber'' = d"
    "map_of (ss_syncmap s') (tln_name (sm_info m)) = Some \<lparr>ts_info = sm_info m, ts_sync = Sync_local (ss_next s)\<rparr>"
proof -
  let ?name = "tln_name (sm_info m)"
  let ?t = "\<lparr>ts_info = sm_info m, ts_sync = Sync_null\<rparr>"
  let ?s = "s\<lparr>ss_syncmap := AList.update ?name ?t (ss_syncmap s)\<rparr>"
  have s: "sound_but {?name} ?s" "\<not> ss_def_req ?s" "map_of (ss_syncmap ?s) ?name = Some ?t"
    using new_entry_sound [OF assms(1,4)] assms(2) by (simp_all add: update_conv')
  have use0: "local_in_use ?s"
    using assms(9) by (auto simp: local_in_use_def alist_update_new [OF assms(4)])
  obtain r s1 where c: "choose_sync opts env m ?s = Some (m\<lparr>sm_retval := r\<rparr>, s1)"
    "s1 = ?s \<or> s1 = ?s\<lparr>ss_def_req := True\<rparr> \<and> ss_global ?s \<noteq> None"
    using choose_sync_local [OF assms(5), of opts env ?s] by (elim exE conjE) (rule that)
  have "sound_but {?name} s1 \<and> map_of (ss_syncmap s1) ?name = Some ?t \<and>
      (ss_def_req s1 \<longrightarrow> ss_global s1 \<noteq> None) \<and> ss_next s1 = ss_next s \<and> local_in_use s1"
    using c(2)
  proof (elim disjE conjE)
    assume "s1 = ?s"
    with s show "sound_but {?name} s1 \<and> map_of (ss_syncmap s1) ?name = Some ?t \<and>
        (ss_def_req s1 \<longrightarrow> ss_global s1 \<noteq> None) \<and> ss_next s1 = ss_next s \<and> local_in_use s1"
      using use0 by simp
  next
    assume "s1 = ?s\<lparr>ss_def_req := True\<rparr>" "ss_global ?s \<noteq> None"
    with s show "sound_but {?name} s1 \<and> map_of (ss_syncmap s1) ?name = Some ?t \<and>
        (ss_def_req s1 \<longrightarrow> ss_global s1 \<noteq> None) \<and> ss_next s1 = ss_next s \<and> local_in_use s1"
      using use0 by (simp only: sound_def_req) (simp add: local_in_use_def)
  qed
  then have s1: "sound_but {?name} s1" "map_of (ss_syncmap s1) ?name = Some ?t"
      "ss_def_req s1 \<longrightarrow> ss_global s1 \<noteq> None" "ss_next s1 = ss_next s" "local_in_use s1"
    by blast+
  obtain s' where s': "start_ptp opts env (m\<lparr>sm_retval := r\<rparr>) s1 = Some s'" "sound_but {} s'"
    "ss_def_req s' = ss_def_req s1" "ss_global s' = ss_global s1" "ss_local s' = Some (ss_next s1)" "runs_for ?name (ss_next s1) s'"
    "pg_items (ss_ptp s') ''domainNumber'' = d"
    "map_of (ss_syncmap s') ?name = Some (?t\<lparr>ts_sync := Sync_local (ss_next s1)\<rparr>)"
    by (rule start_ptp_ok [OF s1(1) assms(3) _ s1(2), where m = "m\<lparr>sm_retval := r\<rparr>" and d = d and opts = opts])
      (use assms(5-8) s1(5) in simp_all)
  have "handle_create_update opts env m s = Some (m\<lparr>sm_retval := r\<rparr>, s')"
    using assms(4,5) c(1) soundD(1) [OF s1(1)] s'(1) by (simp add: handle_create_update_def)
  moreover have "handled m (m\<lparr>sm_retval := r\<rparr>) s'"
    using s' s1(3) by (simp add: handled_def)
  ultimately show thesis
    by (rule that) (use s' s1(4) in simp_all)
qed

text \<open>The requests that make a plug-in lose its last pointer: a new local timeline moves
  \<open>LocalSync\<close> away from a plug-in whose timeline was destroyed, or a timeline is destroyed
  whose plug-in is no longer that of \<open>LocalSync\<close>.\<close>

definition drops_plugin :: "syncmsg \<Rightarrow> sync_service \<Rightarrow> bool" where
  "drops_plugin m s \<longleftrightarrow> tln_type (sm_info m) = QOT_TIMELINE_LOCAL \<and>
     (case map_of (ss_syncmap s) (tln_name (sm_info m)) of
        None \<Rightarrow> sm_msgtype m = TL_CREATE_UPDATE \<and> \<not> local_in_use s
      | Some t \<Rightarrow> sm_msgtype m = TL_DESTROY \<and> (\<exists>n. ts_sync t = Sync_local n \<and> ss_local s \<noteq> Some n))"

lemma start_ptp_drops:
  assumes "\<not> local_in_use s" "\<And>k. ss_local s = Some k \<Longrightarrow> k < ss_next s"
  shows "start_ptp opts env m s = None"
proof -
  obtain k where k: "ss_local s = Some k" "Sync_local k \<notin> ts_sync ` snd ` set (ss_syncmap s)"
    using assms(1) by (auto simp: local_in_use_def)
  have "release k (put_plugin (ss_next s) gp (s\<lparr>ss_next := ss_next s + 1, ss_local := Some (ss_next s)\<rparr>)) = None" for gp
    using k assms(2) [OF k(1)] by (auto simp: release_def referenced_def put_plugin_def image_image split: prod.split)
  then show ?thesis
    using k(1) by (simp add: start_ptp_def Let_def release_opt_def)
qed

lemma create_drops:
  assumes "sound_but {} s" "sm_msgtype m = TL_CREATE_UPDATE" "drops_plugin m s"
  shows "handle_create_update opts env m s = None"
proof -
  let ?name = "tln_name (sm_info m)"
  let ?s = "s\<lparr>ss_syncmap := AList.update ?name \<lparr>ts_info = sm_info m, ts_sync = Sync_null\<rparr> (ss_syncmap s)\<rparr>"
  have d: "tln_type (sm_info m) = QOT_TIMELINE_LOCAL" "map_of (ss_syncmap s) ?name = None" "\<not> local_in_use s"
    using assms(2,3) by (auto simp: drops_plugin_def split: option.splits)
  have lt: "k < ss_next s" if "ss_local s = Some k" for k
    using assms(1) that by (auto simp: sound_defs)
  obtain r s1 where c: "choose_sync opts env m ?s = Some (m\<lparr>sm_retval := r\<rparr>, s1)"
    "s1 = ?s \<or> s1 = ?s\<lparr>ss_def_req := True\<rparr> \<and> ss_global ?s \<noteq> None"
    using choose_sync_local [OF d(1), of opts env ?s] by (elim exE conjE) (rule that)
  have "\<not> local_in_use s1" "ss_local s1 = ss_local s" "ss_next s1 = ss_next s" "ss_ptp_flag s1"
    using c(2) d(3) soundD(1) [OF assms(1)] by (auto simp: local_in_use_def alist_update_new [OF d(2)])
  then have "start_ptp opts env (m\<lparr>sm_retval := r\<rparr>) s1 = None" "ss_ptp_flag s1"
    using lt by (auto intro!: start_ptp_drops)
  then show ?thesis
    using d(1,2) c(1) by (simp add: handle_create_update_def)
qed

lemma handle_create_ok:
  assumes "sound_but {} s" "\<not> ss_def_req s" "sync_lib_ok env" "sync_request_ok m s" "sm_msgtype m = TL_CREATE_UPDATE"
    and "\<not> drops_plugin m s"
  obtains m' s' where "handle_create_update opts env m s = Some (m', s')" "handled m m' s'"
proof (cases "map_of (ss_syncmap s) (tln_name (sm_info m))")
  case (Some t)
  obtain s' where "sync_update env t m s = Some s'" "handled m m s'"
    using assms(1,2,4,5) Some by (rule sync_update_ok)
  then show thesis
    using that Some by (simp add: handle_create_update_def)
next
  case None
  let ?name = "tln_name (sm_info m)"
  let ?t = "\<lparr>ts_info = sm_info m, ts_sync = Sync_null\<rparr>"
  let ?s = "s\<lparr>ss_syncmap := AList.update ?name ?t (ss_syncmap s)\<rparr>"
  have k: "tln_type (sm_info m) \<in> {QOT_TIMELINE_LOCAL, QOT_TIMELINE_GLOBAL}"
    "0 \<le> tln_index (sm_info m)" "tln_index (sm_info m) < MAX_TIMELINES"
    using assms(4,5) by (auto simp: sync_request_ok_def)
  have s: "sound_but {?name} ?s" "\<not> ss_def_req ?s" "map_of (ss_syncmap ?s) ?name = Some ?t"
    using new_entry_sound [OF assms(1) None] assms(2) by (simp_all add: update_conv')
  show thesis
  proof (cases "tln_type (sm_info m) = QOT_TIMELINE_LOCAL")
    case True
    obtain d where d: "stoi_auto (sm_data m) = Some d"
      using assms(4,5) None True by (auto simp: sync_request_ok_def)
    show thesis
      using assms(1-3) None True k(2,3) d
      by (rule create_local_ok) (use None True assms(5,6) that in \<open>auto simp: drops_plugin_def\<close>)
  next
    case False
    then have g: "tln_type (sm_info m) = QOT_TIMELINE_GLOBAL"
      using k(1) by simp
    obtain s' where s': "choose_sync opts env m ?s = Some (m, s')" "sound_but {} s'"
      using choose_sync_global [OF s(1) assms(3) refl s(3) _ g k(2,3)] g by auto
    have "handle_create_update opts env m s = Some (m, s')"
      using None g s'(1) by (simp add: handle_create_update_def)
    moreover have "handled m m s'"
      using s'(2) g by (simp add: handled_def)
    ultimately show thesis
      by (rule that)
  qed
qed

lemma delete_entry_sound:
  "sound_but {} s \<Longrightarrow> sound_but {} (s\<lparr>ss_syncmap := AList.delete name (ss_syncmap s)\<rparr>)"
  by (auto simp: sound_defs delete_conv' entries_apart_delete)

lemma destroy_drops:
  assumes "sound_but {} s" "sm_msgtype m = TL_DESTROY" "drops_plugin m s"
  shows "handle_tl_destroy env m s = None"
proof -
  let ?name = "tln_name (sm_info m)"
  obtain t n where t: "tln_type (sm_info m) = QOT_TIMELINE_LOCAL" "map_of (ss_syncmap s) ?name = Some t"
      "ts_sync t = Sync_local n" "ss_local s \<noteq> Some n"
    using assms(2,3) by (auto simp: drops_plugin_def split: option.splits)
  have ap: "entries_apart (ss_syncmap s)"
    using assms(1) by (simp add: sound_but_def)
  have "ts_sync u \<noteq> Sync_local n" if "(k, u) \<in> set (AList.delete ?name (ss_syncmap s))" for k u
    using entries_apartD [OF ap map_of_SomeD [OF t(2)], of k u n] that t(3) by (auto simp: AList.delete_eq)
  then have "release n ((put_plugin n gp s)\<lparr>ss_syncmap := AList.delete ?name (ss_syncmap (put_plugin n gp s))\<rparr>) = None" for gp
    using t(4) by (fastforce simp: release_def referenced_def put_plugin_def split: prod.split)
  then show ?thesis
    using t(1-3) soundD(1) [OF assms(1)]
    by (auto simp: handle_tl_destroy_def stop_local_def release_opt_def bind_eq_None_conv Let_def split: bind_splits)
qed

lemma handle_destroy_ok:
  assumes "sound_but {} s" "\<not> ss_def_req s" "sync_request_ok m s" "sm_msgtype m = TL_DESTROY"
    and "\<not> drops_plugin m s"
  obtains m' s' where "handle_tl_destroy env m s = Some (m', s')" "handled m m' s'"
proof (cases "map_of (ss_syncmap s) (tln_name (sm_info m))")
  case None
  then show thesis
    using that assms(1,2) by (simp add: handle_tl_destroy_def handled_def)
next
  case (Some t)
  let ?name = "tln_name (sm_info m)"
  have k: "tln_type (ts_info t) = tln_type (sm_info m)"
      "tln_type (sm_info m) \<in> {QOT_TIMELINE_LOCAL, QOT_TIMELINE_GLOBAL}"
    using assms(3,4) Some by (auto simp: sync_request_ok_def)
  show thesis
  proof (cases "tln_type (sm_info m) = QOT_TIMELINE_LOCAL")
    case True
    obtain n p where n: "ts_sync t = Sync_local n" "map_of (ss_plugins s) n = Some p"
      by (rule entry_local [OF assms(1) Some]) (use k True in simp)
    obtain g p' where st: "sync_Stop (Sync_local n) s = Some (put_plugin n (g, p') s)"
      "sound_but {} (put_plugin n (g, p') s)"
      using assms(1) n(2) by (rule local_Stop_ok)
    let ?s = "(put_plugin n (g, p') s)\<lparr>ss_syncmap := AList.delete ?name (ss_syncmap (put_plugin n (g, p') s))\<rparr>"
    have "ss_local s = Some n"
      using assms(4,5) True Some n(1) by (auto simp: drops_plugin_def)
    then have "release n ?s = Some ?s"
      by (simp add: release_def referenced_def put_plugin_def)
    moreover have "sound_but {} ?s"
      using st(2) by (rule delete_entry_sound)
    ultimately show thesis
      using that [of m ?s] True Some st(1) n(1) assms(2) soundD(1) [OF assms(1)]
      by (simp add: handle_tl_destroy_def stop_local_def release_opt_def handled_def put_plugin_def)
  next
    case False
    then have g: "tln_type (ts_info t) = QOT_TIMELINE_GLOBAL"
      using k by simp
    note e = entry_global [OF assms(1) Some g]
    obtain r out s' where s': "global_ExtControl env (Ptr_msg m) DEL_TL_SYNC_DATA s = Some (r, out, s')" "only_global s s'"
      by (rule global_ExtControl_ok [OF e(2), of "Ptr_msg m" DEL_TL_SYNC_DATA env]) simp_all
    have "sound_but {} (s'\<lparr>ss_syncmap := AList.delete ?name (ss_syncmap s')\<rparr>)"
      using only_global_sound [OF s'(2) e(2) assms(1)] by (rule delete_entry_sound)
    then show thesis
      using that [of m "s'\<lparr>ss_syncmap := AList.delete ?name (ss_syncmap s')\<rparr>"] False Some s'(1) e(1) assms(2)
        only_globalD(4) [OF s'(2)]
      by (simp add: handle_tl_destroy_def release_opt_def handled_def)
  qed
qed

lemma handle_update_ok:
  assumes "sound_but {} s" "\<not> ss_def_req s" "sync_request_ok m s" "sm_msgtype m = GLOB_SYNC_UPDATE"
  obtains m' s' where "handle_glob_sync_update env m s = Some (m', s')" "handled m m' s'"
proof (cases "map_of (ss_syncmap s) (tln_name (sm_info m)) \<noteq> None \<and> tln_type (sm_info m) = QOT_TIMELINE_GLOBAL")
  case True
  then obtain t where t: "map_of (ss_syncmap s) (tln_name (sm_info m)) = Some t"
    by blast
  have "tln_type (ts_info t) = QOT_TIMELINE_GLOBAL"
    using assms(3,4) t True by (simp add: sync_request_ok_def)
  note g = entry_global(2) [OF assms(1) t this]
  obtain r out s' where s': "global_ExtControl env (Ptr_text (sm_data m)) MODIFY_SYNC_PARAMS s = Some (r, out, s')"
      "only_global s s'"
    by (rule global_ExtControl_ok [OF g, of "Ptr_text (sm_data m)" MODIFY_SYNC_PARAMS env]) simp_all
  have "sound_but {} s'" "ss_def_req s' = ss_def_req s"
    using only_global_sound [OF s'(2) g assms(1)] only_globalD(4) [OF s'(2)] .
  then have "handled m (if r = 0 then m else set_retval QOT_RETURN_TYPE_ERR m) s'"
    using assms(2) by (simp add: handled_def)
  then show thesis
    using that True s'(1) by (simp add: handle_glob_sync_update_def)
next
  case False
  have "handle_glob_sync_update env m s = Some (set_retval QOT_RETURN_TYPE_ERR m, s)"
    using False unfolding handle_glob_sync_update_def by (rule if_not_P)
  then show thesis
    by (rule that) (use assms(1,2) in \<open>simp add: handled_def\<close>)
qed

text \<open>The peers touch only their own maps, of which the three agree.\<close>

lemma peer_start_sound: "sound_but X s \<Longrightarrow> sound_but X (snd (handle_peer_start opts env m s))"
  by (auto simp: handle_peer_start_def sound_defs ss_emit_def Let_def update_conv')

lemma peer_stop_sound: "sound_but X s \<Longrightarrow> sound_but X (snd (handle_peer_stop m s))"
  by (auto simp: handle_peer_stop_def sound_defs ss_emit_def Let_def delete_conv' distinct_removeAll)

lemma peer_frame:
  "ss_def_req (snd (handle_peer_start opts env m s)) = ss_def_req s" "sm_info (fst (handle_peer_start opts env m s)) = sm_info m"
  "ss_def_req (snd (handle_peer_stop m s)) = ss_def_req s" "sm_info (fst (handle_peer_stop m s)) = sm_info m"
  by (simp_all add: handle_peer_start_def handle_peer_stop_def ss_emit_def Let_def)

lemma sync_dispatch_ok:
  assumes "sound_but {} s" "\<not> ss_def_req s" "sync_lib_ok env" "sync_request_ok m s" "\<not> drops_plugin m s"
  obtains m' s' where "sync_dispatch opts env (sm_msgtype m) m s = Some (m', s')" "handled m m' s'"
proof (cases "sm_msgtype m")
  case TL_CREATE_UPDATE
  show thesis
    by (rule handle_create_ok [OF assms(1-4) TL_CREATE_UPDATE assms(5)]) (use that TL_CREATE_UPDATE in simp)
next
  case TL_DESTROY
  show thesis
    by (rule handle_destroy_ok [OF assms(1,2,4) TL_DESTROY assms(5)]) (use that TL_DESTROY in simp)
next
  case GLOB_SYNC_UPDATE
  show thesis
    by (rule handle_update_ok [OF assms(1,2,4) GLOB_SYNC_UPDATE]) (use that GLOB_SYNC_UPDATE in simp)
next
  case PEER_START
  let ?r = "handle_peer_start opts env m s"
  show thesis
    by (rule that [of "fst ?r" "snd ?r"])
      (use PEER_START assms(1,2) in \<open>simp_all add: handled_def peer_start_sound peer_frame\<close>)
next
  case PEER_STOP
  let ?r = "handle_peer_stop m s"
  show thesis
    by (rule that [of "fst ?r" "snd ?r"])
      (use PEER_STOP assms(1,2) in \<open>simp_all add: handled_def peer_stop_sound peer_frame\<close>)
next
  case SET_NODE_UUID
  have "sound_but {} (s\<lparr>ss_node_uuid := sm_data m\<rparr>)"
    using assms(1) by (simp add: sound_defs)
  then have "handled m (set_retval QOT_RETURN_TYPE_ERR m) (s\<lparr>ss_node_uuid := sm_data m\<rparr>)"
    using assms(2) by (simp add: handled_def)
  then show thesis
    using that SET_NODE_UUID by (simp add: handle_set_node_uuid_def)
next
  case TL_UNDEFINED
  show thesis
    by (rule that [of "set_retval QOT_RETURN_TYPE_ERR m" s]) (use TL_UNDEFINED assms(1,2) in \<open>simp_all add: handled_def\<close>)
next
  case (Csmsg_unnamed i)
  show thesis
    by (rule that [of "set_retval QOT_RETURN_TYPE_ERR m" s]) (use Csmsg_unnamed assms(1,2) in \<open>simp_all add: handled_def\<close>)
qed

text \<open>Between two requests.\<close>

definition sync_ok :: "sync_service \<Rightarrow> bool" where
  "sync_ok s \<longleftrightarrow> sound_but {} s \<and> \<not> ss_def_req s"

lemma sync_serve_drops:
  assumes "sync_ok s" "drops_plugin m s"
  shows "sync_serve opts env m s = None"
proof -
  let ?m = "set_retval QOT_RETURN_TYPE_OK m"
  have s: "sound_but {} s" "drops_plugin ?m s"
    using assms by (simp_all add: sync_ok_def drops_plugin_def split: option.splits)
  then consider "sm_msgtype ?m = TL_CREATE_UPDATE" | "sm_msgtype ?m = TL_DESTROY"
    by (auto simp: drops_plugin_def split: option.splits)
  then have "sync_dispatch opts env (sm_msgtype ?m) ?m s = None"
    using create_drops [OF s(1) _ s(2)] destroy_drops [OF s(1) _ s(2)] by cases simp_all
  then show ?thesis
    by (simp add: sync_serve_def)
qed

lemma sync_serve_ok:
  assumes "sync_ok s" "sync_lib_ok env" "sync_request_ok m s" "\<not> drops_plugin m s"
  obtains m' s' where "sync_serve opts env m s = Some (m', s')" "sync_ok s'"
proof -
  let ?m = "set_retval QOT_RETURN_TYPE_OK m"
  have "sound_but {} s" "\<not> ss_def_req s" "sync_request_ok ?m s" "\<not> drops_plugin ?m s"
    using assms(1,3,4) by (simp_all add: sync_ok_def sync_request_ok_def drops_plugin_def split: option.splits)
  then obtain m' s1 where d: "sync_dispatch opts env (sm_msgtype ?m) ?m s = Some (m', s1)" "handled ?m m' s1"
    using assms(2) by (elim sync_dispatch_ok)
  let ?s = "ss_emit [Sync_reply m'] s1"
  let ?s' = "if ss_def_req ?s then ?s\<lparr>ss_def_req := False, ss_deferred := ss_deferred ?s @ [m']\<rparr> else ?s"
  have "sync_ok ?s'"
    using d(2) by (auto simp: sync_ok_def handled_def sound_defs ss_emit_def)
  moreover have "sync_serve opts env m s = Some (m', ?s')"
    using d(1) by (simp add: sync_serve_def Let_def)
  ultimately show thesis
    using that by blast
qed

lemma deferred_server_ok:
  assumes "sound_but {} s"
  obtains s' where "deferred_server env m s = Some s'" "sound_but {} s'" "ss_def_req s' = ss_def_req s"
proof (cases "tln_type (sm_info m) = QOT_TIMELINE_GLOBAL \<and> ss_global_flag s")
  case True
  then have g: "ss_global s \<noteq> None"
    using soundD(2) [OF assms] by simp
  let ?sv = "(se_junk_server env)\<lparr>sv_hostname := [], sv_type := [], sv_timeline_id := tln_index (sm_info m)\<rparr>"
  obtain r1 o1 s1 where s1: "global_ExtControl env (Ptr_msg m) ADD_TL_SYNC_DATA s = Some (r1, o1, s1)" "only_global s s1"
    by (rule global_ExtControl_ok [OF g, of "Ptr_msg m" ADD_TL_SYNC_DATA env]) simp_all
  obtain r2 o2 s2 where s2: "global_ExtControl env (Ptr_server ?sv) GET_TIMELINE_SERVER s1 = Some (r2, o2, s2)"
      "only_global s1 s2" "\<exists>sv. o2 = Ptr_server sv"
    by (rule global_ExtControl_ok [OF only_globalD(1) [OF s1(2)], of "Ptr_server ?sv" GET_TIMELINE_SERVER env]) simp_all
  then obtain sv where sv: "o2 = Ptr_server sv"
    by blast
  obtain r3 o3 s3 where s3: "global_ExtControl env (Ptr_text (''add server '' @ sv_hostname sv)) MODIFY_SYNC_PARAMS s2 =
      Some (r3, o3, s3)" "only_global s2 s3"
    by (rule global_ExtControl_ok [OF only_globalD(1) [OF s2(2)],
          of "Ptr_text (''add server '' @ sv_hostname sv)" MODIFY_SYNC_PARAMS env]) simp_all
  have o: "only_global s s2" "only_global s s3"
    using s1(2) s2(2) s3(2) only_global_trans by blast+
  have "deferred_server env m s = Some (if r2 = 0 then s3 else s2)"
    using True s1(1) s2(1) s3(1) sv by (simp add: deferred_server_def Let_def)
  then show thesis
    by (rule that) (use o in \<open>auto intro: only_global_sound [OF _ g assms] dest: only_globalD(4)\<close>)
next
  case False
  then have "deferred_server env m s = Some s"
    unfolding deferred_server_def by (rule if_not_P)
  then show thesis
    by (rule that) (use assms in simp_all)
qed

lemma deferred_main_ok:
  assumes "sound_but {} s" "tln_type (sm_info m) = QOT_TIMELINE_LOCAL \<Longrightarrow> ss_global s \<noteq> None"
  obtains s' where "deferred_main env m s = Some s'" "sound_but {} s'" "ss_def_req s' = ss_def_req s"
proof (cases "tln_type (sm_info m) = QOT_TIMELINE_LOCAL \<and> \<not> ss_local_flag s")
  case True
  then have g: "ss_global s \<noteq> None"
    using assms(2) by simp
  obtain r out s1 where s1: "global_ExtControl env (Ptr_index (tln_index (sm_info m))) REQ_LOCAL_TL_CLOCK_MAIN s =
      Some (r, out, s1)" "only_global s s1"
    by (rule global_ExtControl_ok [OF g, of "Ptr_index (tln_index (sm_info m))" REQ_LOCAL_TL_CLOCK_MAIN env]) simp_all
  note sound = only_global_sound [OF s1(2) g assms(1)] and fr = only_globalD [OF s1(2)]
  have "sound_but {} (if r = 0 then s1\<lparr>ss_local_flag := True\<rparr> else s1)"
    using sound fr(1) by (auto simp: sound_defs)
  then show thesis
    by (intro that [of "if r = 0 then s1\<lparr>ss_local_flag := True\<rparr> else s1"])
      (use True s1(1) fr(4) in \<open>simp_all add: deferred_main_def\<close>)
next
  case False
  then have "deferred_main env m s = Some s"
    unfolding deferred_main_def by (rule if_not_P)
  then show thesis
    by (rule that) (use assms(1) in simp_all)
qed

lemma run_deferred_ok:
  assumes "sync_ok s"
  obtains s' where "run_deferred env s = Some s'" "sync_ok s'"
proof (cases "ss_deferred s")
  case Nil
  then show thesis
    using that assms by (simp add: run_deferred_def)
next
  case (Cons m ms)
  let ?s = "s\<lparr>ss_deferred := ms\<rparr>"
  have s: "sound_but {} ?s" "\<not> ss_def_req ?s" "tln_type (sm_info m) = QOT_TIMELINE_LOCAL \<Longrightarrow> ss_global ?s \<noteq> None"
    using assms by (auto simp: sync_ok_def sound_defs Cons)
  obtain s1 where s1: "deferred_main env m ?s = Some s1" "sound_but {} s1" "ss_def_req s1 = ss_def_req ?s"
    using s(1,3) by (rule deferred_main_ok)
  have s2: "deferred_overlay env m s1 = Some s1"
    using soundD(1) [OF s1(2)] by (simp add: deferred_overlay_def)
  obtain s3 where s3: "deferred_server env m s1 = Some s3" "sound_but {} s3" "ss_def_req s3 = ss_def_req s1"
    using s1(2) by (rule deferred_server_ok)
  have "sync_ok s3" "sync_ok ?s"
    using s s1(3) s3(2,3) by (simp_all add: sync_ok_def)
  then show thesis
    using that [of s3] that [of ?s] s1(1) s2 s3(1)
    by (cases "sm_msgtype m = TL_CREATE_UPDATE") (simp_all add: run_deferred_def Cons deferred_message_handler_def)
qed

text \<open>The states the service reaches when it synchronises with PTP: requests it can act on,
  one after the other, and deferred threads in between.\<close>

inductive sync_reach :: "sync_options \<Rightarrow> sync_service \<Rightarrow> bool" for opts where
  sync_reach_start: "so_peerserver opts = 0 \<Longrightarrow> pg_live h = [] \<Longrightarrow> sync_reach opts (sync_startup opts g h)"
| sync_reach_serve: "sync_reach opts s \<Longrightarrow> sync_lib_ok env \<Longrightarrow> sync_request_ok m s \<Longrightarrow>
    sync_serve opts env m s = Some (m', s') \<Longrightarrow> sync_reach opts s'"
| sync_reach_deferred: "sync_reach opts s \<Longrightarrow> run_deferred env s = Some s' \<Longrightarrow> sync_reach opts s'"

lemma sync_startup_ok:
  assumes "so_peerserver opts = 0" "pg_live h = []"
  shows "sync_ok (sync_startup opts g h)"
  using assms by (simp add: sync_ok_def sound_defs sync_startup_def threads_ok_def)

lemma sync_reach_ok:
  assumes "sync_reach opts s"
  shows "sync_ok s"
  using assms
proof induction
  case (sync_reach_serve s env m m' s')
  have "\<not> drops_plugin m s"
    using sync_serve_drops [OF sync_reach_serve.IH] sync_reach_serve.hyps(4) by auto
  with sync_reach_serve.IH sync_reach_serve.hyps(2,3) obtain m'' s''
    where "sync_serve opts env m s = Some (m'', s'')" "sync_ok s''"
    by (rule sync_serve_ok)
  with sync_reach_serve.hyps(4) show ?case
    by simp
next
  case (sync_reach_deferred s env s')
  from sync_reach_deferred.IH obtain s'' where "run_deferred env s = Some s''" "sync_ok s''"
    by (rule run_deferred_ok)
  with sync_reach_deferred.hyps(2) show ?case
    by simp
qed (rule sync_startup_ok)


text \<open>Every PTP thread that runs reads the domain from the one table of options.\<close>

lemma running_domain:
  assumes "sound_but X s" "get_plugin n s = Some p" "pt_thread p"
  shows "config_get_int (pt_cfg p) ''domainNumber'' (ss_ptp s) = Some (pg_items (ss_ptp s) ''domainNumber'')"
proof -
  have "threads_ok (ss_ptp s) (map_of (ss_plugins s))"
    using assms(1) by (simp add: sound_but_def plugins_ok_def)
  then obtain c where "pt_cfg p = Some c" "c \<in> set (pg_live (ss_ptp s))"
    using assms(2,3) unfolding get_plugin_def by (rule threads_okD)
  then show ?thesis
    by (simp add: config_get_int_def)
qed

lemma serve_new_local:
  assumes "sync_ok s" "sync_lib_ok env" "sm_msgtype m = TL_CREATE_UPDATE" "sync_request_ok m s"
    and "tln_type (sm_info m) = QOT_TIMELINE_LOCAL" "map_of (ss_syncmap s) (tln_name (sm_info m)) = None"
    and "stoi_auto (sm_data m) = Some d" "local_in_use s"
  obtains m' s' where "sync_serve opts env m s = Some (m', s')" "sound_but {} s'" "ss_local s' = Some (ss_next s)"
    "runs_for (tln_name (sm_info m)) (ss_next s) s'" "pg_items (ss_ptp s') ''domainNumber'' = d"
    "map_of (ss_syncmap s') (tln_name (sm_info m)) = Some \<lparr>ts_info = sm_info m, ts_sync = Sync_local (ss_next s)\<rparr>"
proof -
  let ?m = "set_retval QOT_RETURN_TYPE_OK m"
  have s: "sound_but {} s" "\<not> ss_def_req s"
    using assms(1) by (simp_all add: sync_ok_def)
  obtain m' s1 where c: "handle_create_update opts env ?m s = Some (m', s1)" "ss_local s1 = Some (ss_next s)"
    "runs_for (tln_name (sm_info ?m)) (ss_next s) s1" "pg_items (ss_ptp s1) ''domainNumber'' = d"
    "map_of (ss_syncmap s1) (tln_name (sm_info ?m)) = Some \<lparr>ts_info = sm_info ?m, ts_sync = Sync_local (ss_next s)\<rparr>"
    by (rule create_local_ok [OF s assms(2), of ?m d opts]) (use assms(3-8) in \<open>simp_all add: sync_request_ok_def\<close>)
  obtain m'' s' where sv: "sync_serve opts env m s = Some (m'', s')" "sync_ok s'"
    using assms(1,2,4) by (rule sync_serve_ok) (use assms(6,8) in \<open>simp_all add: drops_plugin_def\<close>)
  have "ss_local s' = ss_local s1" "ss_ptp s' = ss_ptp s1" "ss_plugins s' = ss_plugins s1" "ss_syncmap s' = ss_syncmap s1"
    using c(1) assms(3) sv(1) by (auto simp: sync_serve_def Let_def ss_emit_def split: if_splits)
  with c sv show thesis
    by (intro that [of m'' s']) (simp_all add: sync_ok_def runs_for_def get_plugin_def)
qed

text \<open>A new local timeline gets a PTP plug-in that runs for it with the domain the request
  names, and because the options live in one table this becomes the domain of every PTP
  thread that runs.\<close>

lemma new_local_timeline_takes_domain:
  assumes "sync_reach opts s" "sync_lib_ok env" "sm_msgtype m = TL_CREATE_UPDATE" "sync_request_ok m s"
    and "tln_type (sm_info m) = QOT_TIMELINE_LOCAL" "map_of (ss_syncmap s) (tln_name (sm_info m)) = None"
    and "stoi_auto (sm_data m) = Some d" "local_in_use s"
  shows "\<exists>m' s' n. sync_serve opts env m s = Some (m', s') \<and>
     ss_local s' = Some n \<and> runs_for (tln_name (sm_info m)) n s' \<and>
     (\<forall>k p. get_plugin k s' = Some p \<and> pt_thread p \<longrightarrow>
        config_get_int (pt_cfg p) ''domainNumber'' (ss_ptp s') = Some d)"
proof -
  have "sync_ok s"
    using assms(1) by (rule sync_reach_ok)
  then obtain m' s' where "sync_serve opts env m s = Some (m', s')" "sound_but {} s'" "ss_local s' = Some (ss_next s)"
    "runs_for (tln_name (sm_info m)) (ss_next s) s'" "pg_items (ss_ptp s') ''domainNumber'' = d"
    using assms(2-8) by (rule serve_new_local)
  then show ?thesis
    using running_domain by blast
qed

text \<open>A PTP timeline that is destroyed leaves \<open>LocalSync\<close> as the only pointer to its plug-in, which
  the next local timeline moves away.\<close>

lemma after_destroy_next_drops:
  assumes "sync_reach opts s" "sync_lib_ok env" "sync_request_ok m s" "sm_msgtype m = TL_DESTROY"
    and "tln_type (sm_info m) = QOT_TIMELINE_LOCAL" "map_of (ss_syncmap s) (tln_name (sm_info m)) = Some t"
    and "ts_sync t = Sync_local n" "ss_local s = Some n"
  obtains m' s' where "sync_serve opts env m s = Some (m', s')" "\<not> local_in_use s'"
    "map_of (ss_syncmap s') (tln_name (sm_info m)) = None"
proof -
  let ?name = "tln_name (sm_info m)"
  have ok: "sync_ok s"
    using assms(1) by (rule sync_reach_ok)
  then have s: "sound_but {} s" "entries_apart (ss_syncmap s)"
    by (simp_all add: sync_ok_def sound_but_def)
  have "\<not> drops_plugin m s"
    using assms(4-8) by (simp add: drops_plugin_def)
  then obtain m' s' where sv: "sync_serve opts env m s = Some (m', s')"
    by (rule sync_serve_ok [OF ok assms(2,3)]) blast
  have es: "ss_syncmap s' = AList.delete ?name (ss_syncmap s)" "ss_local s' = Some n"
    using sv assms(4-8) soundD(1) [OF s(1)]
    by (auto simp: sync_serve_def handle_tl_destroy_def stop_local_def release_opt_def release_def referenced_def
        put_plugin_def ss_emit_def Let_def split: bind_splits if_splits prod.splits)
  have "ts_sync u \<noteq> Sync_local n" if "(k, u) \<in> set (AList.delete ?name (ss_syncmap s))" for k u
    using entries_apartD [OF s(2) map_of_SomeD [OF assms(6)], of k u n] that assms(7) by (auto simp: AList.delete_eq)
  then have "\<not> local_in_use s'"
    using es by (fastforce simp: local_in_use_def)
  with sv show thesis
    by (rule that) (simp add: es(1) delete_conv')
qed

text \<open>C37: With peer synchronisation, a local timeline created before any global one is answered
  with an error, yet it is entered and its deferred work dereferences the null GlobalSync.\<close>

lemma local_timeline_before_global_fails:
  assumes "\<not> ss_ptp_flag s" "ss_global s = None" "\<not> ss_local_flag s" "ss_deferred s = []"
    and "sm_msgtype m = TL_CREATE_UPDATE" "tln_type (sm_info m) = QOT_TIMELINE_LOCAL"
    and "map_of (ss_syncmap s) (tln_name (sm_info m)) = None" "map_of (ss_receivers s) (tln_name (sm_info m)) = None"
  shows "\<exists>m' s'. sync_serve opts env m s = Some (m', s') \<and> sm_retval m' = QOT_RETURN_TYPE_ERR \<and>
     ss_syncmap s' = AList.update (tln_name (sm_info m)) \<lparr>ts_info = sm_info m, ts_sync = Sync_null\<rparr> (ss_syncmap s) \<and>
     run_deferred env s' = None"
  using assms
  by (auto simp: sync_serve_def handle_create_update_def choose_sync_def start_receiver_def Let_def ss_emit_def
      run_deferred_def deferred_message_handler_def deferred_main_def global_ExtControl_def)

text \<open>\<close>

lemma peers_of_service_agree:
  assumes "sync_reach opts s" "sync_serve opts env m s = Some (m', s')" "sm_msgtype m \<in> {PEER_START, PEER_STOP}"
  shows "ss_clients s' =
      (if sm_retval m' \<noteq> QOT_RETURN_TYPE_OK then ss_clients s
       else if sm_msgtype m = PEER_START then sm_data m # ss_clients s else removeAll (sm_data m) (ss_clients s)) \<and>
     distinct (ss_clients s') \<and> ss_threads s' = ss_clients s' \<and>
     (\<forall>h. map_of (ss_threadflags s') h = (if h \<in> set (ss_clients s') then Some 1 else None)) \<and>
     (sm_retval m' = QOT_RETURN_TYPE_OK \<longleftrightarrow>
       (if sm_msgtype m = PEER_START then sm_data m \<notin> set (ss_clients s) \<and> 0 \<le> se_client_start env (sm_data m)
        else sm_data m \<in> set (ss_clients s)))"
proof -
  have "sync_ok s"
    using assms(1) by (rule sync_reach_ok)
  then have p: "distinct (ss_clients s)" "ss_threads s = ss_clients s" "\<not> ss_def_req s"
      "map_of (ss_threadflags s) h = (if h \<in> set (ss_clients s) then Some 1 else None)" for h
    by (simp_all add: sync_ok_def sound_but_def peers_ok_def)
  show ?thesis
    using assms(2,3)
    by (auto simp: p sync_serve_def handle_peer_start_def handle_peer_stop_def Let_def ss_emit_def
        update_conv' delete_conv' distinct_removeAll split: if_splits)
qed

section \<open>Examples of requests\<close>

definition ex_ntp :: ntp18 where
  "ex_ntp = \<lparr>nt_kill = False, nt_status_flag = False, nt_su = ex_su, nt_loc_su = ex_su, nt_last = stat0,
     nt_loc_last = stat0, nt_timeline_uuid = [], nt_clk = None, nt_local_clk = None, nt_nats_server = []\<rparr>"

definition ex_sync_env :: sync_env where
  "ex_sync_env = \<lparr>se_pl = ex_prob_lib, se_ntp = ex_ntp_env 0, se_junk_ntp = ex_ntp, se_junk_ptp = ex_ptp,
     se_junk_server = ex_time_server, se_client_start = (\<lambda>_. 0)\<rparr>"

definition ex_sync_options :: "int \<Rightarrow> sync_options" where
  "ex_sync_options peerserver = \<lparr>so_nats = ''nats'', so_ntpconfig = ''chrony.conf'', so_logsyncrate = 0,
     so_peerserver = peerserver, so_name = ''node''\<rparr>"

definition ex_syncmsg :: "csmsg_type \<Rightarrow> qot_timeline_type \<Rightarrow> string \<Rightarrow> string \<Rightarrow> syncmsg" where
  "ex_syncmsg mt ty name data = \<lparr>sm_info = \<lparr>tln_name = name, tln_index = 1, tln_type = ty\<rparr>,
     sm_demand = \<lparr>tq_resolution = \<lparr>tl_sec = 0, tl_asec = 0\<rparr>,
       tq_accuracy = \<lparr>below = \<lparr>tl_sec = 0, tl_asec = 0\<rparr>, above = \<lparr>tl_sec = 0, tl_asec = 0\<rparr>\<rparr>\<rparr>, sm_msgtype = mt, sm_data = data, sm_retval = QOT_RETURN_TYPE_OK\<rparr>"

definition ex_ptp_idle :: ptp_globals where
  "ex_ptp_idle = ex_ptp_g\<lparr>pg_live := [], pg_next := 0\<rparr>"

definition ex_service :: "int \<Rightarrow> sync_service" where
  "ex_service peerserver = sync_startup (ex_sync_options peerserver) ex_ntp_g ex_ptp_idle"

lemma ex_lib_ok: "sync_lib_ok ex_sync_env"
  by (simp add: sync_lib_ok_def ex_sync_env_def get_inverse_error_func_def ex_prob_lib_def)

lemma ex_service_reach: "sync_reach (ex_sync_options 0) (ex_service 0)"
  unfolding ex_service_def
  by (rule sync_reach_start) (simp_all add: ex_sync_options_def ex_ptp_idle_def)

lemma ex_service_empty [simp]: "ss_syncmap (ex_service n) = []" "ss_receivers (ex_service n) = []"
  "ss_clients (ex_service n) = []" "ss_deferred (ex_service n) = []" "ss_global (ex_service n) = None"
  "ss_local_flag (ex_service n) = False" "ss_ptp_flag (ex_service n) = (n = 0)" "ss_def_req (ex_service n) = False"
  by (simp_all add: ex_service_def sync_startup_def ex_sync_options_def)

lemma ex_local_ok:
  "sync_request_ok (ex_syncmsg TL_CREATE_UPDATE QOT_TIMELINE_LOCAL ''tl'' (show_int 7)) (ex_service n)"
  "stoi_auto (show_int 7) = Some 7"
proof -
  show d: "stoi_auto (show_int 7) = Some 7"
    by code_simp
  show "sync_request_ok (ex_syncmsg TL_CREATE_UPDATE QOT_TIMELINE_LOCAL ''tl'' (show_int 7)) (ex_service n)"
    by (simp add: sync_request_ok_def ex_syncmsg_def MAX_TIMELINES_def d)
qed

lemma ex_service_in_use: "local_in_use (ex_service n)"
  by (simp add: local_in_use_def ex_service_def sync_startup_def)

lemma new_local_timeline_takes_domain_witness:
  "\<exists>m' s' n. sync_serve (ex_sync_options 0) ex_sync_env
       (ex_syncmsg TL_CREATE_UPDATE QOT_TIMELINE_LOCAL ''tl'' (show_int 7)) (ex_service 0) = Some (m', s') \<and>
     runs_for ''tl'' n s'"
  using new_local_timeline_takes_domain [OF ex_service_reach ex_lib_ok _ ex_local_ok(1) _ _ _ ex_service_in_use, of 7]
    ex_local_ok(2)
  by (fastforce simp: ex_syncmsg_def)


lemma local_timeline_before_global_fails_witness:
  "\<exists>m' s'. sync_serve (ex_sync_options 9000) ex_sync_env
       (ex_syncmsg TL_CREATE_UPDATE QOT_TIMELINE_LOCAL ''tl'' ''7'') (ex_service 9000) = Some (m', s') \<and>
     sm_retval m' = QOT_RETURN_TYPE_ERR \<and> run_deferred ex_sync_env s' = None"
proof -
  let ?m = "ex_syncmsg TL_CREATE_UPDATE QOT_TIMELINE_LOCAL ''tl'' ''7''"
  have "sm_msgtype ?m = TL_CREATE_UPDATE" "tln_type (sm_info ?m) = QOT_TIMELINE_LOCAL"
    by (simp_all add: ex_syncmsg_def)
  then show ?thesis
    using local_timeline_before_global_fails [of "ex_service 9000" ?m "ex_sync_options 9000" ex_sync_env] by auto
qed

lemma peers_of_service_agree_witness:
  "\<exists>m' s'. sync_serve (ex_sync_options 0) ex_sync_env (ex_syncmsg PEER_START QOT_TIMELINE_LOCAL ''tl'' ''h1'')
       (ex_service 0) = Some (m', s') \<and> ss_threads s' = [''h1'']"
proof -
  let ?m = "ex_syncmsg PEER_START QOT_TIMELINE_LOCAL ''tl'' ''h1''"
  have m: "sm_msgtype ?m = PEER_START" "sm_data ?m = ''h1''"
    by (simp_all add: ex_syncmsg_def)
  obtain m' s' where s: "sync_serve (ex_sync_options 0) ex_sync_env ?m (ex_service 0) = Some (m', s')"
    using m by (cases "handle_peer_start (ex_sync_options 0) ex_sync_env (set_retval QOT_RETURN_TYPE_OK ?m) (ex_service 0)")
      (simp add: sync_serve_def Let_def)
  show ?thesis
    using peers_of_service_agree [OF ex_service_reach s] s m by (simp add: ex_sync_env_def)
qed

end
