(* ===== verification/Sync_Comm.thy ===== *)
theory Sync_Comm
  imports Core_Api Sync_Service
begin

text \<open>
  The timeline service's side of the conversation with the sync service,
  \<open>SyncCommunicator\<close> of \<open>timeline-service/qot_synccomm.cpp\<close>, over the same outside
  (\<open>host\<close>) as the client library, and what comes back when the sync service answers.
\<close>

section \<open>Operations\<close>

record sync_communicator =
  sy_sock :: int
  sy_status_flag :: int

text \<open>The constructor: the descriptor of the socket and whether it could be connected; the
  socket is closed when not, and the object stays usable.\<close>

definition SyncCommunicator :: "'w host \<Rightarrow> int \<Rightarrow> bool \<Rightarrow> 'w \<Rightarrow> sync_communicator \<times> 'w" where
  "SyncCommunicator h sock conn_ok w =
     (if conn_ok then (\<lparr>sy_sock = sock, sy_status_flag = (if sock < 0 then 1 else 0)\<rparr>, w)
      else (\<lparr>sy_sock = sock, sy_status_flag = 2\<rparr>, h_close h w))"

definition SyncCommunicator_destroy :: "'w host \<Rightarrow> sync_communicator \<Rightarrow> 'w \<Rightarrow> 'w" where
  "SyncCommunicator_destroy h sy w = (if sy_status_flag sy = 0 then h_close h w else w)"

text \<open>The test of the type is one of an unsigned enumeration: every value without a name is
  refused.\<close>

definition csmsg_valid :: "csmsg_type \<Rightarrow> bool" where
  "csmsg_valid t \<longleftrightarrow> 0 \<le> int_of_csmsg t \<and> int_of_csmsg t < int_of_csmsg TL_UNDEFINED"

text \<open>One send and one read of the answer, which must fit the buffer.\<close>

definition send_request :: "'w host \<Rightarrow> syncmsg \<Rightarrow> 'w \<Rightarrow> (qot_return \<times> syncmsg \<times> 'w) option" where
  "send_request h sync_msg w =
     (let sync_msg = sync_msg\<lparr>sm_retval := QOT_RETURN_TYPE_OK\<rparr>
      in if \<not> csmsg_valid (sm_msgtype sync_msg) then Some (QOT_RETURN_TYPE_ERR, sync_msg, w)
         else let (n, w) = h_send h (h_dump h (serialize_syncmsg sync_msg)) w
              in if n > 0
                 then do {
                   (r, w) \<leftarrow> h_recv h w;
                   (case r of
                      Read_error \<Rightarrow> Some (QOT_RETURN_TYPE_ERR, sync_msg, w)
                    | Read_bytes bs \<Rightarrow>
                        if bs = [] then Some (QOT_RETURN_TYPE_ERR, sync_msg, w)
                        else do {
                          data \<leftarrow> h_parse h (bs @ drop (length bs) (replicate MAX_BUF_LENGTH (CHR 0x00)));
                          sync_msg \<leftarrow> deserialize_syncmsg data sync_msg;
                          Some (sm_retval sync_msg, sync_msg, w)
                        })
                 }
                 else Some (QOT_RETURN_TYPE_ERR, sync_msg, w))"

section \<open>The answer of the sync service\<close>

text \<open>The sync service changes nothing of a request but the return value.\<close>

definition answers :: "syncmsg \<Rightarrow> syncmsg \<Rightarrow> bool" where
  "answers m m' \<longleftrightarrow> (\<exists>r \<in> {sm_retval m, QOT_RETURN_TYPE_OK, QOT_RETURN_TYPE_ERR}. m' = m\<lparr>sm_retval := r\<rparr>)"

lemma answers_intros [simp]:
  "answers m m" "answers m (set_retval QOT_RETURN_TYPE_OK m)" "answers m (set_retval QOT_RETURN_TYPE_ERR m)"
  by (auto simp: answers_def set_retval_def)

lemma answers_trans: "answers m m' \<Longrightarrow> answers m' m'' \<Longrightarrow> answers m m''"
  by (auto simp: answers_def)

lemma choose_sync_answers: "choose_sync opts env m s = Some (m', s') \<Longrightarrow> answers m m'"
  by (auto simp: choose_sync_def split: if_splits)

lemma start_receiver_answers: "answers m (fst (start_receiver m s))"
  by (simp add: start_receiver_def Let_def)

lemma handle_create_update_answers:
  assumes "handle_create_update opts env m s = Some (m', s')"
  shows "answers m m'"
proof (cases "map_of (ss_syncmap s) (tln_name (sm_info m))")
  case (Some t)
  then show ?thesis
    using assms by (auto simp: handle_create_update_def)
next
  case None
  let ?s = "s\<lparr>ss_syncmap := AList.update (tln_name (sm_info m)) \<lparr>ts_info = sm_info m, ts_sync = Sync_null\<rparr> (ss_syncmap s)\<rparr>"
  obtain m1 s1 where c: "choose_sync opts env m ?s = Some (m1, s1)"
    using assms None by (auto simp: handle_create_update_def bind_eq_Some_conv Let_def)
  then have "m' = m1 \<or> m' = fst (start_receiver m1 s1)"
    using assms None by (auto simp: handle_create_update_def Let_def c split: if_splits dest: arg_cong [where f = fst])
  then show ?thesis
    using choose_sync_answers [OF c] start_receiver_answers answers_trans by blast
qed

lemma handle_tl_destroy_answers:
  assumes "handle_tl_destroy env m s = Some (m', s')"
  shows "answers m m'"
  using assms
  by (auto simp: handle_tl_destroy_def stop_local_def bind_eq_Some_conv Let_def split: option.splits if_splits)

lemma sync_dispatch_answers: "sync_dispatch opts env t m s = Some (m', s') \<Longrightarrow> answers m m'"
  by (cases t)
    (auto simp: handle_create_update_answers handle_tl_destroy_answers handle_peer_start_def handle_peer_stop_def
      handle_glob_sync_update_def handle_set_node_uuid_def bind_eq_Some_conv Let_def split: if_splits
      dest: handle_create_update_answers handle_tl_destroy_answers)

lemma sync_serve_answers: "sync_serve opts env m s = Some (m', s') \<Longrightarrow> answers (m\<lparr>sm_retval := QOT_RETURN_TYPE_OK\<rparr>) m'"
  by (auto simp: sync_serve_def bind_eq_Some_conv set_retval_def Let_def dest!: sync_dispatch_answers)

lemma answers_ok: "syncmsg_ok m \<Longrightarrow> answers m m' \<Longrightarrow> syncmsg_ok m'"
  by (auto simp: answers_def syncmsg_ok_def return_ok_def return_of_int_def int32_def)

text \<open>One read of the sync service.\<close>

lemma receive_one:
  "bs \<noteq> [] \<Longrightarrow> length bs < MAX_BUF_LENGTH \<Longrightarrow>
     receive [Read_bytes bs] = Some (bs @ replicate (MAX_BUF_LENGTH - length bs) (CHR 0x00), True, False)"
  by (simp add: receive_def Let_def)

text \<open>C4: A request of the timeline service to the sync service, when both texts fit one read:
  the communicator returns exactly what serving the request gives, through both text
  forms, the answer is the request with success or an error as its return value, and the
  connection stays.\<close>

lemma sync_request_answered:
  assumes "syncmsg_ok (msg\<lparr>sm_retval := QOT_RETURN_TYPE_OK\<rparr>)" "csmsg_valid (sm_msgtype msg)"
  defines "req \<equiv> msg\<lparr>sm_retval := QOT_RETURN_TYPE_OK\<rparr>"
  assumes "h_send h (h_dump h (serialize_syncmsg req)) w = (n, w1)" "0 < n"
    and "sync_serve_client opts env (h_parse h) [Read_bytes (h_dump h (serialize_syncmsg req))] i (clients, m0, s)
       = Some (clients', rep, s')"
    and "h_recv h w1 = Some (Read_bytes (h_dump h (serialize_syncmsg rep)), w2)"
    and "\<And>m. m \<in> {req, rep} \<Longrightarrow> h_dump h (serialize_syncmsg m) \<noteq> [] \<and> length (h_dump h (serialize_syncmsg m)) < MAX_BUF_LENGTH"
    and "\<And>m k. m \<in> {req, rep} \<Longrightarrow> h_parse h (h_dump h (serialize_syncmsg m) @ replicate k (CHR 0x00)) = Some (serialize_syncmsg m)"
  shows "send_request h msg w = Some (sm_retval rep, rep, w2) \<and> sync_serve opts env req s = Some (rep, s') \<and> clients' = clients \<and>
     (\<exists>r \<in> {QOT_RETURN_TYPE_OK, QOT_RETURN_TYPE_ERR}. rep = msg\<lparr>sm_retval := r\<rparr>)"
proof -
  have q: "syncmsg_ok req"
    using assms(1) by (simp add: req_def)
  have serve: "sync_serve opts env req s = Some (rep, s')" "clients' = clients"
    using assms(6) syncmsg_read_back [OF q, of m0]
    by (auto simp: sync_serve_client_def receive_one assms(8,9) bind_eq_Some_conv)
  have a: "answers req rep"
    using sync_serve_answers [OF serve(1)] by (simp add: req_def)
  note rep = answers_ok [OF q a]
  have "send_request h msg w = Some (sm_retval rep, rep, w2)"
    using assms(2,5,7) assms(8) [of rep]
    by (simp add: send_request_def assms(4) [unfolded req_def] assms(9) syncmsg_read_back [OF rep])
  then show ?thesis
    using serve a by (auto simp: answers_def req_def)
qed

section \<open>Example\<close>

definition ex_name_request :: syncmsg where
  "ex_name_request = ex_syncmsg SET_NODE_UUID QOT_TIMELINE_LOCAL ''tl'' ''node''"

definition ex_name_answer :: syncmsg where
  "ex_name_answer = ex_name_request\<lparr>sm_retval := QOT_RETURN_TYPE_ERR\<rparr>"

definition ex_sync_host :: "unit host" where
  "ex_sync_host = ex_host
     \<lparr>h_dump := (\<lambda>j. if j = serialize_syncmsg ex_name_request then ''q'' else ''r''),
      h_parse := (\<lambda>t. Some (serialize_syncmsg (if hd t = CHR ''q'' then ex_name_request else ex_name_answer))),
      h_send := (\<lambda>_ w. (1, w)),
      h_recv := (\<lambda>w. Some (Read_bytes (if serialize_syncmsg ex_name_answer = serialize_syncmsg ex_name_request then ''q'' else ''r''), w))\<rparr>"

lemma sync_request_answered_witness:
  "send_request ex_sync_host ex_name_request () = Some (QOT_RETURN_TYPE_ERR, ex_name_answer, ()) \<and>
     (\<exists>s. sync_serve (ex_sync_options 0) ex_sync_env ex_name_request (ex_service 0) = Some (ex_name_answer, s) \<and>
        ss_node_uuid s = ''node'')"
proof -
  let ?q = "ex_name_request\<lparr>sm_retval := QOT_RETURN_TYPE_OK\<rparr>"
  have q: "?q = ex_name_request"
    by (simp add: ex_name_request_def ex_syncmsg_def)
  have mt: "sm_msgtype ex_name_request = SET_NODE_UUID"
    by (simp add: ex_name_request_def ex_syncmsg_def)
  have ok: "syncmsg_ok ?q"
    by (simp add: ex_name_request_def ex_syncmsg_def syncmsg_ok_def name_ok_def QOT_MAX_NAMELEN_def int32_def
        timeline_type_ok_def timeline_type_of_int_def csmsg_type_ok_def csmsg_of_int_def return_ok_def return_of_int_def)
  obtain s where s: "sync_serve (ex_sync_options 0) ex_sync_env ex_name_request (ex_service 0) = Some (ex_name_answer, s)"
      "ss_node_uuid s = ''node''"
    by (auto simp: sync_serve_def mt handle_set_node_uuid_def set_retval_def Let_def ex_name_answer_def ss_emit_def
        ex_name_request_def ex_syncmsg_def split: if_splits)
  have dump: "h_dump ex_sync_host j = (if j = serialize_syncmsg ex_name_request then ''q'' else ''r'')" for j
    by (simp add: ex_sync_host_def)
  have parse: "h_parse ex_sync_host (x # r) = Some (serialize_syncmsg (if x = CHR ''q'' then ex_name_request else ex_name_answer))" for x r
    by (simp add: ex_sync_host_def)
  have client: "sync_serve_client (ex_sync_options 0) ex_sync_env (h_parse ex_sync_host)
      [Read_bytes (h_dump ex_sync_host (serialize_syncmsg ?q))] 0 ([], ex_name_request, ex_service 0) = Some ([], ex_name_answer, s)"
    using s(1) syncmsg_read_back [OF ok]
    by (simp add: sync_serve_client_def receive_one dump q parse MAX_BUF_LENGTH_def)
  have "send_request ex_sync_host ex_name_request () = Some (sm_retval ex_name_answer, ex_name_answer, ())"
    by (rule sync_request_answered [where n = 1 and ?w1.0 = "()", OF ok _ _ _ client, THEN conjunct1])
      (auto simp: mt csmsg_valid_def dump parse q ex_name_answer_def [symmetric] MAX_BUF_LENGTH_def, simp_all add: ex_sync_host_def)
  then show ?thesis
    using s by (simp add: ex_name_answer_def)
qed

end
