(* ===== verification/Coordination_Rest.thy ===== *)
theory Coordination_Rest
  imports Timeline_Core "HOL-Library.List_Lexorder" "HOL-Library.Char_ord"
begin

text \<open>
  The timeline service's view of the coordination service:
  \<open>timeline-service/qot_timeline_rest.cpp\<close>, which makes the requests, and
  \<open>qot_timeline_subscriber.cpp\<close>, which receives the changes of nodes.

  Requests go over C++ REST SDK, which is not part of the sources: what it answers is
  the parameter \<open>http\<close>, a function of the request and of the outside's state.  Reading
  a value as one of the wrong type throws, and so does a body that is no JSON; nothing
  catches these exceptions, they are \<open>None\<close>.
\<close>

section \<open>Values\<close>

datatype rest_json =
    RNull
  | RBool bool
  | RNum int
  | RReal double
  | RStr string
  | RArr "rest_json list"
  | RObj "(string \<times> rest_json) list"

text \<open>The members of an object are sorted by their keys; assigning a member inserts it at its
  place.\<close>

fun robj_set :: "string \<Rightarrow> rest_json \<Rightarrow> (string \<times> rest_json) list \<Rightarrow> (string \<times> rest_json) list" where
  "robj_set k v [] = [(k, v)]"
| "robj_set k v ((k', v') # fs) =
     (if k' < k then (k', v') # robj_set k v fs
      else if k' = k then (k, v) # fs else (k, v) # (k', v') # fs)"

definition robj :: "(string \<times> rest_json) list \<Rightarrow> rest_json" where
  "robj kvs = RObj (fold (\<lambda>(k, v). robj_set k v) kvs [])"

text \<open>\<open>as_integer\<close> keeps the low 32 bits of an integer; a number with a fraction is cut.\<close>

fun as_integer :: "rest_json \<Rightarrow> int option" where
  "as_integer (RNum i) = Some (s32 i)"
| "as_integer (RReal x) = (if int32 (rtrunc x) then Some (rtrunc x) else None)"
| "as_integer _ = None"

fun as_string :: "rest_json \<Rightarrow> string option" where
  "as_string (RStr s) = Some s"
| "as_string _ = None"

fun as_array :: "rest_json \<Rightarrow> rest_json list option" where
  "as_array (RArr xs) = Some xs"
| "as_array _ = None"

fun as_object :: "rest_json \<Rightarrow> (string \<times> rest_json) list option" where
  "as_object (RObj fs) = Some fs"
| "as_object _ = None"

text \<open>The loops over the members of an object: one that ends with the first member of the
  name searched, and one over all members.\<close>

definition find_member :: "string \<Rightarrow> (rest_json \<Rightarrow> 'a option) \<Rightarrow> 'a \<Rightarrow> (string \<times> rest_json) list \<Rightarrow> 'a option" where
  "find_member k read old fs = (case map_of fs k of None \<Rightarrow> Some old | Some v \<Rightarrow> read v)"

fun scan_members ::
  "(string \<Rightarrow> rest_json \<Rightarrow> 'a \<Rightarrow> 'a option) \<Rightarrow> (string \<times> rest_json) list \<Rightarrow> 'a \<Rightarrow> 'a option" where
  "scan_members f [] a = Some a"
| "scan_members f ((k, v) # fs) a = f k v a \<bind> scan_members f fs"

section \<open>Requests\<close>

datatype rest_method = GET | HEAD | POST | PUT | DEL

record rest_request =
  rq_method :: rest_method
  rq_path :: string
  rq_body :: "rest_json option"

text \<open>A response with its status code and its body, \<open>None\<close> when that is no JSON, or an HTTP
  exception.\<close>

datatype http_answer = Response int "rest_json option" | Http_exception

type_synonym 'w http = "rest_request \<Rightarrow> 'w \<Rightarrow> http_answer \<times> 'w"

definition make_task_request :: "rest_method \<Rightarrow> string \<Rightarrow> rest_json \<Rightarrow> rest_request" where
  "make_task_request mtd path v =
     \<lparr>rq_method = mtd, rq_path = path,
      rq_body = (if mtd = GET \<or> mtd = HEAD then None else Some v)\<rparr>"

definition make_request ::
  "'w http \<Rightarrow> rest_method \<Rightarrow> string \<Rightarrow> rest_json \<Rightarrow> 'w \<Rightarrow> (rest_json \<times> 'w) option" where
  "make_request http mtd path v w =
     (let (a, w) = http (make_task_request mtd path v) w
      in case a of
           Http_exception \<Rightarrow> Some (robj [], w)
         | Response status body \<Rightarrow>
             if status = 200 then map_option (\<lambda>j. (j, w)) body else Some (RNull, w))"

definition timelines_path :: string where "timelines_path = ''/api/service/timelines/''"

definition node_path :: "string \<Rightarrow> string \<Rightarrow> string" where
  "node_path uuid node = timelines_path @ uuid @ ''/nodes/'' @ node"

text \<open>A query: the members of the object a \<open>GET\<close> answers.\<close>

definition query ::
  "'w http \<Rightarrow> string \<Rightarrow> 'w \<Rightarrow> ((string \<times> rest_json) list \<times> 'w) option" where
  "query http path w = do {
     (answer, w) \<leftarrow> make_request http GET path RNull w;
     fs \<leftarrow> as_object answer;
     Some (fs, w)
   }"

text \<open>A request whose answer is not looked at.\<close>

definition command ::
  "'w http \<Rightarrow> rest_method \<Rightarrow> string \<Rightarrow> rest_json \<Rightarrow> 'w \<Rightarrow> (int \<times> 'w) option" where
  "command http mtd path v w = do { (_, w) \<leftarrow> make_request http mtd path v w; Some (0, w) }"

section \<open>Timelines\<close>

fun timeline_names :: "rest_json list \<Rightarrow> string list option" where
  "timeline_names [] = Some []"
| "timeline_names (x # xs) = do {
     fs \<leftarrow> as_object x;
     nm \<leftarrow> find_member ''name'' (\<lambda>v. map_option Some (as_string v)) None fs;
     nms \<leftarrow> timeline_names xs;
     Some (case nm of None \<Rightarrow> nms | Some n \<Rightarrow> n # nms)
   }"

definition get_timelines :: "'w http \<Rightarrow> 'w \<Rightarrow> (string list \<times> 'w) option" where
  "get_timelines http w = do {
     (answer, w) \<leftarrow> make_request http GET timelines_path RNull w;
     xs \<leftarrow> as_array answer;
     nms \<leftarrow> timeline_names xs;
     Some (nms, w)
   }"

definition post_timeline :: "'w http \<Rightarrow> string \<Rightarrow> 'w \<Rightarrow> (int \<times> 'w) option" where
  "post_timeline http uuid w =
     command http POST timelines_path (robj [(''id'', RNum 0), (''name'', RStr uuid)]) w"

definition delete_timeline :: "'w http \<Rightarrow> string \<Rightarrow> 'w \<Rightarrow> (int \<times> 'w) option" where
  "delete_timeline http uuid w = command http DEL (timelines_path @ uuid) RNull w"

text \<open>\<open>get_timeline_nodes\<close>: inside the loop over an element's members, the key and the value
  are those of the enclosing object, so the key is always \<open>nodes\<close>: nothing is read,
  and a node that was never filled is added for each member.\<close>

definition node_member ::
  "string \<Rightarrow> rest_json \<Rightarrow> qot_node_phy \<Rightarrow> qot_node_phy option" where
  "node_member key_in v node =
     (if key_in = ''name'' then map_option (\<lambda>s. node\<lparr>nd_name := s\<rparr>) (as_string v)
      else if key_in = ''accuracy'' then map_option (\<lambda>i. node\<lparr>nd_accuracy_ns := word_of_int i\<rparr>) (as_integer v)
      else if key_in = ''resolution'' then map_option (\<lambda>i. node\<lparr>nd_resolution_ns := word_of_int i\<rparr>) (as_integer v)
      else Some node)"

fun member_nodes ::
  "string \<Rightarrow> rest_json \<Rightarrow> (string \<times> rest_json) list \<Rightarrow> qot_node_phy \<Rightarrow> qot_node_phy list option" where
  "member_nodes key_in v [] node = Some []"
| "member_nodes key_in v (_ # fs) node = do {
     node \<leftarrow> node_member key_in v node;
     nodes \<leftarrow> member_nodes key_in v fs node;
     Some (node # nodes)
   }"

fun element_nodes ::
  "string \<Rightarrow> rest_json \<Rightarrow> qot_node_phy \<Rightarrow> rest_json list \<Rightarrow> qot_node_phy list option" where
  "element_nodes key v junk [] = Some []"
| "element_nodes key v junk (x # xs) = do {
     fs \<leftarrow> as_object x;
     nodes \<leftarrow> member_nodes key v fs (junk\<lparr>nd_name := []\<rparr>);
     rest \<leftarrow> element_nodes key v junk xs;
     Some (nodes @ rest)
   }"

definition get_timeline_nodes ::
  "'w http \<Rightarrow> qot_node_phy \<Rightarrow> string \<Rightarrow> 'w \<Rightarrow> (qot_node_phy list \<times> 'w) option" where
  "get_timeline_nodes http junk uuid w = do {
     (fs, w) \<leftarrow> query http (timelines_path @ uuid) w;
     nodes \<leftarrow> find_member ''nodes'' (\<lambda>v. as_array v \<bind> element_nodes ''nodes'' v junk) [] fs;
     Some (nodes, w)
   }"

definition get_timeline_coord_id :: "'w http \<Rightarrow> string \<Rightarrow> 'w \<Rightarrow> (int \<times> 'w) option" where
  "get_timeline_coord_id http uuid w = do {
     (fs, w) \<leftarrow> query http (timelines_path @ uuid) w;
     i \<leftarrow> find_member ''id'' as_integer (- 1) fs;
     Some (i, w)
   }"

definition get_timeline_metadata :: "'w http \<Rightarrow> string \<Rightarrow> 'w \<Rightarrow> (string \<times> 'w) option" where
  "get_timeline_metadata http uuid w = do {
     (fs, w) \<leftarrow> query http (timelines_path @ uuid) w;
     m \<leftarrow> find_member ''meta_data'' as_string ''NULL'' fs;
     Some (m, w)
   }"

definition put_timeline_metadata :: "'w http \<Rightarrow> string \<Rightarrow> string \<Rightarrow> 'w \<Rightarrow> (int \<times> 'w) option" where
  "put_timeline_metadata http uuid meta_data w =
     command http PUT (timelines_path @ uuid)
       (robj [(''id'', RNum 0), (''name'', RStr uuid), (''meta_data'', RStr meta_data)]) w"

definition get_timeline_num_nodes :: "'w http \<Rightarrow> string \<Rightarrow> 'w \<Rightarrow> (int \<times> 'w) option" where
  "get_timeline_num_nodes http uuid w = do {
     (fs, w) \<leftarrow> query http (timelines_path @ uuid @ ''/nodes'') w;
     n \<leftarrow> scan_members (\<lambda>k v n. if k = ''num_nodes'' then as_integer v else Some n) fs 0;
     Some (n, w)
   }"

section \<open>Nodes\<close>

definition post_node :: "'w http \<Rightarrow> string \<Rightarrow> string \<Rightarrow> u64 \<Rightarrow> u64 \<Rightarrow> 'w \<Rightarrow> (int \<times> 'w) option" where
  "post_node http uuid node accuracy_ns resolution_ns w =
     command http POST (timelines_path @ uuid @ ''/nodes'')
       (robj [(''id'', RNum 0), (''name'', RStr node), (''timeline_name'', RStr uuid),
              (''accuracy'', RNum (uint accuracy_ns)), (''resolution'', RNum (uint resolution_ns))]) w"

definition delete_node :: "'w http \<Rightarrow> string \<Rightarrow> string \<Rightarrow> 'w \<Rightarrow> (int \<times> 'w) option" where
  "delete_node http uuid node w = command http DEL (node_path uuid node) RNull w"

text \<open>The quality of a node or of a timeline: the integers are widened to 64 bits with their
  sign; what is missing keeps its value.\<close>

definition quality_member :: "string \<Rightarrow> rest_json \<Rightarrow> u64 \<times> u64 \<Rightarrow> (u64 \<times> u64) option" where
  "quality_member k v q =
     (if k = ''accuracy'' then map_option (\<lambda>i. (word_of_int i, snd q)) (as_integer v)
      else if k = ''resolution'' then map_option (\<lambda>i. (fst q, word_of_int i)) (as_integer v)
      else Some q)"

definition get_node :: "'w http \<Rightarrow> string \<Rightarrow> string \<Rightarrow> u64 \<times> u64 \<Rightarrow> 'w \<Rightarrow> (int \<times> (u64 \<times> u64) \<times> 'w) option" where
  "get_node http uuid node old w = do {
     (fs, w) \<leftarrow> query http (node_path uuid node) w;
     q \<leftarrow> scan_members quality_member fs old;
     Some (0, q, w)
   }"

definition get_node_ip :: "'w http \<Rightarrow> string \<Rightarrow> string \<Rightarrow> 'w \<Rightarrow> (string \<times> 'w) option" where
  "get_node_ip http uuid node w = do {
     (fs, w) \<leftarrow> query http (node_path uuid node) w;
     ip \<leftarrow> scan_members (\<lambda>k v ip. if k = ''ip'' then as_string v else Some ip) fs ''NULL'';
     Some (ip, w)
   }"

definition put_node :: "'w http \<Rightarrow> string \<Rightarrow> string \<Rightarrow> u64 \<Rightarrow> u64 \<Rightarrow> 'w \<Rightarrow> (int \<times> 'w) option" where
  "put_node http uuid node accuracy_ns resolution_ns w =
     command http PUT (node_path uuid node)
       (robj [(''accuracy'', RNum (uint accuracy_ns)), (''resolution'', RNum (uint resolution_ns))]) w"

definition get_timeline_qot :: "'w http \<Rightarrow> string \<Rightarrow> u64 \<times> u64 \<Rightarrow> 'w \<Rightarrow> (int \<times> (u64 \<times> u64) \<times> 'w) option" where
  "get_timeline_qot http uuid old w = do {
     (fs, w) \<leftarrow> query http (timelines_path @ uuid @ ''/qot'') w;
     q \<leftarrow> scan_members quality_member fs old;
     Some (0, q, w)
   }"

section \<open>Servers\<close>

definition server_member :: "bool \<Rightarrow> string \<Rightarrow> rest_json \<Rightarrow> qot_server \<Rightarrow> qot_server option" where
  "server_member null_stratum k v s =
     (if k = ''name'' then map_option (\<lambda>n. s\<lparr>sv_hostname := n\<rparr>) (as_string v)
      else if k = ''stratum''
      then if null_stratum \<and> v = RNull then Some (s\<lparr>sv_stratum := 3\<rparr>)
           else map_option (\<lambda>i. s\<lparr>sv_stratum := i\<rparr>) (as_integer v)
      else if k = ''server_type'' then map_option (\<lambda>t. s\<lparr>sv_type := t\<rparr>) (as_string v)
      else Some s)"

fun server_list :: "qot_server \<Rightarrow> rest_json list \<Rightarrow> qot_server list option" where
  "server_list junk [] = Some []"
| "server_list junk (x # xs) = do {
     fs \<leftarrow> as_object x;
     s \<leftarrow> scan_members (server_member True) fs (junk\<lparr>sv_hostname := [], sv_type := []\<rparr>);
     ss \<leftarrow> server_list junk xs;
     Some (s # ss)
   }"

text \<open>The only query that checks what it got.\<close>

definition get_timeline_servers :: "'w http \<Rightarrow> qot_server \<Rightarrow> string \<Rightarrow> 'w \<Rightarrow> (qot_server list \<times> 'w) option" where
  "get_timeline_servers http junk uuid w = do {
     (answer, w) \<leftarrow> make_request http GET (timelines_path @ uuid @ ''/servers'') RNull w;
     ss \<leftarrow> (case as_array answer of None \<Rightarrow> Some [] | Some xs \<Rightarrow> server_list junk xs);
     Some (ss, w)
   }"

definition post_timeline_server :: "'w http \<Rightarrow> string \<Rightarrow> qot_server \<Rightarrow> 'w \<Rightarrow> (int \<times> 'w) option" where
  "post_timeline_server http uuid server w =
     command http POST (timelines_path @ uuid @ ''/servers'')
       (robj [(''name'', RStr (sv_hostname server)), (''server_type'', RStr (sv_type server)),
              (''stratum'', RNum (sv_stratum server))]) w"

definition get_timeline_server_info :: "'w http \<Rightarrow> string \<Rightarrow> qot_server \<Rightarrow> 'w \<Rightarrow> (int \<times> qot_server \<times> 'w) option" where
  "get_timeline_server_info http uuid server w = do {
     (fs, w) \<leftarrow> query http (timelines_path @ uuid @ ''/servers/'' @ sv_hostname server) w;
     s \<leftarrow> scan_members (server_member False) fs server;
     Some (0, s, w)
   }"

definition delete_timeline_server :: "'w http \<Rightarrow> string \<Rightarrow> string \<Rightarrow> 'w \<Rightarrow> (int \<times> 'w) option" where
  "delete_timeline_server http uuid server_name w =
     command http DEL (timelines_path @ uuid @ ''/servers/'' @ server_name) RNull w"

section \<open>Changes of nodes\<close>

text \<open>The handlers of \<open>qot_timeline_subscriber.cpp\<close>: each member of the message is a node.
  Accuracy and resolution that are missing stay what the local variable held.\<close>

definition change_member :: "string \<Rightarrow> rest_json \<Rightarrow> qot_node_phy \<Rightarrow> qot_node_phy option" where
  "change_member k v node =
     (if k = ''accuracy'' then map_option (\<lambda>i. node\<lparr>nd_accuracy_ns := word_of_int i\<rparr>) (as_integer v)
      else if k = ''resolution'' then map_option (\<lambda>i. node\<lparr>nd_resolution_ns := word_of_int i\<rparr>) (as_integer v)
      else Some node)"

fun changed_nodes :: "qot_node_phy \<Rightarrow> (string \<times> rest_json) list \<Rightarrow> qot_node_phy list option" where
  "changed_nodes junk [] = Some []"
| "changed_nodes junk ((k, v) # fs) = do {
     inner \<leftarrow> as_object v;
     node \<leftarrow> scan_members change_member inner (junk\<lparr>nd_name := k\<rparr>);
     nodes \<leftarrow> changed_nodes junk fs;
     Some (node # nodes)
   }"

text \<open>\<open>closure\<close> is the timeline, if any; the message's text has been parsed.\<close>

definition global_node_change_handler ::
  "qot_node_phy \<Rightarrow> rest_json \<Rightarrow> timeline_core option \<Rightarrow> timeline_core option option" where
  "global_node_change_handler junk answer closure = do {
     fs \<leftarrow> as_object answer;
     node_vector \<leftarrow> changed_nodes junk fs;
     Some (map_option (\<lambda>c. snd (update_global_coordination_info node_vector c)) closure)
   }"

definition local_node_change_handler ::
  "qot_node_phy \<Rightarrow> rest_json \<Rightarrow> timeline_core option \<Rightarrow> timeline_core option option" where
  "local_node_change_handler junk answer closure = do {
     fs \<leftarrow> as_object answer;
     node_vector \<leftarrow> changed_nodes junk fs;
     Some (map_option (\<lambda>c. snd (update_local_coordination_info node_vector c)) closure)
   }"

section \<open>The subscriber\<close>

text \<open>A subscription that was not destroyed is known by its topic in \<open>sb_live\<close>.\<close>

record subscriber =
  sb_conn :: bool
  sb_sub :: "string option"
  sb_status :: int
  sb_nats_host :: string
  sb_timeline_uuid :: string
  sb_live :: "string list"

definition SUB_OK :: int where "SUB_OK = 0"

definition TimelineSubscriber :: "int \<Rightarrow> string \<Rightarrow> string \<Rightarrow> subscriber" where
  "TimelineSubscriber junk_status nats_host timeline_uuid =
     \<lparr>sb_conn = False, sb_sub = None, sb_status = junk_status, sb_nats_host = nats_host,
      sb_timeline_uuid = timeline_uuid, sb_live = []\<rparr>"

definition change_topic :: "string \<Rightarrow> string \<Rightarrow> string" where
  "change_topic uuid scope = ''coordination.timelines.'' @ uuid @ ''.'' @ scope"

definition sub_subscribe :: "(string \<Rightarrow> int) \<Rightarrow> string \<Rightarrow> subscriber \<Rightarrow> subscriber" where
  "sub_subscribe subscribe topic b =
     (if sb_status b \<noteq> SUB_OK then b
      else if subscribe topic = SUB_OK
      then b\<lparr>sb_sub := Some topic, sb_live := sb_live b @ [topic], sb_status := SUB_OK\<rparr>
      else b\<lparr>sb_status := subscribe topic\<rparr>)"

definition sub_natsSubscribe :: "(string \<Rightarrow> int) \<Rightarrow> (string \<Rightarrow> int) \<Rightarrow> subscriber \<Rightarrow> int \<times> subscriber" where
  "sub_natsSubscribe connect subscribe b =
     (let s = connect (''nats://'' @ sb_nats_host b);
          b = b\<lparr>sb_status := s, sb_conn := (s = SUB_OK)\<rparr>;
          b = sub_subscribe subscribe (change_topic (sb_timeline_uuid b) ''global'') b;
          b = sub_subscribe subscribe (change_topic (sb_timeline_uuid b) ''local'') b
      in (sb_status b, b))"

definition sub_natsUnSubscribe :: "subscriber \<Rightarrow> int \<times> subscriber" where
  "sub_natsUnSubscribe b =
     (let b = (if sb_status b = SUB_OK
               then b\<lparr>sb_live := (case sb_sub b of None \<Rightarrow> sb_live b | Some t \<Rightarrow> remove1 t (sb_live b))\<rparr>
               else b)
      in (0, b\<lparr>sb_conn := False, sb_sub := None\<rparr>))"

section \<open>The calls of a timeline\<close>

text \<open>A REST effect of the timeline core is a call of this interface; the others do not reach
  the coordination service.\<close>

fun rest_call :: "'w http \<Rightarrow> qot_server \<Rightarrow> effect \<Rightarrow> 'w \<Rightarrow> 'w option" where
  "rest_call http junk (Rest_post_timeline uuid) w = map_option snd (post_timeline http uuid w)"
| "rest_call http junk (Rest_post_node uuid node a r) w = map_option snd (post_node http uuid node a r w)"
| "rest_call http junk (Rest_put_node uuid node a r) w = map_option snd (put_node http uuid node a r w)"
| "rest_call http junk (Rest_delete_node uuid node) w = map_option snd (delete_node http uuid node w)"
| "rest_call http junk (Rest_get_metadata uuid) w = map_option snd (get_timeline_metadata http uuid w)"
| "rest_call http junk (Rest_put_metadata uuid m) w = map_option snd (put_timeline_metadata http uuid m w)"
| "rest_call http junk (Rest_get_coord_id uuid) w = map_option snd (get_timeline_coord_id http uuid w)"
| "rest_call http junk (Rest_get_servers uuid) w = map_option snd (get_timeline_servers http junk uuid w)"
| "rest_call http junk (Rest_post_server uuid server) w = map_option snd (post_timeline_server http uuid server w)"
| "rest_call http junk _ w = Some w"

fun rest_calls :: "'w http \<Rightarrow> qot_server \<Rightarrow> effect list \<Rightarrow> 'w \<Rightarrow> 'w option" where
  "rest_calls http junk [] w = Some w"
| "rest_calls http junk (e # es) w = rest_call http junk e w \<bind> rest_calls http junk es"

section \<open>Lemmas\<close>

lemma rest_calls_append:
  "rest_calls http junk (es @ fs) w = rest_calls http junk es w \<bind> rest_calls http junk fs"
  by (induction es arbitrary: w) (auto split: Option.bind_splits)

lemma rest_calls_sync: "\<forall>e \<in> set es. \<exists>m. e = Sync_request m \<Longrightarrow> rest_calls http junk es w = Some w"
  by (induction es) auto

lemma map_of_robj_set: "map_of (robj_set k v fs) k' = (if k' = k then Some v else map_of fs k')"
  by (induction fs) auto

text \<open>Reading the quality of a node from the members of an object.\<close>

lemma quality_member_at:
  "quality_member ''accuracy'' v q = map_option (\<lambda>i. (word_of_int i, snd q)) (as_integer v)"
  "quality_member ''resolution'' v q = map_option (\<lambda>i. (fst q, word_of_int i)) (as_integer v)"
  "k \<noteq> ''accuracy'' \<Longrightarrow> k \<noteq> ''resolution'' \<Longrightarrow> quality_member k v q = Some q"
  by (simp_all add: quality_member_def)

lemma scan_quality:
  assumes "distinct (map fst fs)"
    and "\<And>k v. k \<in> {''accuracy'', ''resolution''} \<Longrightarrow> map_of fs k = Some v \<Longrightarrow> as_integer v \<noteq> None"
  defines "upd \<equiv> \<lambda>k d. case map_of fs k of None \<Rightarrow> d | Some v \<Rightarrow> word_of_int (the (as_integer v))"
  shows "scan_members quality_member fs old = Some (upd ''accuracy'' (fst old), upd ''resolution'' (snd old))"
  using assms(1,2) unfolding upd_def
proof (induction fs arbitrary: old)
  case (Cons kv fs)
  obtain k v where kv: "kv = (k, v)"
    by (cases kv)
  have fresh: "map_of fs k = None"
    using Cons.prems(1) by (simp add: kv map_of_eq_None_iff)
  have ints: "as_integer v' \<noteq> None" if "k' \<in> {''accuracy'', ''resolution''}" "map_of fs k' = Some v'" for k' v'
    using Cons.prems(2) [of k' v'] that fresh by (cases "k' = k") (simp_all add: kv)
  have d: "distinct (map fst fs)"
    using Cons.prems(1) by simp
  note IH = Cons.IH [OF d ints, simplified]
  have int: "\<exists>i. as_integer v = Some i" if "k \<in> {''accuracy'', ''resolution''}"
    using Cons.prems(2) [OF that, of v] by (auto simp: kv)
  consider "k = ''accuracy''" | "k = ''resolution''" | "k \<noteq> ''accuracy''" "k \<noteq> ''resolution''"
    by blast
  then show ?case
  proof cases
    case 1
    then show ?thesis
      using int fresh by (auto simp: kv quality_member_at IH split: option.split)
  next
    case 2
    then show ?thesis
      using int fresh by (auto simp: kv quality_member_at IH split: option.split)
  next
    case 3
    then show ?thesis
      by (simp add: kv quality_member_at IH)
  qed
qed simp

text \<open>A 64-bit number survives the cut to 32 bits and the widening exactly when it is
  small, or large enough to stand for a negative one.\<close>

definition fits_int :: "u64 \<Rightarrow> bool" where
  "fits_int x \<longleftrightarrow> uint x < 2 ^ 31 \<or> 2 ^ 64 - 2 ^ 31 \<le> uint x"

lemma s32_range: "- (2 ^ 31) \<le> s32 i" "s32 i < 2 ^ 31"
  using int32_s32 [of i] by (simp_all add: int32_def)

lemma s32_high:
  assumes "2 ^ 64 - 2 ^ 31 \<le> i" "i < 2 ^ 64"
  shows "s32 i = i - 2 ^ 64"
proof -
  obtain j where j: "i = j - 2 ^ 31 + 2 ^ 32 * 2 ^ 32" "0 \<le> j" "j < 2 ^ 31"
    using assms by (intro that [of "i + 2 ^ 31 - 2 ^ 64"]) simp_all
  have "(i + 2 ^ 31) mod 2 ^ 32 = (j + 2 ^ 32 * 2 ^ 32) mod 2 ^ 32"
    by (simp only: j(1) diff_add_cancel add.commute add.assoc) (simp add: algebra_simps)
  also have "\<dots> = j mod 2 ^ 32"
    by (rule mod_mult_self2)
  also have "\<dots> = j"
    using j(2,3) by (intro mod_pos_pos_trivial) simp_all
  finally show ?thesis
    by (simp add: s32_def j(1))
qed

lemma fits_int_iff: "(word_of_int (s32 (uint x)) :: u64) = x \<longleftrightarrow> fits_int x"
proof -
  define i where "i = uint x"
  have b: "0 \<le> i" "i < 2 ^ 64"
    using uint_lt2p [of x] by (simp_all add: i_def)
  have "(word_of_int (s32 (uint x)) :: u64) = x \<longleftrightarrow> s32 i mod 2 ^ 64 = i"
    by (simp add: word_uint_eq_iff uint_word_of_int i_def)
  also have "\<dots> \<longleftrightarrow> i < 2 ^ 31 \<or> 2 ^ 64 - 2 ^ 31 \<le> i"
  proof (cases "0 \<le> s32 i")
    case True
    then have "s32 i mod 2 ^ 64 = s32 i"
      using s32_range [of i] by (intro mod_pos_pos_trivial) simp_all
    moreover have "s32 i = i" if "i < 2 ^ 31"
      using b that by (intro s32_id) (simp add: int32_def)
    moreover have "s32 i < 0" if "2 ^ 64 - 2 ^ 31 \<le> i"
      using s32_high [OF that b(2)] b(2) by simp
    ultimately show ?thesis
      using True s32_range [of i] by auto
  next
    case False
    have "s32 i mod 2 ^ 64 = (s32 i + 2 ^ 64) mod 2 ^ 64"
      by simp
    also have "\<dots> = s32 i + 2 ^ 64"
      using False s32_range [of i] by (intro mod_pos_pos_trivial) simp_all
    finally have m: "s32 i mod 2 ^ 64 = s32 i + 2 ^ 64" .
    have "\<not> i < 2 ^ 31"
      using False b s32_id [of i] by (auto simp: int32_def)
    moreover have "s32 i = i - 2 ^ 64" if "2 ^ 64 - 2 ^ 31 \<le> i"
      using s32_high [OF that b(2)] b(2) by simp
    ultimately show ?thesis
      using m b s32_range [of i] by auto
  qed
  finally show ?thesis
    by (simp add: fits_int_def i_def)
qed

text \<open>The quality of a node, read from an answer that shows it as it was put.\<close>

lemma node_quality_read:
  assumes "query http (node_path uuid node) w = Some (fs, w')" "distinct (map fst fs)"
    and "map_of fs ''accuracy'' = Some (RNum (uint a))" "map_of fs ''resolution'' = Some (RNum (uint r))"
  shows "\<exists>q. get_node http uuid node old w = Some (0, q, w') \<and>
     q = (word_of_int (s32 (uint a)), word_of_int (s32 (uint r))) \<and> (q = (a, r) \<longleftrightarrow> fits_int a \<and> fits_int r)"
proof -
  have "as_integer v \<noteq> None" if "k \<in> {''accuracy'', ''resolution''}" "map_of fs k = Some v" for k v
    using that assms(3,4) by auto
  from scan_quality [OF assms(2) this, where old = old] show ?thesis
    using fits_int_iff [of a] fits_int_iff [of r] by (simp add: get_node_def assms)
qed

lemma quality_body: "robj [(''accuracy'', a), (''resolution'', r)] = RObj [(''accuracy'', a), (''resolution'', r)]"
  by (simp add: robj_def)

text \<open>The requests a sequence of calls makes, recorded in their order.\<close>

definition recording :: "'w http \<Rightarrow> (rest_request list \<times> 'w) http" where
  "recording http rq ls = (let (a, w) = http rq (snd ls) in (a, fst ls @ [rq], w))"

lemma put_node_recorded:
  assumes "put_node (recording http) uuid node a r ls = Some (rv, ls')"
  shows "fst ls' = fst ls @ [\<lparr>rq_method = PUT, rq_path = node_path uuid node,
     rq_body = Some (RObj [(''accuracy'', RNum (uint a)), (''resolution'', RNum (uint r))])\<rparr>]"
  using assms
  by (auto simp: put_node_def command_def make_request_def make_task_request_def recording_def quality_body
      case_prod_unfold bind_eq_Some_conv Let_def split: http_answer.splits if_splits)

text \<open>A query that is answered with another status than 200 ends the service, as the null it
  is turned into is no object; only the list of servers is read with care.\<close>

lemma refused_query:
  assumes "http \<lparr>rq_method = GET, rq_path = path, rq_body = None\<rparr> w = (Response status body, w')" "status \<noteq> 200"
  shows "make_request http GET path v w = Some (RNull, w')" "query http path w = None"
  using assms by (simp_all add: query_def make_request_def make_task_request_def)

text \<open>C40: When the coordination service answers a query with another status than 200, every
  query throws an exception that ends the timeline service, except the list of servers,
  which comes out empty.\<close>

lemma refused_query_ends_service:
  assumes "\<And>path w. \<exists>status body w'. http \<lparr>rq_method = GET, rq_path = path, rq_body = None\<rparr> w = (Response status body, w')
     \<and> status \<noteq> 200"
  shows "get_timelines http w = None \<and> get_timeline_nodes http junk_node uuid w = None \<and> get_timeline_coord_id http uuid w = None \<and>
     get_timeline_metadata http uuid w = None \<and> get_timeline_num_nodes http uuid w = None \<and>
     get_node http uuid node old w = None \<and> get_node_ip http uuid node w = None \<and> get_timeline_qot http uuid old w = None \<and>
     get_timeline_server_info http uuid server w = None \<and> (\<exists>w'. get_timeline_servers http junk_server uuid w = Some ([], w'))"
proof -
  have q: "query http path w = None" for path
    using assms [of path w] refused_query(2) by fastforce
  have r: "\<exists>w'. make_request http GET path v w = Some (RNull, w')" for path v
    using assms [of path w] refused_query(1) by fastforce
  obtain w1 where w1: "make_request http GET timelines_path RNull w = Some (RNull, w1)"
    using r by blast
  obtain w2 where w2: "make_request http GET (timelines_path @ uuid @ ''/servers'') RNull w = Some (RNull, w2)"
    using r by blast
  show ?thesis
    by (simp add: get_timelines_def get_timeline_nodes_def get_timeline_coord_id_def get_timeline_metadata_def
        get_timeline_num_nodes_def get_node_def get_node_ip_def get_timeline_qot_def get_timeline_server_info_def
        get_timeline_servers_def q w1 w2)
qed

text \<open>The members of a timeline come out unfilled, one for each member of each entry.\<close>

lemma member_nodes_unfilled: "member_nodes ''nodes'' v fs node = Some (replicate (length fs) node)"
  by (induction fs arbitrary: node) (simp_all add: node_member_def)

lemma element_nodes_unfilled:
  "element_nodes ''nodes'' v junk (map RObj fss) = Some (replicate (sum_list (map length fss)) (junk\<lparr>nd_name := []\<rparr>))"
  by (induction fss) (simp_all add: member_nodes_unfilled replicate_add)

text \<open>The nodes of a timeline.\<close>

lemma timeline_nodes_unfilled:
  assumes "query http (timelines_path @ uuid) w = Some (fs, w')" "map_of fs ''nodes'' = Some (RArr (map RObj fss))"
  shows "get_timeline_nodes http junk uuid w =
     Some (replicate (sum_list (map length fss)) (junk\<lparr>nd_name := []\<rparr>), w')"
  using assms by (simp add: get_timeline_nodes_def find_member_def element_nodes_unfilled)

text \<open>The nodes a message names.\<close>

lemma change_member_name: "change_member k v node = Some node' \<Longrightarrow> nd_name node' = nd_name node"
  by (auto simp: change_member_def split: if_splits)

lemma scan_change_name: "scan_members change_member fs node = Some node' \<Longrightarrow> nd_name node' = nd_name node"
  by (induction change_member fs node rule: scan_members.induct) (auto simp: bind_eq_Some_conv change_member_name)

lemma changed_nodes_names: "changed_nodes junk fs = Some nodes \<Longrightarrow> map nd_name nodes = map fst fs"
  by (induction junk fs arbitrary: nodes rule: changed_nodes.induct) (auto simp: bind_eq_Some_conv scan_change_name)

text \<open>The second subscription replaces the pointer to the first, which is never destroyed.\<close>

lemma first_subscription_leaks:
  assumes "sub_natsSubscribe connect subscribe b = (0, b1)" "sb_live b = []"
  shows "sb_live (snd (sub_natsUnSubscribe b1)) = [change_topic (sb_timeline_uuid b) ''global'']"
  using assms
  by (auto simp: sub_natsSubscribe_def sub_subscribe_def sub_natsUnSubscribe_def SUB_OK_def change_topic_def Let_def
      split: if_splits)

text \<open>What is posted about a server is read back from the list of servers.\<close>

lemma server_posted_read_back:
  assumes "int32 (sv_stratum server)"
    and "robj [(''name'', RStr (sv_hostname server)), (''server_type'', RStr (sv_type server)),
      (''stratum'', RNum (sv_stratum server))] = RObj fs"
  shows "server_list junk [RObj fs] = Some [junk\<lparr>sv_hostname := sv_hostname server, sv_type := sv_type server,
     sv_stratum := sv_stratum server\<rparr>]"
  using assms by (auto simp: robj_def server_member_def)

section \<open>From the bindings to the coordination service\<close>

lemma main_set_quality_trace: "w_trace (main_set_quality k q w) = w_trace w"
  by (cases k) simp_all

lemma clocks_set_quality_trace:
  "clocks_set_quality dem c w = Some (c', w') \<Longrightarrow> w_trace w' = w_trace w \<and> c_info c' = c_info c \<and>
     c_node_uuid c' = c_node_uuid c \<and> c_peers c' = c_peers c \<and> c_binding_map c' = c_binding_map c"
  by (auto simp: clocks_set_quality_def bind_eq_Some_conv main_set_quality_trace)

definition quality_call :: "timeline_core \<Rightarrow> effect" where
  "quality_call c =
     Rest_put_node (tln_name (c_info c)) (c_node_uuid c)
       (TL_TO_nSEC (above (tq_accuracy (aggregate_demand (c_binding_map c)))))
       (TL_TO_nSEC (tq_resolution (aggregate_demand (c_binding_map c))))"

definition quality_sync :: "core_env \<Rightarrow> string \<Rightarrow> timeline_core \<Rightarrow> effect" where
  "quality_sync env meta c =
     Sync_request \<lparr>sm_info = c_info c, sm_demand = aggregate_demand (c_binding_map c),
       sm_msgtype = TL_CREATE_UPDATE, sm_data = meta, sm_retval = env_junk_retval env\<rparr>"

lemma update_timeline_qot_trace:
  assumes "update_timeline_qot env meta c w = Some (c', w')" "c_binding_map c \<noteq> Map.empty"
  shows "\<exists>syncs. w_trace w' = w_trace w @ quality_call c # quality_sync env meta c # syncs \<and>
     (\<forall>e \<in> set syncs. \<exists>m. e = Sync_request m) \<and>
     c_info c' = c_info c \<and> c_node_uuid c' = c_node_uuid c \<and> c_binding_map c' = c_binding_map c"
proof -
  let ?d = "aggregate_demand (c_binding_map c)"
  obtain c1 w1 where q: "clocks_set_quality ?d c w = Some (c1, w1)"
    using assms by (cases "clocks_set_quality ?d c w") (auto simp: update_timeline_qot_def Let_def)
  note t = clocks_set_quality_trace [OF q]
  have c': "c' = c1"
    using assms by (auto simp: update_timeline_qot_def q Let_def c_start_peer_sync_def bind_eq_Some_conv split: if_splits)
  obtain syncs where "w' = w1\<lparr>w_trace := w_trace w1 @ quality_call c # quality_sync env meta c # syncs\<rparr>"
      "\<forall>e \<in> set syncs. \<exists>m. e = Sync_request m"
    using assms
    by (auto simp: update_timeline_qot_def q Let_def quality_call_def quality_sync_def emit_def c_start_peer_sync_def
        peer_msgs_def bind_eq_Some_conv t split: if_splits)
  then show ?thesis
    using t by (auto simp: c')
qed

lemma announce_binding_trace:
  "announce_binding env b a r c w = Some (meta, w') \<Longrightarrow> \<exists>pre. w_trace w' = w_trace w @ pre"
  by (auto simp: announce_binding_def first_binding_metadata_def emit_def Let_def bind_eq_Some_conv split: if_splits)

lemma create_binding_trace:
  assumes "create_binding env b c w = Some (QOT_RETURN_TYPE_OK, b', c', w')"
  shows "\<exists>pre meta syncs. w_trace w' = w_trace w @ pre @ quality_call c' # quality_sync env meta c' # syncs \<and>
     (\<forall>e \<in> set syncs. \<exists>m. e = Sync_request m)"
proof -
  let ?b = "b\<lparr>bd_id := next_binding_id (c_binding_ids c)\<rparr>"
  let ?c = "c\<lparr>c_binding_locked := True, c_binding_ids := insert (bd_id ?b) (c_binding_ids c),
    c_binding_map := (c_binding_map c)(bd_id ?b \<mapsto> ?b)\<rparr>"
  obtain meta w1 c1 where a: "announce_binding env ?b (TL_TO_nSEC (above (tq_accuracy (bd_demand ?b))))
      (TL_TO_nSEC (tq_resolution (bd_demand ?b))) ?c w = Some (meta, w1)"
    and u: "update_timeline_qot env meta ?c w1 = Some (c1, w')" "c' = binding_unlock c1"
    using assms by (auto simp: create_binding_def binding_lock_def bind_eq_Some_conv Let_def split: if_splits)
  obtain pre where "w_trace w1 = w_trace w @ pre"
    using announce_binding_trace [OF a] by blast
  moreover have "c_binding_map ?c \<noteq> Map.empty"
    by simp
  from update_timeline_qot_trace [OF u(1) this] obtain syncs where
    "w_trace w' = w_trace w1 @ quality_call ?c # quality_sync env meta ?c # syncs" "\<forall>e \<in> set syncs. \<exists>m. e = Sync_request m"
    "quality_call c' = quality_call ?c" "quality_sync env meta c' = quality_sync env meta ?c"
    by (auto simp: u(2) quality_call_def quality_sync_def binding_unlock_def)
  ultimately show ?thesis
    by (intro exI [of _ pre] exI [of _ meta] exI [of _ syncs]) simp
qed

text \<open>C7: From a binding to the coordination service: when a binding has been created and its
  REST calls are made, whatever the coordination service answers (unless an answer ends
  the process), the last request it receives is the PUT of this node's entry in the
  timeline with, in nanoseconds and 64 bits, the accuracy and the resolution of the
  aggregate of all bindings; after the calls the sync service is told the same aggregate.\<close>

lemma demand_reaches_coordination:
  assumes "create_binding env b c w = Some (QOT_RETURN_TYPE_OK, b', c', w')"
    and "rest_calls (recording http) junk (drop (length (w_trace w)) (w_trace w')) ([], s) = Some (rqs, s')"
  defines "d \<equiv> aggregate_demand (c_binding_map c')"
  shows "\<exists>calls meta syncs. w_trace w' = w_trace w @ calls @
       Sync_request \<lparr>sm_info = c_info c', sm_demand = d, sm_msgtype = TL_CREATE_UPDATE, sm_data = meta,
         sm_retval = env_junk_retval env\<rparr> # syncs \<and> (\<forall>e \<in> set syncs. \<exists>m. e = Sync_request m) \<and>
     (\<exists>earlier. rqs = earlier @ [\<lparr>rq_method = PUT,
        rq_path = ''/api/service/timelines/'' @ tln_name (c_info c') @ ''/nodes/'' @ c_node_uuid c',
        rq_body = Some (RObj [(''accuracy'', RNum (uint (TL_TO_nSEC (above (tq_accuracy d))))),
                              (''resolution'', RNum (uint (TL_TO_nSEC (tq_resolution d))))])\<rparr>])"
proof -
  obtain pre meta syncs where t: "w_trace w' = w_trace w @ pre @ quality_call c' # quality_sync env meta c' # syncs"
      "\<forall>e \<in> set syncs. \<exists>m. e = Sync_request m"
    using create_binding_trace [OF assms(1)] by blast
  have sy: "rest_calls (recording http) junk syncs x = Some x" for x
    using t(2) by (rule rest_calls_sync)
  obtain ls where ls: "rest_call (recording http) junk (quality_call c') ls = Some (rqs, s')"
    using assms(2) by (auto simp: t(1) rest_calls_append quality_sync_def bind_eq_Some_conv sy)
  obtain rv where "put_node (recording http) (tln_name (c_info c')) (c_node_uuid c')
      (TL_TO_nSEC (above (tq_accuracy d))) (TL_TO_nSEC (tq_resolution d)) ls = Some (rv, (rqs, s'))"
    using ls by (auto simp: quality_call_def d_def)
  from put_node_recorded [OF this] t show ?thesis
    by (intro exI [of _ "pre @ [quality_call c']"] exI [of _ meta] exI [of _ syncs])
      (auto simp: quality_sync_def d_def node_path_def timelines_path_def)
qed

section \<open>Examples\<close>

text \<open>A service that keeps what is put under each path, and shows it.\<close>

definition ex_store :: "(string \<Rightarrow> (string \<times> rest_json) list) http" where
  "ex_store rq m =
     (case (rq_method rq, rq_body rq) of
        (PUT, Some (RObj fs)) \<Rightarrow> (Response 204 None, m(rq_path rq := fs))
      | (GET, _) \<Rightarrow> (Response 200 (Some (RObj (m (rq_path rq)))), m)
      | _ \<Rightarrow> (Response 201 (Some RNull), m))"

definition ex_refusing :: "unit http" where "ex_refusing rq w = (Response 404 None, w)"

definition ex_node_junk :: qot_node_phy where
  "ex_node_junk = \<lparr>nd_name = ''junk'', nd_accuracy_ns = 7, nd_resolution_ns = 7\<rparr>"

definition ex_server_junk :: qot_server where
  "ex_server_junk = \<lparr>sv_hostname = ''junk'', sv_type = [], sv_stratum = 7, sv_info_timestamp = 7,
     sv_root_dispersion = 7, sv_root_delay = 7, sv_timeline_id = 7\<rparr>"

lemma node_quality_read_witness:
  "\<exists>q. get_node ex_store ''tl'' ''n'' (0, 0)
       (\<lambda>_. [(''accuracy'', RNum 3000000000), (''resolution'', RNum 5)]) = Some (0, q,
         \<lambda>_. [(''accuracy'', RNum 3000000000), (''resolution'', RNum 5)]) \<and> q \<noteq> (3000000000, 5)"
proof -
  let ?m = "\<lambda>_ :: string. [(''accuracy'', RNum 3000000000), (''resolution'', RNum 5)]"
  have "query ex_store (node_path ''tl'' ''n'') ?m = Some (?m [], ?m)"
    by (simp add: query_def make_request_def make_task_request_def ex_store_def)
  from node_quality_read [OF this, of 3000000000 5 "(0, 0)"] obtain q where
    "get_node ex_store ''tl'' ''n'' (0, 0) ?m = Some (0, q, ?m)" "q = (3000000000, 5) \<longleftrightarrow> fits_int 3000000000 \<and> fits_int 5"
    by auto
  moreover have "\<not> fits_int 3000000000"
    by (simp add: fits_int_def)
  ultimately show ?thesis
    by blast
qed

lemma refused_query_ends_service_witness:
  "get_timeline_metadata ex_refusing ''tl'' () = None \<and> (\<exists>w. get_timeline_servers ex_refusing ex_server_junk ''tl'' () = Some ([], w))"
proof -
  have "\<exists>status body w'. ex_refusing \<lparr>rq_method = GET, rq_path = path, rq_body = None\<rparr> w = (Response status body, w') \<and> status \<noteq> 200" for path w
    by (simp add: ex_refusing_def)
  from refused_query_ends_service [where http = ex_refusing, OF this] show ?thesis
    by blast
qed

lemma timeline_nodes_unfilled_witness:
  "get_timeline_nodes ex_store ex_node_junk ''tl'' ((\<lambda>_. [])(timelines_path @ ''tl'' :=
       [(''nodes'', RArr [RObj [(''accuracy'', RNum 10), (''name'', RStr ''a'')]])]))
     = Some ([ex_node_junk\<lparr>nd_name := []\<rparr>, ex_node_junk\<lparr>nd_name := []\<rparr>], (\<lambda>_. [])(timelines_path @ ''tl'' :=
       [(''nodes'', RArr [RObj [(''accuracy'', RNum 10), (''name'', RStr ''a'')]])]))"
proof -
  let ?m = "(\<lambda>_. [])(timelines_path @ ''tl'' := [(''nodes'', RArr [RObj [(''accuracy'', RNum 10), (''name'', RStr ''a'')]])])"
  have q: "query ex_store (timelines_path @ ''tl'') ?m = Some (?m (timelines_path @ ''tl''), ?m)"
    by (simp add: query_def make_request_def make_task_request_def ex_store_def)
  have m: "map_of (?m (timelines_path @ ''tl'')) ''nodes''
      = Some (RArr (map RObj [[(''accuracy'', RNum 10), (''name'', RStr ''a'')]]))"
    by simp
  show ?thesis
    using timeline_nodes_unfilled [OF q m, of ex_node_junk] by (simp add: numeral_eq_Suc)
qed

lemma ex_create_binding:
  "\<exists>b' c' w' a r m. create_binding env (ex_bind 0 20) ex_core w = Some (QOT_RETURN_TYPE_OK, b', c', w') \<and>
     tln_name (c_info c') = ''tl'' \<and> c_node_uuid c' = ''node'' \<and>
     w_trace w' = w_trace w @ [Rest_put_node ''tl'' ''node'' a r, Sync_request m]"
  by (simp add: create_binding_def binding_lock_def ex_core_def ex_bind_def next_binding_id_def Let_def
    announce_binding_def update_timeline_qot_def clocks_set_quality_def emit_def s32_def binding_unlock_def)

text \<open>The coordination service answers nothing here but statuses: the calls are made all the same.\<close>

lemma demand_reaches_coordination_witness:
  "\<forall>env w. \<exists>b' c' w' rqs s' earlier accuracy resolution.
     create_binding env (ex_bind 0 20) ex_core w = Some (QOT_RETURN_TYPE_OK, b', c', w') \<and>
     rest_calls (recording ex_refusing) ex_server_junk (drop (length (w_trace w)) (w_trace w')) ([], ()) = Some (rqs, s') \<and>
     rqs = earlier @ [\<lparr>rq_method = PUT, rq_path = ''/api/service/timelines/tl/nodes/node'',
       rq_body = Some (RObj [(''accuracy'', accuracy), (''resolution'', resolution)])\<rparr>]"
proof (intro allI)
  fix env w
  obtain b' c' w' a r m where c: "create_binding env (ex_bind 0 20) ex_core w = Some (QOT_RETURN_TYPE_OK, b', c', w')"
    and i: "tln_name (c_info c') = ''tl''" "c_node_uuid c' = ''node''"
      "w_trace w' = w_trace w @ [Rest_put_node ''tl'' ''node'' a r, Sync_request m]"
    using ex_create_binding by blast
  obtain rqs s' where s': "rest_calls (recording ex_refusing) ex_server_junk (drop (length (w_trace w)) (w_trace w')) ([], ())
      = Some (rqs, s')"
    by (simp add: i(3) put_node_def command_def make_request_def make_task_request_def recording_def ex_refusing_def)
  show "\<exists>b' c' w' rqs s' earlier accuracy resolution.
     create_binding env (ex_bind 0 20) ex_core w = Some (QOT_RETURN_TYPE_OK, b', c', w') \<and>
     rest_calls (recording ex_refusing) ex_server_junk (drop (length (w_trace w)) (w_trace w')) ([], ()) = Some (rqs, s') \<and>
     rqs = earlier @ [\<lparr>rq_method = PUT, rq_path = ''/api/service/timelines/tl/nodes/node'',
       rq_body = Some (RObj [(''accuracy'', accuracy), (''resolution'', resolution)])\<rparr>]"
    using demand_reaches_coordination [OF c s'] c s' i(1,2) by auto
qed

end
