(* ===== verification/Number_Text.thy ===== *)
theory Number_Text
  imports Sync_Base Timeline_Service
begin

text \<open>
  Numbers as text: what the services print with \<open>std::to_string\<close> and \<open>sprintf\<close> is read
  back by the scanning functions of the sync service (\<open>std::stoi\<close>, \<open>sscanf\<close>).
\<close>

lemma show_nat_hd_zero: "hd (show_nat n) = CHR ''0'' \<Longrightarrow> n = 0"
proof (induction n rule: show_nat.induct)
  case (1 n)
  show ?case
  proof (cases "n < 10")
    case True
    then have "char_of (48 + n) = CHR ''0''"
      using 1(2) by (simp add: show_nat.simps [of n])
    then have "of_char (char_of (48 + n) :: char) = (48 :: nat)"
      by simp
    then show ?thesis
      using True by (simp add: of_char_of)
  next
    case False
    moreover have "show_nat (n div 10) \<noteq> []"
      using show_nat_digit_hd by blast
    ultimately have "hd (show_nat (n div 10)) = CHR ''0''"
      using 1(2) by (simp add: show_nat.simps [of n])
    then have "n div 10 = 0"
      using 1(1) False by simp
    then show ?thesis
      using False by simp
  qed
qed

lemma digit_val_digit:
  assumes "is_digit c"
  shows "digit_val c < 10" "digit_val c = of_char c - 48"
proof -
  have "48 \<le> (of_char c :: nat)" "(of_char c :: nat) \<le> 57"
    using assms by (simp_all add: is_digit_def)
  then show "digit_val c < 10" "digit_val c = of_char c - 48"
    by (simp_all add: digit_val_def Let_def)
qed

lemma digits_in_show_nat: "digits_in 10 (show_nat n) = show_nat n"
  unfolding digits_in_def takeWhile_eq_all_conv using show_nat_digits digit_val_digit(1) by blast

lemma number_in_show_nat: "number_in 10 (show_nat n) = n"
proof -
  have "foldl (\<lambda>a c. a * 10 + digit_val c) k ds = foldl (\<lambda>a c. a * 10 + (of_char c - 48)) k ds"
    if "\<forall>c \<in> set ds. is_digit c" for k ds
    using that by (induction ds arbitrary: k) (simp_all add: digit_val_digit)
  then show ?thesis
    using digits_val_show_nat [of n] show_nat_digits by (simp add: number_in_def digits_val_def)
qed

lemma c_str_show: "c_str (show_nat n) = show_nat n" "c_str (CHR ''-'' # show_nat n) = CHR ''-'' # show_nat n"
proof -
  have "c \<noteq> CHR 0x00" if "c \<in> set (show_nat n)" for c
    using show_nat_digits [OF that] by (auto simp: is_digit_def)
  then have "c_str (show_nat n) = show_nat n"
    by (simp add: c_str_def takeWhile_eq_all_conv)
  then show "c_str (show_nat n) = show_nat n" "c_str (CHR ''-'' # show_nat n) = CHR ''-'' # show_nat n"
    by (simp_all add: c_str_def)
qed

lemma scan_sign_show: "scan_sign (show_nat n) = (False, show_nat n)" "scan_sign (CHR ''-'' # show_nat n) = (True, show_nat n)"
proof -
  obtain c cs where c: "show_nat n = c # cs" "is_digit c" "c \<noteq> CHR ''-''" "c \<noteq> CHR ''+''"
    by (rule show_nat_cons)
  have "\<not> is_space c"
    using digit_not_special [OF c(2)] by simp
  with c(1,3,4) show "scan_sign (show_nat n) = (False, show_nat n)"
    by (simp add: scan_sign_def)
  show "scan_sign (CHR ''-'' # show_nat n) = (True, show_nat n)"
    by (simp add: scan_sign_def is_space_def)
qed

text \<open>A printed number is never taken for octal or hexadecimal.\<close>

lemma show_nat_not_hex:
  "\<not> (length (show_nat n) > 2 \<and> show_nat n ! 0 = CHR ''0'' \<and>
      (show_nat n ! 1 = CHR ''x'' \<or> show_nat n ! 1 = CHR ''X'') \<and> digit_val (show_nat n ! 2) < 16)"
proof -
  have "is_digit (show_nat n ! 1)" if "length (show_nat n) > 2"
    using that nth_mem [of 1 "show_nat n"] by (intro show_nat_digits [of _ n]) simp
  moreover have "\<not> is_digit CHR ''x''" "\<not> is_digit CHR ''X''"
    by (simp_all add: is_digit_def)
  ultimately show ?thesis
    by metis
qed

lemma show_nat_not_octal:
  assumes "n \<noteq> 0"
  shows "show_nat n ! 0 \<noteq> CHR ''0''"
proof -
  obtain c cs where "show_nat n = c # cs"
    by (rule show_nat_cons)
  then show ?thesis
    using show_nat_hd_zero [of n] assms by auto
qed

lemma stoi_auto_zero: "stoi_auto (show_int 0) = Some 0"
  by code_simp

lemma stoi_auto_show_int:
  assumes "int32 i"
  shows "stoi_auto (show_int i) = Some i"
proof (cases "i = 0")
  case True
  then show ?thesis
    using stoi_auto_zero by simp
next
  case False
  let ?n = "nat \<bar>i\<bar>"
  have n: "?n \<noteq> 0"
    using False by simp
  have v: "signed_val (i < 0) ?n = i"
    using assms by (simp add: signed_val_def clamp64_def int32_def)
  have s: "scan_sign (c_str (show_int i)) = (i < 0, show_nat ?n)"
    by (simp add: show_int_def c_str_show scan_sign_show)
  have "show_nat ?n \<noteq> []"
    using show_nat_digit_hd by blast
  then show ?thesis
    unfolding stoi_auto_def s Let_def prod.case
    by (simp only: show_nat_not_hex show_nat_not_octal [OF n] if_False digits_in_show_nat number_in_show_nat v
        assms not_True_eq_False simp_thms)
qed

section \<open>Several numbers\<close>

text \<open>\<open>sscanf\<close> with \<open>n\<close> conversions \<open>%ld\<close>, separated by spaces in the format: the numbers up
  to the first that does not match.  A space in the format and the conversion itself skip
  white space.\<close>

fun scan_longs :: "nat \<Rightarrow> string \<Rightarrow> int list" where
  "scan_longs 0 s = []"
| "scan_longs (Suc n) s =
     (let (neg, t) = scan_sign s; ds = digits_in 10 t
      in if ds = [] then []
         else signed_val neg (number_in 10 ds) # scan_longs n (drop (length ds) t))"

lemma digits_in_show_before:
  assumes "digit_val c \<ge> 10"
  shows "digits_in 10 (show_nat n @ c # r) = show_nat n"
  using digits_in_show_nat [of n] assms
  by (simp add: digits_in_def takeWhile_append2 takeWhile_eq_all_conv)

lemma scan_sign_text:
  "scan_sign (show_int i @ r) = (i < 0, show_nat (nat \<bar>i\<bar>) @ r)"
proof -
  obtain c cs where c: "show_nat (nat \<bar>i\<bar>) = c # cs" "is_digit c" "c \<noteq> CHR ''-''" "c \<noteq> CHR ''+''"
    by (rule show_nat_cons)
  then show ?thesis
    using digit_not_special [OF c(2)]
    by (cases "i < 0") (simp_all add: show_int_def scan_sign_def is_space_def)
qed

lemma scan_sign_space: "scan_sign (CHR '' '' # s) = scan_sign s"
  by (simp add: scan_sign_def is_space_def)

lemma scan_longs_text:
  assumes "- (2 ^ 63) \<le> i" "i < 2 ^ 63" "c = CHR '' '' \<or> c = CHR 0x0A"
  shows "scan_longs (Suc n) (show_int i @ c # r) = i # scan_longs n (c # r)"
proof -
  have c: "digit_val c \<ge> 10"
    using assms(3) by (auto simp: digit_val_def)
  have v: "signed_val (i < 0) (nat \<bar>i\<bar>) = i"
    using assms(1,2) by (simp add: signed_val_def clamp64_def)
  have "show_nat (nat \<bar>i\<bar>) \<noteq> []"
    using show_nat_digit_hd by blast
  then show ?thesis
    by (simp add: scan_sign_text digits_in_show_before [OF c] number_in_show_nat v)
qed

lemma scan_longs_skip: "scan_longs n (CHR '' '' # s) = scan_longs n s"
  by (cases n) (simp_all add: scan_sign_space)

lemma length_show_nat: "n < 10 ^ k \<Longrightarrow> 0 < k \<Longrightarrow> length (show_nat n) \<le> k"
proof (induction n arbitrary: k rule: show_nat.induct)
  case (1 n)
  show ?case
  proof (cases "n < 10")
    case True
    then show ?thesis
      using 1(3) by (simp add: show_nat.simps [of n])
  next
    case False
    then have k: "1 < k"
      using 1(2,3) by (cases "k = 1") simp_all
    have "10 ^ k = 10 * (10 ^ (k - 1) :: nat)"
      using k by (simp add: power_eq_if)
    then have "n div 10 < 10 ^ (k - 1)"
      using 1(2) by (simp add: div_less_iff_less_mult)
    then have "length (show_nat (n div 10)) \<le> k - 1"
      using 1(1) [OF False, of "k - 1"] k by simp
    then show ?thesis
      using False k by (simp add: show_nat.simps [of n])
  qed
qed

lemma length_show_int: "- (2 ^ 63) \<le> i \<Longrightarrow> i < 2 ^ 63 \<Longrightarrow> length (show_int i) \<le> 20"
proof -
  assume i: "- (2 ^ 63) \<le> i" "i < 2 ^ 63"
  then have "\<bar>i\<bar> < 10 ^ 19"
    by simp
  then have "nat \<bar>i\<bar> < 10 ^ 19"
    by (simp add: nat_less_iff)
  then have "length (show_nat (nat \<bar>i\<bar>)) \<le> 19"
    by (rule length_show_nat) simp
  then show ?thesis
    by (cases "i < 0") (simp_all add: show_int_def)
qed

lemma show_int_no_nul: "CHR 0x00 \<notin> set (show_int i)"
proof -
  have "CHR 0x00 \<notin> set (show_nat n)" for n
    using show_nat_digits [of "CHR 0x00" n] by (auto simp: is_digit_def)
  then show ?thesis
    by (simp add: show_int_def)
qed

lemma c_str_stop: "CHR 0x00 \<notin> set s \<Longrightarrow> c_str (s @ CHR 0x00 # r) = s"
  by (induction s) (auto simp: c_str_def)

lemma scan_d_show: "int32 i \<Longrightarrow> scan_d (show_int i) = Some (i, [])"
proof -
  assume i: "int32 i"
  have "scan_sign (show_int i) = (i < 0, show_nat (nat \<bar>i\<bar>))"
    using scan_sign_text [of i "[]"] by simp
  moreover have "show_nat (nat \<bar>i\<bar>) \<noteq> []"
    using show_nat_digit_hd by blast
  moreover have "signed_val (i < 0) (nat \<bar>i\<bar>) = i"
    using i by (simp add: signed_val_def clamp64_def int32_def)
  ultimately show ?thesis
    using i by (simp add: scan_d_def digits_in_show_nat number_in_show_nat)
qed

end
