(* ===== verification/Time_Stamping.thy ===== *)
theory Time_Stamping
  imports Number_Text
begin

text \<open>
  Packet timestamps, \<open>sync-service/sync/huygens/Timestamping.cpp\<close>: enabling them on a
  socket and reading them from the control messages the kernel attaches to a packet,
  with the part of \<open>ptp_message.cpp\<close> that opens a multicast socket.  The kernel's answers
  are arguments; what \<open>recvmsg\<close> stores in a control buffer is \<open>put_cmsgs\<close>.
\<close>

section \<open>Enabling timestamps\<close>

text \<open>The calls of \<open>setsockopt\<close> are returned with their option and value; \<open>sso\<close> gives their
  results.\<close>

definition SO_TIMESTAMPING :: int where "SO_TIMESTAMPING = 37"
definition SO_SELECT_ERR_QUEUE :: int where "SO_SELECT_ERR_QUEUE = 45"
definition SOF_TX_HARDWARE :: int where "SOF_TX_HARDWARE = 1"
definition SOF_TX_SOFTWARE :: int where "SOF_TX_SOFTWARE = 2"
definition SOF_RX_HARDWARE :: int where "SOF_RX_HARDWARE = 4"
definition SOF_RX_SOFTWARE :: int where "SOF_RX_SOFTWARE = 8"
definition SOF_SOFTWARE :: int where "SOF_SOFTWARE = 16"
definition SOF_RAW_HARDWARE :: int where "SOF_RAW_HARDWARE = 64"

unbundle bit_operations_syntax

definition tstamp_mode_kernel :: "(int \<Rightarrow> int \<Rightarrow> int) \<Rightarrow> int \<times> (int \<times> int) list" where
  "tstamp_mode_kernel sso =
     (let f = SOF_TX_SOFTWARE OR SOF_RX_SOFTWARE OR SOF_SOFTWARE
      in if sso SO_TIMESTAMPING f < 0 then (- 1, [(SO_TIMESTAMPING, f)])
         else (0, [(SO_TIMESTAMPING, f), (SO_SELECT_ERR_QUEUE, 1)]))"

record hwtstamp_config =
  hw_tx_type :: int
  hw_rx_filter :: int

definition HWTSTAMP_TX_ON :: int where "HWTSTAMP_TX_ON = 1"
definition HWTSTAMP_FILTER_ALL :: int where "HWTSTAMP_FILTER_ALL = 1"
definition HWTSTAMP_FILTER_PTP_V2_EVENT :: int where "HWTSTAMP_FILTER_PTP_V2_EVENT = 12"

text \<open>The driver may change the configuration it is given.\<close>

definition hw_enable ::
  "(int \<Rightarrow> int \<Rightarrow> int) \<Rightarrow> hwtstamp_config \<Rightarrow> hwtstamp_config \<Rightarrow> int \<times> (int \<times> int) list" where
  "hw_enable sso hwcfg req =
     (let f = SOF_TX_SOFTWARE OR SOF_TX_HARDWARE OR SOF_RX_SOFTWARE OR SOF_RX_HARDWARE OR SOF_RAW_HARDWARE
      in if hwcfg \<noteq> req then (- 1, [])
         else if sso SO_TIMESTAMPING f < 0 then (- 1, [(SO_TIMESTAMPING, f)])
         else (2, [(SO_TIMESTAMPING, f), (SO_SELECT_ERR_QUEUE, 1)]))"

definition tstamp_mode_hardware ::
  "(hwtstamp_config \<Rightarrow> int \<times> hwtstamp_config) \<Rightarrow> (int \<Rightarrow> int \<Rightarrow> int) \<Rightarrow> int \<times> (int \<times> int) list" where
  "tstamp_mode_hardware ioctl sso =
     (let req = \<lparr>hw_tx_type = HWTSTAMP_TX_ON, hw_rx_filter = HWTSTAMP_FILTER_ALL\<rparr>;
          (r, hwcfg) = ioctl req
      in if r < 0
         then let req = hwcfg\<lparr>hw_rx_filter := HWTSTAMP_FILTER_PTP_V2_EVENT\<rparr>; (r, hwcfg) = ioctl req
              in if r < 0 then tstamp_mode_kernel sso else hw_enable sso hwcfg req
         else hw_enable sso hwcfg req)"

section \<open>Control messages\<close>

datatype cmsg_kind = TIMESTAMPING | TIMESTAMPNS | OTHER_CMSG

text \<open>A control message with its length, which counts the header of 16 bytes, and the
  \<open>struct timespec\<close>s (of 16 bytes) it holds.\<close>

record cmsg =
  cm_kind :: cmsg_kind
  cm_len :: nat
  cm_data :: "timespec list"

text \<open>What \<open>recvmsg\<close> leaves in a control buffer of \<open>room\<close> bytes, and the bytes used, which it
  writes to \<open>msg_controllen\<close>.  A message that does not fit is cut; without room for a
  header it is dropped.\<close>

fun put_cmsgs :: "nat \<Rightarrow> cmsg list \<Rightarrow> cmsg list \<times> nat" where
  "put_cmsgs room [] = ([], 0)"
| "put_cmsgs room (c # cs) =
     (if room < 16 then ([], 0)
      else let len = min (cm_len c) room;
               used = min ((cm_len c + 7) div 8 * 8) room;
               (rest, n) = put_cmsgs (room - used) cs
           in (c\<lparr>cm_len := len, cm_data := take ((len - 16) div 16) (cm_data c)\<rparr> # rest, used + n))"

definition zero_ts :: timespec where "zero_ts = \<lparr>tv_sec = 0, tv_nsec = 0\<rparr>"

text \<open>The software timestamp, the hardware one in system time, or the raw hardware one.  The
  buffers are cleared before they are filled, so what is missing reads as zero.\<close>

definition pick_ts :: "int \<Rightarrow> timespec list \<Rightarrow> timespec" where
  "pick_ts ts_flag ts =
     (let i = (if ts_flag = 0 then 0 else if ts_flag = 1 then 1 else 2)
      in if i < length ts then ts ! i else zero_ts)"

text \<open>The answers of the kernel to \<open>poll\<close>, with the error event, and to \<open>recvmsg\<close> on the error
  queue (no messages when it fails).\<close>

record tx_answer =
  ta_poll :: int
  ta_pollerr :: bool
  ta_cmsgs :: "cmsg list"

text \<open>The loop over the control messages: \<open>None\<close> when a message is too short, otherwise the
  pointer \<open>ts\<close> and whether a timestamp was found.\<close>

fun scan_tx :: "timespec list option \<Rightarrow> bool \<Rightarrow> cmsg list \<Rightarrow> (timespec list option \<times> bool) option" where
  "scan_tx ts found [] = Some (ts, found)"
| "scan_tx ts found (c # cs) =
     (case cm_kind c of
        TIMESTAMPING \<Rightarrow> if cm_len c < 48 then None else scan_tx (Some (cm_data c)) True cs
      | TIMESTAMPNS \<Rightarrow> if cm_len c < 16 then None else scan_tx ts True cs
      | OTHER_CMSG \<Rightarrow> scan_tx ts found cs)"

text \<open>\<open>get_tx_timestamp\<close> on the error queue.  The result is the return value and the new
  \<open>*pkt_timestamp\<close>; with a \<open>SO_TIMESTAMPNS\<close> message alone the null \<open>ts\<close> is dereferenced.\<close>

definition get_tx_timestamp :: "tx_answer \<Rightarrow> int \<Rightarrow> timespec \<Rightarrow> (int \<times> timespec) option" where
  "get_tx_timestamp a ts_flag old =
     (if ta_poll a < 1 then Some (ta_poll a, old)
      else if \<not> ta_pollerr a then Some (- 1, old)
      else case scan_tx None False (fst (put_cmsgs 256 (ta_cmsgs a))) of
             None \<Rightarrow> Some (- 1, old)
           | Some (_, False) \<Rightarrow> Some (- 1, zero_ts)
           | Some (None, True) \<Rightarrow> None
           | Some (Some ts, True) \<Rightarrow> Some (0, pick_ts ts_flag ts))"

fun scan_rx :: "timespec list option \<Rightarrow> cmsg list \<Rightarrow> timespec list option" where
  "scan_rx ts [] = ts"
| "scan_rx ts (c # cs) = scan_rx (if cm_kind c = TIMESTAMPING then Some (cm_data c) else ts) cs"

definition get_rx_timestamp :: "cmsg list \<Rightarrow> int \<Rightarrow> int \<times> timespec" where
  "get_rx_timestamp cs ts_flag =
     (case scan_rx None cs of None \<Rightarrow> (- 1, zero_ts) | Some ts \<Rightarrow> (0, pick_ts ts_flag ts))"

section \<open>Lemmas\<close>

lemma put_cmsgs_no_room: "room < 16 \<Longrightarrow> put_cmsgs room cs = ([], 0)"
  by (cases cs) simp_all

lemma put_cmsgs_used: "snd (put_cmsgs room cs) \<le> room"
proof (induction room cs rule: put_cmsgs.induct)
  case (2 room c cs)
  show ?case
  proof (cases "room < 16")
    case False
    from 2 [OF False refl refl] show ?thesis
      using False by (auto simp: Let_def split: prod.splits)
  qed simp
qed simp

text \<open>A receive timestamp is only ever one a message in the buffer holds, or zero.\<close>

lemma get_rx_empty: "get_rx_timestamp [] ts_flag = (- 1, zero_ts)"
  by (simp add: get_rx_timestamp_def)

text \<open>What the kernel sends for a packet with the three timestamps \<open>ts\<close>.\<close>

definition stamp :: "timespec list \<Rightarrow> cmsg" where
  "stamp ts = \<lparr>cm_kind = TIMESTAMPING, cm_len = 64, cm_data = ts\<rparr>"

lemma put_stamp: "64 \<le> room \<Longrightarrow> length ts = 3 \<Longrightarrow> put_cmsgs room [stamp ts] = ([stamp ts], 64)"
  by (simp add: stamp_def Let_def)

lemma get_rx_stamp: "length ts = 3 \<Longrightarrow> get_rx_timestamp [stamp ts] ts_flag = (0, pick_ts ts_flag ts)"
  by (simp add: get_rx_timestamp_def stamp_def)

lemma get_tx_stamp:
  assumes "1 \<le> ta_poll a" "ta_pollerr a" "ta_cmsgs a = [stamp ts]" "length ts = 3"
  shows "get_tx_timestamp a ts_flag old = Some (0, pick_ts ts_flag ts)"
proof -
  have "put_cmsgs 256 [stamp ts] = ([stamp ts], 64)"
    using assms(4) by (rule put_stamp [rotated]) simp
  then show ?thesis
    using assms(1-3) by (simp add: get_tx_timestamp_def) (simp add: stamp_def)
qed

text \<open>A poll that times out leaves the timestamp as it was and is not told from success by
  callers that test for a negative result.\<close>

lemma get_tx_timeout: "ta_poll a = 0 \<Longrightarrow> get_tx_timestamp a ts_flag old = Some (0, old)"
  by (simp add: get_tx_timestamp_def)

section \<open>The multicast socket of PTP messages\<close>

text \<open>The results of the calls in their order.\<close>

record ptp_sock_answers =
  pa_socket :: int
  pa_index :: int
  pa_reuseaddr :: int
  pa_bind :: int
  pa_bindtodevice :: int
  pa_ttl :: int
  pa_membership :: int
  pa_loop :: int
  pa_multicast_if :: int

definition mcast_bind :: "int \<Rightarrow> int" where
  "mcast_bind err = (if err \<noteq> 0 then - 1 else 0)"

definition mcast_join :: "int \<Rightarrow> int \<Rightarrow> int" where
  "mcast_join err_membership err_loop =
     (if err_membership \<noteq> 0 then - 1 else if err_loop \<noteq> 0 then - 1 else 0)"

text \<open>The descriptor or -1, and whether the socket is left open.\<close>

definition open_ptp_socket :: "ptp_sock_answers \<Rightarrow> int \<times> bool" where
  "open_ptp_socket a =
     (let fd = pa_socket a
      in if fd < 0 then (- 1, False)
         else if pa_index a < 0 then (- 1, False)
         else if pa_reuseaddr a \<noteq> 0 then (- 1, False)
         else if pa_bind a \<noteq> 0 then (- 1, False)
         else if pa_bindtodevice a \<noteq> 0 then (- 1, False)
         else if pa_ttl a \<noteq> 0 then (- 1, False)
         else if mcast_join (pa_membership a) (pa_loop a) \<noteq> 0 then (- 1, False)
         else if mcast_bind (pa_multicast_if a) \<noteq> 0 then (- 1, False)
         else (fd, True))"

lemma open_ptp_socket_no_leak: "snd (open_ptp_socket a) \<longleftrightarrow> 0 \<le> fst (open_ptp_socket a)"
  by (simp add: open_ptp_socket_def Let_def)

end
