(* ===== verification/Peer_Server.thy ===== *)
theory Peer_Server
  imports Time_Stamping
begin

text \<open>
  The server of the peer-delay measurement, \<open>sync-service/sync/huygens/PeerTSserver.cpp\<close>: it
  echoes a probe and sends after it the times of its reception and of the echo.

  The environment's answers in one pass of the loop (results of calls, datagrams received,
  control messages) are a record the pass takes as argument.
\<close>

section \<open>Datagrams\<close>

definition BUFSIZE :: nat where "BUFSIZE = 1024"

definition PTP_PORT :: int where "PTP_PORT = 319"

definition PTP_DATA_LEN :: nat where "PTP_DATA_LEN = 1500"

definition zeros :: "nat \<Rightarrow> string" where "zeros n = replicate n (CHR 0x00)"

record datagram =
  dg_from :: string
  dg_bytes :: string
  dg_cmsgs :: "cmsg list"

text \<open>A datagram is cut to the buffer; the bytes after it stay.\<close>

definition recv_into :: "string \<Rightarrow> string \<Rightarrow> string" where
  "recv_into bytes buf = take (length buf) bytes @ drop (length bytes) buf"

text \<open>\<open>sprintf\<close> into a buffer: the text, a terminator, and what was there before.\<close>

definition sprintf_into :: "string \<Rightarrow> string \<Rightarrow> string" where
  "sprintf_into s buf = s @ CHR 0x00 # drop (length s + 1) buf"

text \<open>\<open>sendto(sockfd, buf, strlen(buf)+2, ...)\<close> sends the byte after the terminator too.  It
  reads past the buffer when the text has no terminator in it or ends one byte before its
  end.\<close>

definition text_datagram :: "string \<Rightarrow> string option" where
  "text_datagram buf =
     (if length (c_str buf) + 2 \<le> length buf then Some (take (length (c_str buf) + 2) buf) else None)"

section \<open>The server\<close>

record peer_server =
  ps_portno :: int
  ps_iface :: string
  ps_offset :: s64
  ps_ts_flag :: int
  ps_running :: bool
  ps_exclusion_set :: "string set"
  ps_multicast_map :: "string \<rightharpoonup> string"
  ps_node_uuid :: string
  ps_error_flag :: bool
  ps_error_count :: int
  ps_ptp_msgflag :: bool

definition PeerTSserver2 ::
  "int \<Rightarrow> string \<Rightarrow> s64 \<Rightarrow> int \<Rightarrow> string set \<Rightarrow> (string \<rightharpoonup> string) \<Rightarrow> peer_server" where
  "PeerTSserver2 portno iface offset ts_flag exclusion_set multicast_map =
     \<lparr>ps_portno = portno, ps_iface = iface, ps_offset = offset, ps_ts_flag = ts_flag, ps_running = True,
      ps_exclusion_set = exclusion_set, ps_multicast_map = multicast_map, ps_node_uuid = [],
      ps_error_flag = False, ps_error_count = 0, ps_ptp_msgflag = (portno = PTP_PORT)\<rparr>"

definition PeerTSserver :: "int \<Rightarrow> string \<Rightarrow> s64 \<Rightarrow> int \<Rightarrow> peer_server" where
  "PeerTSserver portno iface offset ts_flag =
     PeerTSserver2 portno iface offset ts_flag {} Map.empty"

text \<open>The answers while a socket is opened and its timestamps are enabled.\<close>

record start_answers =
  sa_inet_aton :: "string \<Rightarrow> bool"
  sa_ptp_socket :: ptp_sock_answers
  sa_socket :: int
  sa_resolves :: "string \<Rightarrow> bool"
  sa_setsockopt :: "int \<Rightarrow> int \<Rightarrow> int"
  sa_ioctl :: "hwtstamp_config \<Rightarrow> int \<times> hwtstamp_config"
  sa_nats :: int

definition enable_timestamps :: "start_answers \<Rightarrow> int \<Rightarrow> int" where
  "enable_timestamps a ts_flag =
     fst (if ts_flag = 2 then tstamp_mode_hardware (sa_ioctl a) (sa_setsockopt a)
          else tstamp_mode_kernel (sa_setsockopt a))"

definition open_probe_socket :: "start_answers \<Rightarrow> bool \<Rightarrow> string \<Rightarrow> bool" where
  "open_probe_socket a ptp name \<longleftrightarrow>
     (if ptp then sa_inet_aton a name \<and> fst (open_ptp_socket (sa_ptp_socket a)) \<ge> 0 else sa_socket a \<ge> 0)"

text \<open>The result, the server, and whether a thread was spawned.\<close>

definition server_Start :: "start_answers \<Rightarrow> string \<Rightarrow> peer_server \<Rightarrow> int \<times> peer_server \<times> bool" where
  "server_Start a node_name s =
     (let s = s\<lparr>ps_error_flag := False, ps_error_count := 0\<rparr>
      in if \<not> open_probe_socket a (ps_ptp_msgflag s) node_name then (- 1, s, False)
         else let f = enable_timestamps a (ps_ts_flag s)
              in (f, s\<lparr>ps_node_uuid := node_name, ps_ts_flag := f, ps_running := True\<rparr>, True))"

text \<open>\<open>Stop\<close> and \<open>Reset\<close> end the running thread; the socket stays open.\<close>

definition server_Stop :: "peer_server \<Rightarrow> int \<times> peer_server" where
  "server_Stop s = (0, s\<lparr>ps_running := False, ps_error_flag := False, ps_error_count := 0\<rparr>)"

definition server_Reset :: "peer_server \<Rightarrow> int \<times> peer_server" where
  "server_Reset s = (ps_ts_flag s, s\<lparr>ps_running := True\<rparr>)"

definition server_GetErrorStatus :: "peer_server \<Rightarrow> bool" where
  "server_GetErrorStatus s = ps_error_flag s"

text \<open>The locals of \<open>ts_server_loop\<close> that live across passes: the two timestamps and
  \<open>msg.msg_controllen\<close>, which every receive replaces by the bytes it used.\<close>

record server_vars =
  sv_rx_timestamp :: timespec
  sv_tx_timestamp :: timespec
  sv_controllen :: nat

record server_io =
  si_recv :: "datagram option"
  si_send1 :: int
  si_tx :: tx_answer
  si_send2 :: int

definition reply_text :: "timespec \<Rightarrow> timespec \<Rightarrow> int \<Rightarrow> string" where
  "reply_text rx tx ok_flag =
     show_int (sint (tv_sec rx)) @ '' '' @ show_int (sint (tv_nsec rx)) @ '' '' @
     show_int (sint (tv_sec tx)) @ '' '' @ show_int (sint (tv_nsec tx)) @ '' '' @
     show_int ok_flag @ [CHR 0x0A]"

text \<open>What is sent back: the text received, or the whole cleared and filled PTP message.\<close>

definition echo_datagram :: "bool \<Rightarrow> string \<Rightarrow> string option" where
  "echo_datagram ptp bytes =
     (if ptp then Some (recv_into bytes (zeros PTP_DATA_LEN))
      else text_datagram (recv_into bytes (zeros BUFSIZE)))"

text \<open>One pass: the datagrams sent, with their destinations, and the new state.  The first
  sends are to the sender, or to the multicast address, the node's name.\<close>

definition server_pass ::
  "server_io \<Rightarrow> peer_server \<times> server_vars \<Rightarrow> ((string \<times> string) list \<times> peer_server \<times> server_vars) option" where
  "server_pass io sv = (case sv of (s, v) \<Rightarrow>
     (case si_recv io of
        None \<Rightarrow> Some ([], s, v)
      | Some d \<Rightarrow> do {
          let (cs, used) = put_cmsgs (sv_controllen v) (dg_cmsgs d);
          let (n, rx) = get_rx_timestamp cs (ps_ts_flag s);
          let ok_flag = (if n < 0 then 0 else 1);
          let dest = (if ps_ptp_msgflag s then ps_node_uuid s else dg_from d);
          ech \<leftarrow> echo_datagram (ps_ptp_msgflag s) (dg_bytes d);
          (n, tx) \<leftarrow> get_tx_timestamp (si_tx io) (ps_ts_flag s) (sv_tx_timestamp v);
          let ok_flag = (if n < 0 then 0 else ok_flag);
          let count = (if n < 0 then s32 (ps_error_count s + 1)
                       else if ps_error_count s > 0 then ps_error_count s - 1 else ps_error_count s);
          Some ((if si_send1 io < 0 then [] else [(dest, ech)]) @
                (if si_send2 io < 0 then [] else [(dest, reply_text rx tx ok_flag)]),
                s\<lparr>ps_error_count := count, ps_error_flag := (ps_error_flag s \<or> count > 5)\<rparr>,
                \<lparr>sv_rx_timestamp = rx, sv_tx_timestamp = tx, sv_controllen = used\<rparr>)
        }))"

text \<open>The passes of the loop in a row; the datagrams of each.\<close>

fun server_passes ::
  "server_io list \<Rightarrow> peer_server \<times> server_vars
     \<Rightarrow> ((string \<times> string) list list \<times> peer_server \<times> server_vars) option" where
  "server_passes [] sv = Some ([], sv)"
| "server_passes (io # ios) sv = do {
     (out, sv) \<leftarrow> server_pass io sv;
     (outs, sv) \<leftarrow> server_passes ios sv;
     Some (out # outs, sv)
   }"

text \<open>The start of the loop: binding, unless in PTP mode, must succeed.  \<open>junk\<close> is what the
  locals hold.\<close>

definition server_loop_start :: "int \<Rightarrow> peer_server \<Rightarrow> server_vars \<Rightarrow> server_vars option" where
  "server_loop_start bound s junk =
     (if \<not> ps_ptp_msgflag s \<and> bound < 0 then None else Some (junk\<lparr>sv_controllen := BUFSIZE\<rparr>))"

section \<open>Datagrams and replies\<close>

text \<open>A datagram carries a receive timestamp; a transmit timestamp was read (or, after a timeout,
  taken to have been).\<close>

definition rx_stamped :: "int \<Rightarrow> nat \<Rightarrow> datagram \<Rightarrow> bool" where
  "rx_stamped ts_flag room d \<longleftrightarrow> 0 \<le> fst (get_rx_timestamp (fst (put_cmsgs room (dg_cmsgs d))) ts_flag)"

definition tx_stamped :: "int \<Rightarrow> tx_answer \<Rightarrow> timespec \<Rightarrow> bool" where
  "tx_stamped ts_flag a old \<longleftrightarrow> (case get_tx_timestamp a ts_flag old of None \<Rightarrow> False | Some (n, _) \<Rightarrow> 0 \<le> n)"

lemma tx_stamped_iff: "get_tx_timestamp a f old = Some (n, tx) \<Longrightarrow> tx_stamped f a old = (0 \<le> n)"
  by (simp add: tx_stamped_def)

lemma recv_zeros:
  assumes "CHR 0x00 \<notin> set s" "length s < n"
  shows "c_str (recv_into s (zeros n)) = s"
proof -
  have "recv_into s (zeros n) = s @ CHR 0x00 # zeros (n - length s - 1)"
    using assms(2) by (simp add: recv_into_def zeros_def drop_replicate Suc_diff_Suc flip: replicate_Suc)
  then show ?thesis
    using c_str_stop [OF assms(1)] by simp
qed

lemma reply_no_nul: "CHR 0x00 \<notin> set (reply_text rx tx ok)"
  using show_int_no_nul by (simp add: reply_text_def)

lemma length_reply: "int32 ok \<Longrightarrow> length (reply_text rx tx ok) \<le> 105"
proof -
  assume "int32 ok"
  then have "length (show_int ok) \<le> 20"
    by (intro length_show_int) (simp_all add: int32_def)
  moreover have "length (show_int (sint (w :: s64))) \<le> 20" for w
    using sint_range64 [of w] by (intro length_show_int) simp_all
  note this [of "tv_sec rx"] this [of "tv_nsec rx"] this [of "tv_sec tx"] this [of "tv_nsec tx"]
  ultimately show ?thesis
    by (simp add: reply_text_def)
qed

lemma scan_reply_text:
  assumes "int32 ok"
  shows "scan_longs 5 (reply_text rx tx ok)
       = [sint (tv_sec rx), sint (tv_nsec rx), sint (tv_sec tx), sint (tv_nsec tx), ok]"
proof -
  have s: "scan_longs (Suc n) (show_int (sint w) @ CHR '' '' # r) = sint w # scan_longs n r" for w :: s64 and n r
    using sint_range64 [of w] by (subst scan_longs_text) (simp_all add: scan_longs_skip)
  have e: "scan_longs (Suc 0) (show_int ok @ [CHR 0x0A]) = [ok]"
    using assms by (subst scan_longs_text) (simp_all add: int32_def)
  show ?thesis
    using s e by (simp add: reply_text_def eval_nat_numeral del: scan_longs.simps(2))
qed

text \<open>The datagram of a probe is its number, a terminator and one more byte; the server sends
  the same bytes back.\<close>

lemma probe_datagram:
  assumes "length (show_int k) \<le> 20" "length buf = BUFSIZE"
  shows "\<exists>b. text_datagram (sprintf_into (show_int k) buf) = Some (show_int k @ [CHR 0x00, b])"
proof -
  let ?s = "show_int k"
  have c: "c_str (sprintf_into ?s buf) = ?s"
    by (simp add: sprintf_into_def c_str_stop show_int_no_nul)
  obtain b r where b: "drop (length ?s + 1) buf = b # r"
    using assms by (cases "drop (length ?s + 1) buf") (simp_all add: BUFSIZE_def)
  show ?thesis
    using assms by (simp add: text_datagram_def c) (simp add: sprintf_into_def b [simplified] BUFSIZE_def)
qed

lemma echo_text:
  assumes "length (show_int k) \<le> 20"
  shows "echo_datagram False (show_int k @ [CHR 0x00, b]) = Some (show_int k @ [CHR 0x00, b])"
    and "c_str (recv_into (show_int k @ [CHR 0x00, b]) (zeros BUFSIZE)) = show_int k"
proof -
  have "recv_into (show_int k @ [CHR 0x00, b]) (zeros BUFSIZE)
      = show_int k @ CHR 0x00 # b # zeros (BUFSIZE - length (show_int k) - 2)"
    using assms by (simp add: recv_into_def zeros_def BUFSIZE_def drop_replicate)
  moreover from this show c: "c_str (recv_into (show_int k @ [CHR 0x00, b]) (zeros BUFSIZE)) = show_int k"
    by (simp add: c_str_stop show_int_no_nul)
  ultimately show "echo_datagram False (show_int k @ [CHR 0x00, b]) = Some (show_int k @ [CHR 0x00, b])"
    using assms by (simp add: echo_datagram_def text_datagram_def zeros_def BUFSIZE_def)
qed

text \<open>What a pass of the server sends when a datagram arrives and both sends succeed.\<close>

lemma server_pass_received:
  assumes "server_pass sio (s, sv) = Some (out, s', sv')" "si_recv sio = Some d"
  obtains ech n tx ok where "echo_datagram (ps_ptp_msgflag s) (dg_bytes d) = Some ech"
    "get_tx_timestamp (si_tx sio) (ps_ts_flag s) (sv_tx_timestamp sv) = Some (n, tx)"
    "sv' = \<lparr>sv_rx_timestamp = snd (get_rx_timestamp (fst (put_cmsgs (sv_controllen sv) (dg_cmsgs d))) (ps_ts_flag s)),
            sv_tx_timestamp = tx, sv_controllen = snd (put_cmsgs (sv_controllen sv) (dg_cmsgs d))\<rparr>"
    "ok = (if n < 0 \<or> fst (get_rx_timestamp (fst (put_cmsgs (sv_controllen sv) (dg_cmsgs d))) (ps_ts_flag s)) < 0 then 0 else 1)"
    "out = (if si_send1 sio < 0 then [] else [(if ps_ptp_msgflag s then ps_node_uuid s else dg_from d, ech)]) @
       (if si_send2 sio < 0 then [] else [(if ps_ptp_msgflag s then ps_node_uuid s else dg_from d,
          reply_text (sv_rx_timestamp sv') (sv_tx_timestamp sv') ok)])"
    "s' = s\<lparr>ps_error_count := ps_error_count s', ps_error_flag := ps_error_flag s'\<rparr>"
    "n < 0 \<or> ps_error_count s' = (if ps_error_count s > 0 then ps_error_count s - 1 else ps_error_count s)"
    "ps_error_flag s' = (ps_error_flag s \<or> ps_error_count s' > 5)"
proof -
  let ?cs = "put_cmsgs (sv_controllen sv) (dg_cmsgs d)"
  let ?rx = "get_rx_timestamp (fst ?cs) (ps_ts_flag s)"
  let ?dest = "if ps_ptp_msgflag s then ps_node_uuid s else dg_from d"
  let ?count = "\<lambda>n. if n < 0 then s32 (ps_error_count s + 1)
                 else if ps_error_count s > 0 then ps_error_count s - 1 else ps_error_count s"
  have "server_pass sio (s, sv) = echo_datagram (ps_ptp_msgflag s) (dg_bytes d) \<bind> (\<lambda>ech.
      get_tx_timestamp (si_tx sio) (ps_ts_flag s) (sv_tx_timestamp sv) \<bind> (\<lambda>r.
      Some ((if si_send1 sio < 0 then [] else [(?dest, ech)]) @
            (if si_send2 sio < 0 then [] else [(?dest, reply_text (snd ?rx) (snd r)
               (if fst r < 0 then 0 else if fst ?rx < 0 then 0 else 1))]),
          s\<lparr>ps_error_count := ?count (fst r), ps_error_flag := (ps_error_flag s \<or> ?count (fst r) > 5)\<rparr>,
          \<lparr>sv_rx_timestamp = snd ?rx, sv_tx_timestamp = snd r, sv_controllen = snd ?cs\<rparr>)))"
    by (simp only: server_pass_def assms(2) Let_def case_prod_unfold prod.sel option.case)
  from this [unfolded assms(1), symmetric]
  obtain ech r where r: "echo_datagram (ps_ptp_msgflag s) (dg_bytes d) = Some ech"
      "get_tx_timestamp (si_tx sio) (ps_ts_flag s) (sv_tx_timestamp sv) = Some r"
      "(if si_send1 sio < 0 then [] else [(?dest, ech)]) @
            (if si_send2 sio < 0 then [] else [(?dest, reply_text (snd ?rx) (snd r)
               (if fst r < 0 then 0 else if fst ?rx < 0 then 0 else 1))]) = out"
      "s\<lparr>ps_error_count := ?count (fst r), ps_error_flag := (ps_error_flag s \<or> ?count (fst r) > 5)\<rparr> = s'"
      "\<lparr>sv_rx_timestamp = snd ?rx, sv_tx_timestamp = snd r, sv_controllen = snd ?cs\<rparr> = sv'"
    unfolding bind_eq_Some_conv option.inject prod.inject by (elim exE conjE) (rule that)
  show thesis
    by (rule that [of ech "fst r" "snd r" "if fst r < 0 \<or> fst ?rx < 0 then 0 else 1"])
      (use r(1,2) in \<open>simp_all add: r(3-5) [symmetric]\<close>)
qed

lemma server_pass_reply:
  assumes "server_pass sio (s, sv) = Some ([(a1, ech), (a2, txt)], s', sv')" "si_recv sio = Some d"
  shows "echo_datagram (ps_ptp_msgflag s) (dg_bytes d) = Some ech \<and>
     txt = reply_text (sv_rx_timestamp sv') (sv_tx_timestamp sv')
       (if rx_stamped (ps_ts_flag s) (sv_controllen sv) d \<and> tx_stamped (ps_ts_flag s) (si_tx sio) (sv_tx_timestamp sv)
        then 1 else 0)"
  by (rule server_pass_received [OF assms]) (auto simp: rx_stamped_def tx_stamped_iff not_less [symmetric] split: if_splits)

section \<open>What goes wrong\<close>

text \<open>A transmit timestamp that is not there within the poll's millisecond counts as success: the
  server sends the one of an earlier packet, and declares it valid.\<close>

lemma timeout_reports_stale_timestamp:
  assumes "server_pass io (s, v) = Some (out, s', v')" "si_recv io = Some d" "0 \<le> si_send1 io" "0 \<le> si_send2 io"
    and "dg_cmsgs d = [stamp ts]" "length ts = 3" "64 \<le> sv_controllen v" "ta_poll (si_tx io) = 0"
  shows "\<exists>dest ech. out = [(dest, ech), (dest, reply_text (pick_ts (ps_ts_flag s) ts) (sv_tx_timestamp v) 1)] \<and>
     (ps_error_flag s' \<longrightarrow> ps_error_flag s \<or> ps_error_count s > 5)"
proof (rule server_pass_received [OF assms(1,2)])
  fix ech tx and n ok :: int
  assume a: "get_tx_timestamp (si_tx io) (ps_ts_flag s) (sv_tx_timestamp v) = Some (n, tx)"
    "v' = \<lparr>sv_rx_timestamp = snd (get_rx_timestamp (fst (put_cmsgs (sv_controllen v) (dg_cmsgs d))) (ps_ts_flag s)),
            sv_tx_timestamp = tx, sv_controllen = snd (put_cmsgs (sv_controllen v) (dg_cmsgs d))\<rparr>"
    "ok = (if n < 0 \<or> fst (get_rx_timestamp (fst (put_cmsgs (sv_controllen v) (dg_cmsgs d))) (ps_ts_flag s)) < 0 then 0 else 1)"
    "out = (if si_send1 io < 0 then [] else [(if ps_ptp_msgflag s then ps_node_uuid s else dg_from d, ech)]) @
       (if si_send2 io < 0 then [] else [(if ps_ptp_msgflag s then ps_node_uuid s else dg_from d,
          reply_text (sv_rx_timestamp v') (sv_tx_timestamp v') ok)])"
    "n < 0 \<or> ps_error_count s' = (if ps_error_count s > 0 then ps_error_count s - 1 else ps_error_count s)"
    "ps_error_flag s' = (ps_error_flag s \<or> ps_error_count s' > 5)"
  have t: "n = 0" "tx = sv_tx_timestamp v"
    using a(1) by (simp_all add: get_tx_timeout assms(8))
  have cs: "put_cmsgs (sv_controllen v) (dg_cmsgs d) = ([stamp ts], 64)"
    unfolding assms(5) by (rule put_stamp [OF assms(7,6)])
  have ok: "ok = 1"
    using a(3) t by (simp add: cs get_rx_stamp [OF assms(6)])
  have v': "sv_rx_timestamp v' = pick_ts (ps_ts_flag s) ts" "sv_tx_timestamp v' = sv_tx_timestamp v"
    using t by (simp_all add: a(2) cs get_rx_stamp [OF assms(6)])
  have "out = [(if ps_ptp_msgflag s then ps_node_uuid s else dg_from d, ech), (if ps_ptp_msgflag s then ps_node_uuid s else dg_from d,
      reply_text (pick_ts (ps_ts_flag s) ts) (sv_tx_timestamp v) 1)]"
    using a(4) assms(3,4) unfolding ok v' by simp
  moreover have "ps_error_flag s' \<longrightarrow> ps_error_flag s \<or> ps_error_count s > 5"
    using a(5,6) t(1) by (auto split: if_splits)
  ultimately show ?thesis
    by blast
qed

text \<open>A receive writes the bytes of control data it found to \<open>msg_controllen\<close>, which nothing sets
  back.  After one datagram without control data there is no room for timestamps.\<close>

lemma no_room_stays:
  assumes "server_passes ios (s, v) = Some (outs, s', v')" "sv_controllen v < 16"
  shows "\<forall>k < length ios. \<forall>d. si_recv (ios ! k) = Some d \<and> 0 \<le> si_send1 (ios ! k) \<and> 0 \<le> si_send2 (ios ! k) \<longrightarrow>
     (\<exists>dest ech tx. outs ! k = [(dest, ech), (dest, reply_text zero_ts tx 0)])"
  using assms
proof (induction ios arbitrary: s v outs)
  case (Cons io ios)
  obtain out s1 v1 outs1 where p: "server_pass io (s, v) = Some (out, s1, v1)"
      "server_passes ios (s1, v1) = Some (outs1, s', v')" "outs = out # outs1"
    using Cons.prems(1) by (auto simp: bind_eq_Some_conv)
  have step: "sv_controllen v1 < 16 \<and>
      (\<forall>d. si_recv io = Some d \<and> 0 \<le> si_send1 io \<and> 0 \<le> si_send2 io \<longrightarrow>
        (\<exists>dest ech tx. out = [(dest, ech), (dest, reply_text zero_ts tx 0)]))"
  proof (cases "si_recv io")
    case None
    then show ?thesis
      using p(1) Cons.prems(2) by (simp add: server_pass_def)
  next
    case (Some d)
    show ?thesis
    proof (rule server_pass_received [OF p(1) Some])
      fix ech tx and n ok :: int
      assume a: "v1 = \<lparr>sv_rx_timestamp = snd (get_rx_timestamp (fst (put_cmsgs (sv_controllen v) (dg_cmsgs d))) (ps_ts_flag s)),
            sv_tx_timestamp = tx, sv_controllen = snd (put_cmsgs (sv_controllen v) (dg_cmsgs d))\<rparr>"
        "ok = (if n < 0 \<or> fst (get_rx_timestamp (fst (put_cmsgs (sv_controllen v) (dg_cmsgs d))) (ps_ts_flag s)) < 0 then 0 else 1)"
        "out = (if si_send1 io < 0 then [] else [(if ps_ptp_msgflag s then ps_node_uuid s else dg_from d, ech)]) @
           (if si_send2 io < 0 then [] else [(if ps_ptp_msgflag s then ps_node_uuid s else dg_from d,
              reply_text (sv_rx_timestamp v1) (sv_tx_timestamp v1) ok)])"
      show ?thesis
        using a(2,3) by (auto simp: a(1) put_cmsgs_no_room [OF Cons.prems(2)] get_rx_empty Some)
    qed
  qed
  then have rest: "\<forall>k < length ios. \<forall>d. si_recv (ios ! k) = Some d \<and> 0 \<le> si_send1 (ios ! k) \<and> 0 \<le> si_send2 (ios ! k) \<longrightarrow>
     (\<exists>dest ech tx. outs1 ! k = [(dest, ech), (dest, reply_text zero_ts tx 0)])"
    by (intro Cons.IH [OF p(2)]) simp
  have "\<exists>dest ech tx. outs ! k = [(dest, ech), (dest, reply_text zero_ts tx 0)]"
    if "k < length (io # ios)" "si_recv ((io # ios) ! k) = Some d" "0 \<le> si_send1 ((io # ios) ! k)" "0 \<le> si_send2 ((io # ios) ! k)" for k d
    using that step rest by (cases k) (auto simp: p(3))
  then show ?case
    by blast
qed simp

text \<open>Missing receive timestamps do not count as errors: only failed transmit timestamps do.\<close>

lemma errors_count_tx:
  assumes "server_passes ios (s, v) = Some (outs, s', v')"
    and "\<And>io old. io \<in> set ios \<Longrightarrow> tx_stamped (ps_ts_flag s) (si_tx io) old"
    and "ps_error_count s \<le> 5" "\<not> ps_error_flag s"
  shows "\<not> ps_error_flag s'"
  using assms
proof (induction ios arbitrary: s v outs)
  case (Cons io ios)
  obtain out s1 v1 outs1 where p: "server_pass io (s, v) = Some (out, s1, v1)"
      "server_passes ios (s1, v1) = Some (outs1, s', v')"
    using Cons.prems(1) by (auto simp: bind_eq_Some_conv)
  have "ps_ts_flag s1 = ps_ts_flag s \<and> ps_error_count s1 \<le> 5 \<and> \<not> ps_error_flag s1"
  proof (cases "si_recv io")
    case None
    then show ?thesis
      using p(1) Cons.prems(3,4) by (simp add: server_pass_def)
  next
    case (Some d)
    show ?thesis
    proof (rule server_pass_received [OF p(1) Some])
      fix tx and n :: int
      assume a: "get_tx_timestamp (si_tx io) (ps_ts_flag s) (sv_tx_timestamp v) = Some (n, tx)"
        "s1 = s\<lparr>ps_error_count := ps_error_count s1, ps_error_flag := ps_error_flag s1\<rparr>"
        "n < 0 \<or> ps_error_count s1 = (if ps_error_count s > 0 then ps_error_count s - 1 else ps_error_count s)"
        "ps_error_flag s1 = (ps_error_flag s \<or> ps_error_count s1 > 5)"
      have "0 \<le> n"
        using Cons.prems(2) [of io "sv_tx_timestamp v"] by (simp add: tx_stamped_iff [OF a(1)])
      moreover have "ps_ts_flag s1 = ps_ts_flag s"
        by (subst a(2)) simp
      ultimately show ?thesis
        using a(3,4) Cons.prems(3,4) by (auto split: if_splits)
    qed
  qed
  then show ?case
    using Cons.prems(2) by (intro Cons.IH [OF p(2)]) auto
qed simp

text \<open>C38: After one datagram that comes without control messages the probe server reports every
  later probe it answers as failed, with receive time zero, because the room for control
  messages is never set again. When moreover every transmit timestamp is read, and the
  error count is at most 5 and the flag clear before, the error flag stays clear, so that
  nothing restarts the server.\<close>

lemma unstamped_probe_ends_timestamps:
  assumes first: "server_pass io (s, v) = Some (out, s1, v1)" "si_recv io = Some d" "dg_cmsgs d = []"
    and rest: "server_passes ios (s1, v1) = Some (outs, s', v')"
  shows "(\<forall>k < length ios. \<forall>d. si_recv (ios ! k) = Some d \<and> 0 \<le> si_send1 (ios ! k) \<and> 0 \<le> si_send2 (ios ! k) \<longrightarrow>
       (\<exists>dest ech tx. outs ! k = [(dest, ech), (dest, reply_text zero_ts tx 0)])) \<and>
     ((\<forall>io' \<in> set (io # ios). \<forall>old. tx_stamped (ps_ts_flag s) (si_tx io') old) \<and>
        ps_error_count s \<le> 5 \<and> \<not> server_GetErrorStatus s \<longrightarrow> \<not> server_GetErrorStatus s')"
proof -
  have "sv_controllen v1 < 16"
    by (rule server_pass_received [OF first(1,2)]) (simp add: first(3))
  moreover have "\<not> server_GetErrorStatus s'" if "\<forall>io' \<in> set (io # ios). \<forall>old. tx_stamped (ps_ts_flag s) (si_tx io') old"
    "ps_error_count s \<le> 5" "\<not> server_GetErrorStatus s"
  proof -
    have all: "server_passes (io # ios) (s, v) = Some (out # outs, s', v')"
      by (simp add: first(1) rest)
    show ?thesis
      using that unfolding server_GetErrorStatus_def by (intro errors_count_tx [OF all]) blast+
  qed
  ultimately show ?thesis
    using no_room_stays [OF rest] by blast
qed

section \<open>Examples\<close>

definition ex_answers :: start_answers where
  "ex_answers = \<lparr>sa_inet_aton = (\<lambda>_. True),
     sa_ptp_socket = \<lparr>pa_socket = 3, pa_index = 1, pa_reuseaddr = 0, pa_bind = 0, pa_bindtodevice = 0,
       pa_ttl = 0, pa_membership = 0, pa_loop = 0, pa_multicast_if = 0\<rparr>,
     sa_socket = 3, sa_resolves = (\<lambda>_. True), sa_setsockopt = (\<lambda>_ _. 0), sa_ioctl = (\<lambda>c. (0, c)), sa_nats = 0\<rparr>"

definition ex_timeout :: tx_answer where
  "ex_timeout = \<lparr>ta_poll = 0, ta_pollerr = False, ta_cmsgs = []\<rparr>"

definition ex_server :: peer_server where "ex_server = PeerTSserver 4000 ''eth0'' 0 0"

definition ex_server_vars :: server_vars where
  "ex_server_vars = \<lparr>sv_rx_timestamp = zero_ts, sv_tx_timestamp = zero_ts, sv_controllen = BUFSIZE\<rparr>"

definition ex_stamped :: "string \<Rightarrow> datagram" where
  "ex_stamped bytes = \<lparr>dg_from = ''peer'', dg_bytes = bytes,
     dg_cmsgs = [stamp [\<lparr>tv_sec = 7, tv_nsec = 5\<rparr>, zero_ts, zero_ts]]\<rparr>"

definition ex_received :: "datagram \<Rightarrow> server_io" where
  "ex_received d = \<lparr>si_recv = Some d, si_send1 = 0, si_tx = ex_timeout, si_send2 = 0\<rparr>"

lemma ex_timeout_ok: "get_tx_timestamp ex_timeout f old = Some (0, old)"
  by (simp add: get_tx_timeout ex_timeout_def)

lemma ex_stamped_cmsgs:
  "put_cmsgs BUFSIZE (dg_cmsgs (ex_stamped bytes)) = ([stamp [\<lparr>tv_sec = 7, tv_nsec = 5\<rparr>, zero_ts, zero_ts]], 64)"
  unfolding ex_stamped_def cmsg.simps datagram.simps by (rule put_stamp) (simp_all add: BUFSIZE_def)

lemma unstamped_probe_ends_timestamps_witness:
  "\<exists>out s1 v1 outs s' v' dest ech tx.
     server_pass (ex_received ((ex_stamped ''1'')\<lparr>dg_cmsgs := []\<rparr>)) (ex_server, ex_server_vars) = Some (out, s1, v1) \<and>
     server_passes [ex_received (ex_stamped ''2'')] (s1, v1) = Some (outs, s', v') \<and>
     outs ! 0 = [(dest, ech), (dest, reply_text zero_ts tx 0)] \<and> \<not> server_GetErrorStatus s'"
proof -
  let ?d1 = "(ex_stamped ''1'')\<lparr>dg_cmsgs := []\<rparr>" and ?d2 = "ex_stamped ''2''"
  have bytes: "dg_bytes (ex_stamped bs) = bs" for bs
    by (simp add: ex_stamped_def)
  have flags: "\<not> ps_ptp_msgflag ex_server" "ps_ts_flag ex_server = 0" "ps_error_count ex_server = 0" "\<not> ps_error_flag ex_server"
    by (simp_all add: ex_server_def PeerTSserver_def PeerTSserver2_def PTP_PORT_def)
  have echo: "\<exists>ech. echo_datagram False [c] = Some ech" if "c \<noteq> CHR 0x00" for c
  proof -
    have "c_str (recv_into [c] (zeros BUFSIZE)) = [c]"
      using that by (intro recv_zeros) (simp_all add: BUFSIZE_def)
    then show ?thesis
      by (simp add: echo_datagram_def text_datagram_def) (simp add: recv_into_def zeros_def BUFSIZE_def)
  qed
  obtain e1 e2 where e: "echo_datagram False ''1'' = Some e1" "echo_datagram False ''2'' = Some e2"
    using echo [of "CHR ''1''"] echo [of "CHR ''2''"] by auto
  obtain out s1 v1 where first: "server_pass (ex_received ?d1) (ex_server, ex_server_vars) = Some (out, s1, v1)"
      "\<not> ps_ptp_msgflag s1"
    by (simp add: server_pass_def ex_received_def flags e(1) bytes ex_timeout_ok Let_def case_prod_unfold)
  have "\<exists>r. server_passes [ex_received ?d2] (s1, v1) = Some r"
    by (simp add: server_pass_def ex_received_def first(2) e(2) bytes ex_timeout_ok Let_def case_prod_unfold)
  then obtain outs s' v' where rest: "server_passes [ex_received ?d2] (s1, v1) = Some (outs, s', v')"
    by (metis prod_cases3)
  have "tx_stamped (ps_ts_flag ex_server) (si_tx io) old" if "io \<in> set [ex_received ?d1, ex_received ?d2]" for io old
    using that by (auto simp: ex_received_def tx_stamped_def ex_timeout_ok)
  then have tx: "\<forall>io \<in> set (ex_received ?d1 # [ex_received ?d2]). \<forall>old. tx_stamped (ps_ts_flag ex_server) (si_tx io) old"
    by simp
  have "(\<exists>dest ech tx. outs ! 0 = [(dest, ech), (dest, reply_text zero_ts tx 0)]) \<and> \<not> server_GetErrorStatus s'"
    using unstamped_probe_ends_timestamps [OF first(1) _ _ rest, of ?d1] flags tx
    by (simp add: server_GetErrorStatus_def) (simp add: ex_received_def)
  then show ?thesis
    using first(1) rest by blast
qed

end
