(* ===== verification/Svm_Line.thy ===== *)
theory Svm_Line
  imports Sync_Uncertainty
begin

text \<open>
  The line between the bounds on an offset, \<open>sync-service/sync/huygens/SVMprocessor.cpp\<close>:
  the samples are scaled into a classification problem, a linear support vector machine
  is trained on it, and its separating line gives the offset and the drift.  The library
  \<open>libsvm\<close> is not part of the sources; what it answers is the parameter \<open>svm_lib\<close>.

  A deviation can be zero, and the code divides by it and goes on.  The values after that
  are of type \<open>fp\<close>: a finite \<open>double\<close>, or \<open>None\<close> for what is no finite number.  Every
  operation passes \<open>None\<close> on, as it does with a NaN.  A scaled sample is never infinite (a
  deviation is zero only when every sample is the mean, and zero by zero is a NaN), so an infinity
  can only come from the last divisions, for the offset and the drift; it is then published as a NaN
  is, as \<open>null\<close>.
\<close>

section \<open>Doubles that may be no number\<close>

type_synonym fp = "double option"

definition fp_lift :: "(double \<Rightarrow> double \<Rightarrow> double) \<Rightarrow> fp \<Rightarrow> fp \<Rightarrow> fp" where
  "fp_lift f a b = (case a of None \<Rightarrow> None | Some x \<Rightarrow> (case b of None \<Rightarrow> None | Some y \<Rightarrow> Some (f x y)))"

definition fp_add :: "fp \<Rightarrow> fp \<Rightarrow> fp" where "fp_add = fp_lift d_add"
definition fp_mul :: "fp \<Rightarrow> fp \<Rightarrow> fp" where "fp_mul = fp_lift d_mul"
definition fp_div :: "fp \<Rightarrow> fp \<Rightarrow> fp" where
  "fp_div a b = (if b = Some 0 then None else fp_lift d_div a b)"
definition fp_neg :: "fp \<Rightarrow> fp" where "fp_neg = map_option uminus"

section \<open>Data\<close>

record svm_node =
  sn_index :: int
  sn_value :: fp

record svm_problem =
  sp_l :: int
  sp_y :: "double list"
  sp_x :: "svm_node list list"

text \<open>The trained model: the number of support vectors, the first row of their coefficients,
  the vectors, and the first constant.\<close>

record svm_model =
  sm_l :: nat
  sm_sv_coef :: "fp list"
  sm_SV :: "svm_node list list"
  sm_rho :: fp

record svm_parameter =
  spr_svm_type :: int
  spr_kernel_type :: int
  spr_degree :: int
  spr_gamma :: double
  spr_coef0 :: double
  spr_nu :: double
  spr_cache_size :: double
  spr_C :: double
  spr_eps :: double
  spr_p :: double
  spr_shrinking :: int
  spr_probability :: int
  spr_nr_weight :: int

definition C_SVC :: int where "C_SVC = 0"
definition LINEAR :: int where "LINEAR = 0"
definition PRECOMPUTED :: int where "PRECOMPUTED = 4"

text \<open>\<open>svm_check_parameter\<close>, an error message or none, and \<open>svm_train\<close>.\<close>

record svm_lib =
  lib_check :: "svm_problem \<Rightarrow> svm_parameter \<Rightarrow> string option"
  lib_train :: "svm_problem \<Rightarrow> svm_parameter \<Rightarrow> svm_model"

text \<open>The global variables of the file.\<close>

record svm_globals =
  g_param :: svm_parameter
  g_prob :: svm_problem
  g_bounds_mean :: s64
  g_instant_mean :: s64
  g_bounds_sd :: double
  g_instant_sd :: double

section \<open>Scaling\<close>

text \<open>\<open>calculateSD\<close>: the sum wraps, the mean truncates, and the vector must have
  \<open>vec_size\<close> elements.\<close>

definition sd_sum :: "s64 \<Rightarrow> s64 list \<Rightarrow> double" where
  "sd_sum mean xs =
     fold (\<lambda>x sd. d_add sd (d_mul (d_of_s64 (x - mean)) (d_of_s64 (x - mean)))) xs 0"

definition calculateSD :: "s64 list \<Rightarrow> nat \<Rightarrow> (s64 \<times> double) option" where
  "calculateSD data vec_size =
     (if vec_size = 0 \<or> length data < vec_size then None
      else let xs = take vec_size data;
               mean = word_of_int (sint (sum_list xs) sdiv int vec_size)
           in Some (mean, d_sqrt (d_div (sd_sum mean xs) (of_nat vec_size))))"

definition scaled :: "s64 \<Rightarrow> s64 \<Rightarrow> double \<Rightarrow> fp" where
  "scaled x mean sd = fp_div (Some (d_of_s64 (x - mean))) (Some (d_mul 2 sd))"

definition svm_row :: "fp \<Rightarrow> fp \<Rightarrow> svm_node list" where
  "svm_row t o' = [\<lparr>sn_index = 1, sn_value = t\<rparr>, \<lparr>sn_index = 2, sn_value = o'\<rparr>,
     \<lparr>sn_index = - 1, sn_value = Some 0\<rparr>]"

text \<open>\<open>formulate_problem\<close>: for each sample a row for the upper bound, labelled 1, and one for
  the lower bound, labelled -1.  The value of the terminating node is not assigned and
  not read.  A precomputed kernel ends the program, as the first column is not numbered 0;
  with a deviation of zero the rows hold no numbers.\<close>

definition problem_rows ::
  "s64 list \<Rightarrow> s64 list \<Rightarrow> nat \<Rightarrow> svm_globals \<Rightarrow> svm_node list list" where
  "problem_rows bounds instant vec_len g =
     concat (map (\<lambda>k.
       let t = scaled (instant ! k) (g_instant_mean g) (g_instant_sd g)
       in [svm_row t (scaled (bounds ! (2 * k)) (g_bounds_mean g) (g_bounds_sd g)),
           svm_row t (scaled (bounds ! (2 * k + 1)) (g_bounds_mean g) (g_bounds_sd g))])
       [0..<vec_len])"

definition formulate_problem ::
  "s64 list \<Rightarrow> s64 list \<Rightarrow> nat \<Rightarrow> svm_globals \<Rightarrow> svm_globals option" where
  "formulate_problem bounds instant vec_len g = do {
     (bm, bsd) \<leftarrow> calculateSD bounds (2 * vec_len);
     (im, isd) \<leftarrow> calculateSD instant vec_len;
     let g = g\<lparr>g_bounds_mean := bm, g_bounds_sd := bsd, g_instant_mean := im, g_instant_sd := isd\<rparr>;
     if spr_kernel_type (g_param g) = PRECOMPUTED then None
     else Some (g\<lparr>g_prob := \<lparr>sp_l = 2 * int vec_len,
                             sp_y = concat (replicate vec_len [1, - 1]),
                             sp_x = problem_rows bounds instant vec_len g\<rparr>,
                  g_param := (g_param g)\<lparr>spr_gamma := 1 / 2\<rparr>\<rparr>)
   }"

section \<open>Training\<close>

definition training_parameter :: svm_parameter where
  "training_parameter =
     \<lparr>spr_svm_type = C_SVC, spr_kernel_type = LINEAR, spr_degree = 3, spr_gamma = 0, spr_coef0 = 0,
      spr_nu = 1 / 2, spr_cache_size = 100, spr_C = rnd64 (1 / 10), spr_eps = rnd64 (1 / 1000),
      spr_p = rnd64 (1 / 10), spr_shrinking = 1, spr_probability = 0, spr_nr_weight = 0\<rparr>"

text \<open>\<open>compute_primal\<close>: each coordinate of the normal vector is summed over the support
  vectors; the constant changes its sign.\<close>

definition primal_coord :: "svm_model \<Rightarrow> nat \<Rightarrow> fp" where
  "primal_coord m j =
     fold (\<lambda>i w. fp_add w (fp_mul (sn_value (sm_SV m ! i ! j)) (sm_sv_coef m ! i))) [0..<sm_l m] (Some 0)"

definition compute_primal :: "svm_model \<Rightarrow> fp list \<times> fp" where
  "compute_primal m = ([primal_coord m 0, primal_coord m 1], fp_neg (sm_rho m))"

definition svm_drift :: "fp list \<Rightarrow> svm_globals \<Rightarrow> fp" where
  "svm_drift w g =
     fp_div (fp_neg (fp_mul (w ! 0) (Some (g_bounds_sd g)))) (fp_mul (w ! 1) (Some (g_instant_sd g)))"

definition svm_offset :: "fp list \<Rightarrow> fp \<Rightarrow> svm_globals \<Rightarrow> fp" where
  "svm_offset w b g =
     fp_add (Some (d_of_s64 (g_bounds_mean g)))
       (fp_div (fp_mul (Some (g_bounds_sd g))
                 (fp_add (fp_mul (Some (d_of_s64 (g_instant_mean g))) (w ! 0))
                         (fp_mul (Some (d_mul 2 (g_instant_sd g))) b)))
               (fp_mul (Some (g_instant_sd g)) (w ! 1)))"

text \<open>\<open>run_svm\<close>: when the parameters are rejected it returns -1 and leaves \<open>offset\<close> and
  \<open>drift\<close> as they are.\<close>

definition run_svm ::
  "svm_lib \<Rightarrow> fp \<Rightarrow> fp \<Rightarrow> svm_globals \<Rightarrow> int \<times> fp \<times> fp \<times> svm_globals" where
  "run_svm lib offset drift g =
     (let g = g\<lparr>g_param := training_parameter\<rparr>
      in case lib_check lib (g_prob g) (g_param g) of
           Some _ \<Rightarrow> (- 1, offset, drift, g)
         | None \<Rightarrow>
             let (w, b) = compute_primal (lib_train lib (g_prob g) (g_param g))
             in (0, svm_offset w b g, svm_drift w g, g))"

section \<open>Lemmas\<close>

lemma fp_simps [simp]:
  "fp_add (Some x) (Some y) = Some (d_add x y)" "fp_mul (Some x) (Some y) = Some (d_mul x y)"
  "fp_div (Some x) (Some y) = (if y = 0 then None else Some (d_div x y))" "fp_neg (Some x) = Some (- x)"
  "fp_add None b = None" "fp_add a None = None" "fp_mul None b = None" "fp_mul a None = None"
  "fp_div None b = None" "fp_div a None = None" "fp_div a (Some 0) = None"
  by (simp_all add: fp_add_def fp_mul_def fp_div_def fp_neg_def fp_lift_def split: option.splits)

text \<open>The problem can be formulated from every batch, and training leaves a kernel that is not
  precomputed.\<close>

lemma formulate_problem_some:
  assumes "0 < n" "2 * n \<le> length bounds" "n \<le> length instant"
    and "spr_kernel_type (g_param g) \<noteq> PRECOMPUTED"
  obtains g' where "formulate_problem bounds instant n g = Some g'"
    "calculateSD instant n = Some (g_instant_mean g', g_instant_sd g')"
proof -
  obtain bm bsd im isd where "calculateSD bounds (2 * n) = Some (bm, bsd)" "calculateSD instant n = Some (im, isd)"
    using assms(1-3) by (simp add: calculateSD_def Let_def)
  then have "\<exists>g'. formulate_problem bounds instant n g = Some g' \<and>
      calculateSD instant n = Some (g_instant_mean g', g_instant_sd g')"
    using assms(4) by (simp add: formulate_problem_def Let_def)
  then show thesis
    using that by blast
qed

lemma run_svm_linear:
  "spr_kernel_type (g_param (snd (snd (snd (run_svm lib offset drift g))))) \<noteq> PRECOMPUTED"
  by (simp add: run_svm_def Let_def training_parameter_def LINEAR_def PRECOMPUTED_def case_prod_unfold split: option.split)

lemma length_problem_rows: "length (problem_rows bounds instant n g) = 2 * n"
  by (induction n) (simp_all add: problem_rows_def Let_def)

text \<open>One sample has no deviation: the line that is trained on it gives no numbers.\<close>

lemma calculateSD_single: "length data \<ge> 1 \<Longrightarrow> calculateSD data 1 = Some (hd data, 0)"
  by (cases data) (simp_all add: calculateSD_def Let_def sd_sum_def d_add_def d_mul_def d_of_s64_def
      d_div_def d_sqrt_def)

lemma fp_mul_0: "fp_mul (Some 0) b \<in> {None, Some 0}" "fp_mul b (Some 0) \<in> {None, Some 0}"
  by (cases b; simp add: d_mul_def)+

lemma no_deviation_no_numbers:
  assumes "g_instant_sd g = 0" "lib_check lib (g_prob g) training_parameter = None"
  shows "\<exists>k g'. run_svm lib offset drift g = (k, None, None, g')"
proof -
  have "fp_div a (fp_mul b (Some 0)) = None" "fp_div a (fp_mul (Some 0) b) = None" for a b
    using fp_mul_0 [of b] by auto
  then show ?thesis
    using assms by (simp add: run_svm_def svm_offset_def svm_drift_def Let_def case_prod_unfold)
qed

text \<open>The constant of the line.  \<open>libsvm\<close> decides by the sign of \<open>w x - rho\<close>, so with the
  scaling the line \<open>w x = rho\<close> meets time zero, in the plain case of deviation one and
  means zero, at twice \<open>rho / w!1\<close>; the code returns the negative.\<close>

definition num :: "fp \<Rightarrow> double" where "num x = (case x of None \<Rightarrow> 0 | Some d \<Rightarrow> d)"

definition svm_decision :: "svm_model \<Rightarrow> svm_node list \<Rightarrow> double" where
  "svm_decision m x =
     (\<Sum>i = 0..<sm_l m. num (sm_sv_coef m ! i) *
          (\<Sum>j = 0..<2. num (sn_value (sm_SV m ! i ! j)) * num (sn_value (x ! j))))
       - num (sm_rho m)"

lemma svm_offset_negates_constant:
  assumes m: "sm_l m = 1" "sm_sv_coef m = [Some 1]" "sm_SV m = [svm_row (Some 0) (Some 1)]" "sm_rho m = Some (of_int r)"
    and r: "\<bar>r\<bar> \<le> 2 ^ 51"
    and g: "g_bounds_mean g = 0" "g_instant_mean g = 0" "g_bounds_sd g = 1" "g_instant_sd g = 1"
    and lib: "lib_check lib (g_prob g) training_parameter = None"
      "lib_train lib (g_prob g) training_parameter = m"
  shows "\<exists>drift' g'. run_svm lib offset drift g = (0, Some (- of_int (2 * r)), drift', g')"
    and "svm_decision m (svm_row (Some 0) (Some (of_int (2 * r) / 2))) = 0"
proof -
  have one: "rnd64 1 = 1"
    by (simp add: rnd_ints)
  have rnd: "rnd64 (of_int i) = of_int i" if "\<bar>i\<bar> \<le> 2 ^ 53" for i
    using that by (rule rnd64_of_int)
  have w: "compute_primal m = ([Some 0, Some 1], Some (- of_int r))"
    using m one by (simp add: compute_primal_def primal_coord_def svm_row_def d_add_def d_mul_def)
  have "svm_offset [Some 0, Some 1] (Some (- of_int r)) g = Some (- of_int (2 * r))"
    using g rnd [of "- 2 * r"] r one
    by (simp add: svm_offset_def d_add_def d_mul_def d_div_def d_of_s64_def rnd_ints)
  then have "svm_offset [Some 0, Some 1] (Some (- of_int r)) (g\<lparr>g_param := training_parameter\<rparr>) = Some (- of_int (2 * r))"
    by (simp add: svm_offset_def)
  then show "\<exists>drift' g'. run_svm lib offset drift g = (0, Some (- of_int (2 * r)), drift', g')"
    using lib g w by (simp add: run_svm_def Let_def)
  show "svm_decision m (svm_row (Some 0) (Some (of_int (2 * r) / 2))) = 0"
    using m by (simp add: svm_decision_def num_def svm_row_def numeral_2_eq_2)
qed

end
