(* ===== verification/Peer_Probes.thy ===== *)
theory Peer_Probes
  imports Peer_Server Svm_Line
begin

text \<open>
  The client of the peer-delay measurement, \<open>sync-service/sync/huygens/PeerTSclient.cpp\<close>: it
  sends pairs of probes, collects the four timestamps of each and hands batches to a second
  thread, which keeps the pairs that were not delayed differently and fits a line between
  the bounds on the offset.
\<close>

section \<open>The client\<close>

text \<open>The four timestamps of a pair of probes: received here, received there, sent from here,
  sent from there.\<close>

record probe_timestamps =
  pt_rx :: "s64 list"
  pt_rx_remote :: "s64 list"
  pt_tx :: "s64 list"
  pt_tx_remote :: "s64 list"
  pt_validity_flag :: int

record ts_client =
  tc_portno :: int
  tc_iface :: string
  tc_node_uuid :: string
  tc_hostname :: string
  tc_ts_flag :: int
  tc_running :: bool
  tc_tx_period_ns :: u64
  tc_ts_buffer :: "probe_timestamps list option"
  tc_proc_ts_buffer :: "probe_timestamps list option"
  tc_ts_duration_ns :: u64
  tc_ts_buf_len :: u64
  tc_error_flag :: bool
  tc_ptp_msgflag :: bool
  tc_nats_status :: int
  tc_nats_server :: string

definition PeerTSclient :: "string \<Rightarrow> int \<Rightarrow> string \<Rightarrow> string \<Rightarrow> int \<Rightarrow> ts_client" where
  "PeerTSclient hostname portno iface pub_server ts_flag =
     \<lparr>tc_portno = portno, tc_iface = iface, tc_node_uuid = [], tc_hostname = hostname,
      tc_ts_flag = ts_flag, tc_running = True, tc_tx_period_ns = 1000000000, tc_ts_buffer = None,
      tc_proc_ts_buffer = None, tc_ts_duration_ns = 2000000000, tc_ts_buf_len = 0,
      tc_error_flag = False, tc_ptp_msgflag = (portno = PTP_PORT), tc_nats_status = NATS_ERR,
      tc_nats_server = pub_server\<rparr>"

definition client_natsConnect :: "int \<Rightarrow> ts_client \<Rightarrow> int \<times> ts_client" where
  "client_natsConnect status c = (status, c\<lparr>tc_nats_status := status\<rparr>)"

text \<open>\<open>Start\<close>: the result, the client, and whether its threads were spawned.  A period of zero
  divides by zero; \<open>junk\<close> fills the new buffers.\<close>

definition client_Start ::
  "start_answers \<Rightarrow> (nat \<Rightarrow> probe_timestamps) \<Rightarrow> string \<Rightarrow> u64 \<Rightarrow> ts_client
     \<Rightarrow> (int \<times> ts_client \<times> bool) option" where
  "client_Start a junk node_name period_ns c =
     (let c = c\<lparr>tc_error_flag := False\<rparr>
      in if \<not> open_probe_socket a (tc_ptp_msgflag c) (tc_hostname c) then Some (- 1, c, False)
         else if \<not> sa_resolves a (tc_hostname c) then Some (- 1, c, False)
         else if period_ns = 0 then None
         else let len = tc_ts_duration_ns c div period_ns;
                  buf = map junk [0..<unat len];
                  c = c\<lparr>tc_node_uuid := node_name, tc_tx_period_ns := period_ns,
                        tc_ts_flag := enable_timestamps a (tc_ts_flag c),
                        tc_ts_buffer := Some buf, tc_proc_ts_buffer := Some buf, tc_ts_buf_len := len\<rparr>;
                  (_, c) = client_natsConnect (sa_nats a) c
              in Some (tc_ts_flag c, c\<lparr>tc_running := True\<rparr>, True))"

text \<open>\<open>Stop\<close> joins the threads and frees the buffers; the pointer to the second one is kept.
  It returns whether the connection was destroyed.\<close>

definition client_Stop :: "ts_client \<Rightarrow> int \<times> ts_client \<times> bool" where
  "client_Stop c = (0, c\<lparr>tc_running := False, tc_ts_buffer := None, tc_error_flag := False\<rparr>,
     tc_nats_status c = NATS_OK_SYNC)"

definition client_Reset :: "ts_client \<Rightarrow> int \<times> ts_client" where
  "client_Reset c = (tc_ts_flag c, c\<lparr>tc_running := True\<rparr>)"

definition client_GetErrorStatus :: "ts_client \<Rightarrow> bool" where
  "client_GetErrorStatus c = tc_error_flag c"

section \<open>Sending probes\<close>

text \<open>The locals of \<open>ts_client_loop\<close>.  The two headers are copies: one receives the echoes, the
  other the texts, each with its own \<open>msg_controllen\<close>.\<close>

record client_vars =
  cv_buf :: string
  cv_hdr_controllen :: nat
  cv_msg_controllen :: nat
  cv_tx_timestamp :: timespec
  cv_rx_timestamp :: timespec
  cv_rx_timestamp_remote :: timespec
  cv_tx_timestamp_remote :: timespec
  cv_timestamps :: probe_timestamps
  cv_remote_ok_flag :: int
  cv_counter :: int
  cv_recv_counter :: int
  cv_buffer_counter :: int

record probe_io =
  pi_send :: int
  pi_tx :: tx_answer
  pi_echo :: "datagram option"
  pi_text :: "datagram option"

text \<open>The start of the loop; \<open>junk\<close> holds what is not initialised.\<close>

definition client_loop_start :: "client_vars \<Rightarrow> client_vars" where
  "client_loop_start junk =
     junk\<lparr>cv_buf := sprintf_into ''test'' (zeros BUFSIZE), cv_hdr_controllen := BUFSIZE,
          cv_msg_controllen := BUFSIZE, cv_remote_ok_flag := 1, cv_counter := 0, cv_recv_counter := 0,
          cv_buffer_counter := 0\<rparr>"

text \<open>The wake-up at the next multiple of the period.\<close>

definition client_wakeup :: "u64 \<Rightarrow> timespec \<Rightarrow> timespec option" where
  "client_wakeup period now =
     (if period = 0 then None
      else let now_ns = tv_sec now * 1000000000 + tv_nsec now;
               next_ns = (now_ns div period + 1) * period
           in Some \<lparr>tv_sec = next_ns div 1000000000, tv_nsec = next_ns mod 1000000000\<rparr>)"

definition ts_ns :: "timespec \<Rightarrow> s64" where
  "ts_ns t = tv_sec t * 1000000000 + tv_nsec t"

text \<open>\<open>sscanf\<close> of the server's text: five conversions, of which the last is an \<open>int\<close>;
  what is not matched keeps its value.\<close>

definition assigned :: "int list \<Rightarrow> nat \<Rightarrow> int \<Rightarrow> int" where
  "assigned vs i old = (if i < length vs then vs ! i else old)"

definition scan_reply :: "string \<Rightarrow> client_vars \<Rightarrow> client_vars" where
  "scan_reply buf v =
     (let vs = scan_longs 5 (c_str buf);
          ld = (\<lambda>i old. word_of_int (assigned vs i (sint old)))
      in v\<lparr>cv_rx_timestamp_remote :=
             \<lparr>tv_sec = ld 0 (tv_sec (cv_rx_timestamp_remote v)), tv_nsec = ld 1 (tv_nsec (cv_rx_timestamp_remote v))\<rparr>,
           cv_tx_timestamp_remote :=
             \<lparr>tv_sec = ld 2 (tv_sec (cv_tx_timestamp_remote v)), tv_nsec = ld 3 (tv_nsec (cv_tx_timestamp_remote v))\<rparr>,
           cv_remote_ok_flag := s32 (assigned vs 4 (cv_remote_ok_flag v))\<rparr>)"

definition store_probe :: "nat \<Rightarrow> client_vars \<Rightarrow> client_vars" where
  "store_probe i v =
     (let t = cv_timestamps v
      in v\<lparr>cv_timestamps := t\<lparr>pt_rx := (pt_rx t)[i := ts_ns (cv_rx_timestamp v)],
             pt_tx := (pt_tx t)[i := ts_ns (cv_tx_timestamp v)],
             pt_rx_remote := (pt_rx_remote t)[i := ts_ns (cv_rx_timestamp_remote v)],
             pt_tx_remote := (pt_tx_remote t)[i := ts_ns (cv_tx_timestamp_remote v)]\<rparr>\<rparr>)"

text \<open>The reception of the remote timestamps.  The result: \<open>ok_flag\<close>, whether the loop is
  left, the variables.\<close>

definition recv_reply :: "nat \<Rightarrow> datagram option \<Rightarrow> int \<Rightarrow> client_vars \<Rightarrow> int \<times> bool \<times> client_vars" where
  "recv_reply i text ok v =
     (let v = v\<lparr>cv_buf := zeros BUFSIZE\<rparr>
      in case text of
           None \<Rightarrow> (0, True, v)
         | Some d \<Rightarrow>
             let v = v\<lparr>cv_buf := recv_into (dg_bytes d) (cv_buf v),
                       cv_msg_controllen := snd (put_cmsgs (cv_msg_controllen v) (dg_cmsgs d))\<rparr>;
                 v = scan_reply (cv_buf v) v
             in if cv_remote_ok_flag v = 0 then (0, True, v) else (ok, False, store_probe i v))"

text \<open>The reception of the echo: its timestamp, and unless in PTP mode its number.\<close>

definition recv_echo :: "bool \<Rightarrow> int \<Rightarrow> datagram \<Rightarrow> int \<Rightarrow> client_vars \<Rightarrow> int \<times> client_vars" where
  "recv_echo ptp ts_flag d ok v =
     (let buf = recv_into (dg_bytes d) (zeros BUFSIZE);
          (cs, used) = put_cmsgs (cv_hdr_controllen v) (dg_cmsgs d);
          (n, rx) = get_rx_timestamp cs ts_flag;
          v = v\<lparr>cv_buf := buf, cv_hdr_controllen := used, cv_rx_timestamp := rx\<rparr>;
          v = (if ptp then v
               else v\<lparr>cv_recv_counter := (case scan_d (c_str buf) of None \<Rightarrow> cv_recv_counter v | Some (k, _) \<Rightarrow> k)\<rparr>)
      in (if n < 0 then 0 else ok, v))"

text \<open>One probe: its number is printed into the buffer.  The result: the datagram sent, \<open>ok_flag\<close>, whether the loop is left, the
  variables.  \<open>ptp_message\<close> stands for the bytes of a PTP message with a number.\<close>

definition next_probe :: "client_vars \<Rightarrow> client_vars" where
  "next_probe v =
     (let k = (cv_counter v + 1) smod 255
      in v\<lparr>cv_counter := k, cv_buf := sprintf_into (show_int k) (cv_buf v)\<rparr>)"

definition client_probe ::
  "(int \<Rightarrow> string) \<Rightarrow> bool \<Rightarrow> int \<Rightarrow> nat \<Rightarrow> probe_io \<Rightarrow> int \<Rightarrow> client_vars
     \<Rightarrow> (string option \<times> int \<times> bool \<times> client_vars) option" where
  "client_probe ptp_message ptp ts_flag i io ok v = do {
     let v = next_probe v;
     out \<leftarrow> (if ptp then Some (ptp_message (cv_counter v)) else text_datagram (cv_buf v));
     if pi_send io < 0 then Some (None, 0, True, v)
     else do {
       (n, tx) \<leftarrow> get_tx_timestamp (pi_tx io) ts_flag (cv_tx_timestamp v);
       let v = v\<lparr>cv_tx_timestamp := tx\<rparr>;
       let ok = (if n < 0 then 0 else ok);
       case pi_echo io of
         None \<Rightarrow> Some (Some out, 0, True, v\<lparr>cv_buf := zeros BUFSIZE\<rparr>)
       | Some d \<Rightarrow>
           let (ok, v) = recv_echo ptp ts_flag d ok v;
               (ok, stop, v) = recv_reply i (pi_text io) ok v
           in Some (Some out, ok, stop, v)
     }
   }"

text \<open>The pair of coded probes.\<close>

definition client_probes ::
  "(int \<Rightarrow> string) \<Rightarrow> bool \<Rightarrow> int \<Rightarrow> probe_io \<times> probe_io \<Rightarrow> client_vars
     \<Rightarrow> (string option list \<times> int \<times> client_vars) option" where
  "client_probes ptp_message ptp ts_flag ios v = do {
     (out0, ok, stop, v) \<leftarrow> client_probe ptp_message ptp ts_flag 0 (fst ios) 1 v;
     if stop then Some ([out0], ok, v)
     else do {
       (out1, ok, _, v) \<leftarrow> client_probe ptp_message ptp ts_flag 1 (snd ios) ok v;
       Some ([out0, out1], ok, v)
     }
   }"

text \<open>The sample enters the buffer; when the counter reaches the last slot the buffer is copied
  for the other thread, which is signalled.\<close>

definition client_store :: "int \<Rightarrow> ts_client \<times> client_vars \<Rightarrow> (bool \<times> ts_client \<times> client_vars) option" where
  "client_store ok cv =
     (case cv of (c, v) \<Rightarrow> case (tc_ts_buffer c, tc_proc_ts_buffer c) of
        (Some buf, Some pbuf) \<Rightarrow>
          let t = (cv_timestamps v)\<lparr>pt_validity_flag := ok\<rparr>; k = nat (cv_buffer_counter v)
          in if cv_buffer_counter v < 0 \<or> length buf \<le> k \<or> tc_ts_buf_len c = 0 then None
             else let buf = buf[k := t];
                      v = v\<lparr>cv_timestamps := t,
                            cv_buffer_counter := s32 (uint ((word_of_int (cv_buffer_counter v + 1) :: u64) mod tc_ts_buf_len c))\<rparr>;
                      full = ((word_of_int (cv_buffer_counter v) :: u64) = tc_ts_buf_len c - 1)
                  in Some (full, c\<lparr>tc_ts_buffer := Some buf,
                                   tc_proc_ts_buffer := Some (if full then take (unat (tc_ts_buf_len c)) buf else pbuf)\<rparr>, v)
      | _ \<Rightarrow> None)"

text \<open>One pass of the loop: the wake-up time, the datagrams sent, and whether a batch is
  ready.\<close>

record client_io =
  ci_now :: timespec
  ci_probes :: "probe_io \<times> probe_io"

definition client_pass ::
  "(int \<Rightarrow> string) \<Rightarrow> client_io \<Rightarrow> ts_client \<times> client_vars
     \<Rightarrow> (timespec \<times> string option list \<times> bool \<times> ts_client \<times> client_vars) option" where
  "client_pass ptp_message io cv = (case cv of (c, v) \<Rightarrow> do {
     wake \<leftarrow> client_wakeup (tc_tx_period_ns c) (ci_now io);
     (outs, ok, v) \<leftarrow> client_probes ptp_message (tc_ptp_msgflag c) (tc_ts_flag c) (ci_probes io) v;
     (full, c, v) \<leftarrow> client_store ok (c, v);
     Some (wake, outs, full, c, v)
   })"

section \<open>Processing a batch\<close>

definition EPSILON :: u64 where "EPSILON = 50000"

text \<open>The coded-probe test: both probes took the same way to the server, up to \<open>EPSILON\<close>.
  \<open>abs\<close> is the overload for 64 bits.\<close>

definition probe_delta :: "probe_timestamps \<Rightarrow> u64" where
  "probe_delta t =
     llabs ((pt_rx_remote t ! 1 - pt_rx_remote t ! 0) - (pt_tx t ! 1 - pt_tx t ! 0))"

definition probe_accepted :: "probe_timestamps \<Rightarrow> bool" where
  "probe_accepted t \<longleftrightarrow> pt_validity_flag t = 1 \<and> probe_delta t < EPSILON"

definition offset_upper :: "probe_timestamps \<Rightarrow> s64" where
  "offset_upper t = pt_rx_remote t ! 0 - pt_tx t ! 0"

definition offset_lower :: "probe_timestamps \<Rightarrow> s64" where
  "offset_lower t = pt_tx_remote t ! 0 - pt_rx t ! 0"

text \<open>The locals of \<open>proc_client_loop\<close> that live across batches.\<close>

record proc_vars =
  pv_bounds :: "s64 list"
  pv_instant :: "s64 list"
  pv_offset :: fp
  pv_drift :: fp

definition proc_loop_start :: "ts_client \<Rightarrow> fp \<Rightarrow> fp \<Rightarrow> proc_vars" where
  "proc_loop_start c junk_offset junk_drift =
     \<lparr>pv_bounds = replicate (unat (tc_ts_buf_len c * 2)) 0, pv_instant = replicate (unat (tc_ts_buf_len c)) 0,
      pv_offset = junk_offset, pv_drift = junk_drift\<rparr>"

text \<open>The loop over the samples, with \<open>vec_len\<close>; \<open>vec_ctr\<close> is always twice that.\<close>

fun unwind :: "s64 \<Rightarrow> probe_timestamps list \<Rightarrow> nat \<Rightarrow> proc_vars \<Rightarrow> nat \<times> proc_vars" where
  "unwind start_time [] vec_len p = (vec_len, p)"
| "unwind start_time (t # ts) vec_len p =
     (if probe_accepted t
      then unwind start_time ts (vec_len + 1)
             (p\<lparr>pv_bounds := (pv_bounds p)[2 * vec_len := offset_upper t, 2 * vec_len + 1 := offset_lower t],
                pv_instant := (pv_instant p)[vec_len := pt_rx t ! 0 - start_time]\<rparr>)
      else unwind start_time ts vec_len p)"

text \<open>What is published on \<open>qot.peer.params\<close>; an offset or a drift that is no number becomes
  \<open>null\<close> in the text.\<close>

record peer_params =
  pp_client :: string
  pp_server :: string
  pp_offset :: fp
  pp_drift :: fp
  pp_start_time :: s64

text \<open>Creating the message sets the status of the connection.\<close>

definition publish_params :: "int \<Rightarrow> peer_params \<Rightarrow> ts_client \<Rightarrow> peer_params list \<times> ts_client" where
  "publish_params created params c =
     (if tc_nats_status c = NATS_OK_SYNC
      then (if created = NATS_OK_SYNC then [params] else [], c\<lparr>tc_nats_status := created\<rparr>)
      else ([], c))"

text \<open>One batch.  The bound of the loop, \<open>ts_buf_len - 1\<close>, is unsigned; an empty buffer would
  be read out of bounds.\<close>

definition proc_pass ::
  "svm_lib \<Rightarrow> int \<Rightarrow> ts_client \<times> proc_vars \<times> svm_globals
     \<Rightarrow> (peer_params list \<times> ts_client \<times> proc_vars \<times> svm_globals) option" where
  "proc_pass lib created st = (case st of (c, p, g) \<Rightarrow>
     (case tc_proc_ts_buffer c of
        None \<Rightarrow> None
      | Some buf \<Rightarrow>
          if buf = [] then None
          else let start_time = pt_rx (hd buf) ! 0;
                   (vec_len, p) = unwind start_time (take (unat (tc_ts_buf_len c - 1)) buf) 0 p
               in if vec_len > 0
                  then do {
                    g \<leftarrow> formulate_problem (pv_bounds p) (pv_instant p) vec_len g;
                    let (_, offset, drift, g) = run_svm lib (pv_offset p) (pv_drift p) g;
                    let p = p\<lparr>pv_offset := offset, pv_drift := drift\<rparr>;
                    let (msgs, c) = publish_params created
                      \<lparr>pp_client = tc_node_uuid c, pp_server = tc_hostname c, pp_offset = offset,
                       pp_drift = drift, pp_start_time = start_time\<rparr> c;
                    Some (msgs, c, p, g)
                  }
                  else Some ([], c\<lparr>tc_error_flag := True\<rparr>, p, g)))"

text \<open>What the loop over a batch has collected.\<close>

definition collected :: "s64 \<Rightarrow> probe_timestamps list \<Rightarrow> proc_vars \<Rightarrow> proc_vars" where
  "collected start_time acc p =
     p\<lparr>pv_bounds := concat (map (\<lambda>t. [offset_upper t, offset_lower t]) acc) @ drop (2 * length acc) (pv_bounds p),
       pv_instant := map (\<lambda>t. pt_rx t ! 0 - start_time) acc @ drop (length acc) (pv_instant p)\<rparr>"

lemma length_bounds_of [simp]:
  "length (concat (map (\<lambda>t. [offset_upper t, offset_lower t]) acc)) = 2 * length acc"
  by (induction acc) simp_all

lemma upd2: "length as + 1 < length as + length xs \<Longrightarrow> length as = n \<Longrightarrow>
   (as @ xs)[n := u, Suc n := l] = as @ u # l # drop 2 xs"
  by (cases xs; cases "tl xs") (auto simp: list_update_append)

lemma unwind_step:
  assumes "2 * length acc + 1 < length (pv_bounds p)" "length acc < length (pv_instant p)"
  shows "(collected s acc p)\<lparr>pv_bounds := (pv_bounds (collected s acc p))[2 * length acc := offset_upper t, 2 * length acc + 1 := offset_lower t],
           pv_instant := (pv_instant (collected s acc p))[length acc := pt_rx t ! 0 - s]\<rparr>
       = collected s (acc @ [t]) p"
proof -
  have "(concat (map (\<lambda>t. [offset_upper t, offset_lower t]) acc) @ drop (2 * length acc) (pv_bounds p))
      [2 * length acc := offset_upper t, Suc (2 * length acc) := offset_lower t]
    = concat (map (\<lambda>t. [offset_upper t, offset_lower t]) acc) @ offset_upper t # offset_lower t # drop 2 (drop (2 * length acc) (pv_bounds p))"
    using assms(1) by (intro upd2) simp_all
  moreover have "(map (\<lambda>t. pt_rx t ! 0 - s) acc @ drop (length acc) (pv_instant p))[length acc := pt_rx t ! 0 - s]
    = map (\<lambda>t. pt_rx t ! 0 - s) acc @ (pt_rx t ! 0 - s) # drop 1 (drop (length acc) (pv_instant p))"
    using assms(2) by (cases "drop (length acc) (pv_instant p)") (simp_all add: list_update_append)
  ultimately show ?thesis
    by (simp add: collected_def)
qed

lemma unwind_from:
  assumes "2 * (length acc + length ts) \<le> length (pv_bounds p)" "length acc + length ts \<le> length (pv_instant p)"
  shows "unwind s ts (length acc) (collected s acc p)
       = (length acc + length (filter probe_accepted ts), collected s (acc @ filter probe_accepted ts) p)"
  using assms
proof (induction ts arbitrary: acc)
  case (Cons t ts)
  show ?case
  proof (cases "probe_accepted t")
    case True
    then show ?thesis
      using Cons.IH [of "acc @ [t]"] Cons.prems unwind_step [of acc p s t] by simp
  next
    case False
    then show ?thesis
      using Cons.IH [of acc] Cons.prems by simp
  qed
qed simp

lemma unwind_collects:
  assumes "2 * length ts \<le> length (pv_bounds p)" "length ts \<le> length (pv_instant p)"
  shows "unwind s ts 0 p = (length (filter probe_accepted ts), collected s (filter probe_accepted ts) p)"
  using unwind_from [of "[]" ts p s] assms by (simp add: collected_def)

lemma nth_bounds_of:
  "k < length acc \<Longrightarrow> concat (map (\<lambda>t. [offset_upper t, offset_lower t]) acc) ! (2 * k) = offset_upper (acc ! k)"
  "k < length acc \<Longrightarrow> concat (map (\<lambda>t. [offset_upper t, offset_lower t]) acc) ! (2 * k + 1) = offset_lower (acc ! k)"
proof (induction acc arbitrary: k)
  case (Cons t acc)
  { case 1 then show ?case using Cons.IH(1) [of "k - 1"] by (cases k) simp_all }
  { case 2 then show ?case using Cons.IH(2) [of "k - 1"] by (cases k) simp_all }
qed simp_all

text \<open>A pair of probes measured with clocks that differ by \<open>theta\<close>: the way to the server takes
  \<open>d0\<close> and \<open>d1\<close>, the way back of the first \<open>e\<close>.  The times are below \<open>2 ^ 61\<close> ns (73 years).\<close>

definition exchange :: "int \<Rightarrow> int \<Rightarrow> int \<Rightarrow> int \<Rightarrow> probe_timestamps \<Rightarrow> bool" where
  "exchange theta d0 d1 e t \<longleftrightarrow> 0 \<le> d0 \<and> 0 \<le> d1 \<and> 0 \<le> e \<and>
     sint (pt_rx_remote t ! 0) = sint (pt_tx t ! 0) + theta + d0 \<and>
     sint (pt_rx_remote t ! 1) = sint (pt_tx t ! 1) + theta + d1 \<and>
     sint (pt_rx t ! 0) = sint (pt_tx_remote t ! 0) - theta + e \<and>
     (\<forall>x \<in> {pt_rx t ! 0, pt_tx t ! 0, pt_tx t ! 1, pt_tx_remote t ! 0, pt_rx_remote t ! 0, pt_rx_remote t ! 1}.
        \<bar>sint x\<bar> < 2 ^ 61)"

lemma exchange_bounds:
  assumes "exchange theta d0 d1 e t"
  shows "sint (offset_upper t) = theta + d0" "sint (offset_lower t) = theta - e"
proof -
  show "sint (offset_upper t) = theta + d0"
    using assms unfolding exchange_def offset_upper_def by (subst sint_sub_nowrap) auto
  show "sint (offset_lower t) = theta - e"
    using assms unfolding exchange_def offset_lower_def by (subst sint_sub_nowrap) auto
qed

lemma exchange_delta:
  assumes "exchange theta d0 d1 e t" 
  shows "uint (probe_delta t) = \<bar>d1 - d0\<bar>"
proof -
  have r: "sint (pt_rx_remote t ! 1 - pt_rx_remote t ! 0) = sint (pt_rx_remote t ! 1) - sint (pt_rx_remote t ! 0)"
    using assms unfolding exchange_def by (subst sint_sub_nowrap) auto
  have s: "sint (pt_tx t ! 1 - pt_tx t ! 0) = sint (pt_tx t ! 1) - sint (pt_tx t ! 0)"
    using assms unfolding exchange_def by (subst sint_sub_nowrap) auto
  have "sint ((pt_rx_remote t ! 1 - pt_rx_remote t ! 0) - (pt_tx t ! 1 - pt_tx t ! 0)) = d1 - d0"
    using assms unfolding exchange_def by (subst sint_sub_nowrap) (auto simp: r [simplified] s [simplified])
  then show ?thesis
    by (simp add: probe_delta_def uint_llabs)
qed

lemma accepted_exchange:
  assumes "exchange theta d0 d1 e t" "probe_accepted t"
  shows "\<bar>d1 - d0\<bar> < 50000"
proof -
  have "uint (probe_delta t) < uint EPSILON"
    using assms(2) by (simp add: probe_accepted_def word_less_def)
  then show ?thesis
    using exchange_delta [OF assms(1)] by (simp add: EPSILON_def)
qed

lemma publish_params_flag: "tc_error_flag (snd (publish_params created m c)) = tc_error_flag c"
  by (simp add: publish_params_def)

text \<open>A pass over a batch that is not empty: the samples it accepts are collected; with none of
  them it raises the error flag, and otherwise it trains the line and publishes.\<close>

lemma proc_pass_result:
  assumes buf: "tc_proc_ts_buffer c = Some buf" "buf \<noteq> []"
      "2 * length buf \<le> length (pv_bounds p)" "length buf \<le> length (pv_instant p)"
    and kernel: "spr_kernel_type (g_param g) \<noteq> PRECOMPUTED"
  defines "acc \<equiv> filter probe_accepted (take (unat (tc_ts_buf_len c - 1)) buf)"
  defines "q \<equiv> collected (pt_rx (hd buf) ! 0) acc p"
  shows "acc = [] \<Longrightarrow> proc_pass lib created (c, p, g) = Some ([], c\<lparr>tc_error_flag := True\<rparr>, q, g)"
    and "acc \<noteq> [] \<Longrightarrow> \<exists>g1 k offset drift g2.
      formulate_problem (pv_bounds q) (pv_instant q) (length acc) g = Some g1 \<and>
      run_svm lib (pv_offset p) (pv_drift p) g1 = (k, offset, drift, g2) \<and>
      proc_pass lib created (c, p, g) =
        (case publish_params created \<lparr>pp_client = tc_node_uuid c, pp_server = tc_hostname c, pp_offset = offset,
             pp_drift = drift, pp_start_time = pt_rx (hd buf) ! 0\<rparr> c of
           (msgs, c') \<Rightarrow> Some (msgs, c', q\<lparr>pv_offset := offset, pv_drift := drift\<rparr>, g2))"
proof -
  have "length (take (unat (tc_ts_buf_len c - 1)) buf) \<le> length buf"
    by simp
  then have u: "unwind (pt_rx (hd buf) ! 0) (take (unat (tc_ts_buf_len c - 1)) buf) 0 p = (length acc, q)"
    unfolding acc_def q_def using buf(3,4) by (intro unwind_collects) simp_all
  show "proc_pass lib created (c, p, g) = Some ([], c\<lparr>tc_error_flag := True\<rparr>, q, g)" if "acc = []"
    using u that by (simp add: proc_pass_def buf)
  assume ne: "acc \<noteq> []"
  have len: "length acc \<le> length buf"
    unfolding acc_def by (rule le_trans [OF length_filter_le]) simp
  obtain g1 where g1: "formulate_problem (pv_bounds q) (pv_instant q) (length acc) g = Some g1"
    using formulate_problem_some [of "length acc" "pv_bounds q" "pv_instant q" g] ne len buf(3,4) kernel
    by (auto simp: q_def collected_def)
  obtain k offset drift g2 where run: "run_svm lib (pv_offset p) (pv_drift p) g1 = (k, offset, drift, g2)"
    by (metis prod_cases4)
  have "pv_offset q = pv_offset p" "pv_drift q = pv_drift p"
    by (simp_all add: q_def collected_def)
  then show "\<exists>g1 k offset drift g2.
      formulate_problem (pv_bounds q) (pv_instant q) (length acc) g = Some g1 \<and>
      run_svm lib (pv_offset p) (pv_drift p) g1 = (k, offset, drift, g2) \<and>
      proc_pass lib created (c, p, g) =
        (case publish_params created \<lparr>pp_client = tc_node_uuid c, pp_server = tc_hostname c, pp_offset = offset,
             pp_drift = drift, pp_start_time = pt_rx (hd buf) ! 0\<rparr> c of
           (msgs, c') \<Rightarrow> Some (msgs, c', q\<lparr>pv_offset := offset, pv_drift := drift\<rparr>, g2))"
    using u ne g1 run by (simp add: proc_pass_def buf Let_def)
qed

text \<open>What a pass over a batch leaves: there is always a result, and the kernel stays as the next
  pass needs it.\<close>

lemma proc_pass_collects:
  assumes buf: "tc_proc_ts_buffer c = Some buf" "buf \<noteq> []"
      "2 * length buf \<le> length (pv_bounds p)" "length buf \<le> length (pv_instant p)"
    and kernel: "spr_kernel_type (g_param g) \<noteq> PRECOMPUTED"
  defines "acc \<equiv> filter probe_accepted (take (unat (tc_ts_buf_len c - 1)) buf)"
  defines "q \<equiv> collected (pt_rx (hd buf) ! 0) acc p"
  shows "\<exists>msgs c' p' g'. proc_pass lib created (c, p, g) = Some (msgs, c', p', g') \<and>
     pv_bounds p' = pv_bounds q \<and> pv_instant p' = pv_instant q \<and>
     spr_kernel_type (g_param g') \<noteq> PRECOMPUTED \<and>
     tc_error_flag c' = (tc_error_flag c \<or> acc = []) \<and>
     msgs = (if acc \<noteq> [] \<and> tc_nats_status c = NATS_OK_SYNC \<and> created = NATS_OK_SYNC
             then [\<lparr>pp_client = tc_node_uuid c, pp_server = tc_hostname c, pp_offset = pv_offset p',
                    pp_drift = pv_drift p', pp_start_time = pt_rx (hd buf) ! 0\<rparr>]
             else [])"
proof (cases "acc = []")
  case True
  then show ?thesis
    using proc_pass_result(1) [OF buf kernel, folded acc_def, folded q_def, OF True] kernel by simp
next
  case False
  obtain g1 k offset drift g2 where r: "run_svm lib (pv_offset p) (pv_drift p) g1 = (k, offset, drift, g2)"
    "proc_pass lib created (c, p, g) =
        (case publish_params created \<lparr>pp_client = tc_node_uuid c, pp_server = tc_hostname c, pp_offset = offset,
             pp_drift = drift, pp_start_time = pt_rx (hd buf) ! 0\<rparr> c of
           (msgs, c') \<Rightarrow> Some (msgs, c', q\<lparr>pv_offset := offset, pv_drift := drift\<rparr>, g2))"
    using proc_pass_result(2) [OF buf kernel, folded acc_def, folded q_def, OF False] by blast
  have "spr_kernel_type (g_param g2) \<noteq> PRECOMPUTED"
    using run_svm_linear [of lib "pv_offset p" "pv_drift p" g1] by (simp add: r(1))
  then show ?thesis
    using False by (simp add: r(2) publish_params_def)
qed


section \<open>The batches\<close>

text \<open>The passes of the loop in a row, with what each stores in the buffer and whether it makes
  a batch ready.\<close>

fun client_passes ::
  "(int \<Rightarrow> string) \<Rightarrow> client_io list \<Rightarrow> ts_client \<times> client_vars
     \<Rightarrow> (probe_timestamps list \<times> bool list \<times> ts_client \<times> client_vars) option" where
  "client_passes ptp_message [] cv = Some ([], [], cv)"
| "client_passes ptp_message (io # ios) cv = do {
     (_, _, full, c, v) \<leftarrow> client_pass ptp_message io cv;
     (ts, fulls, cv) \<leftarrow> client_passes ptp_message ios (c, v);
     Some (cv_timestamps v # ts, full # fulls, cv)
   }"

text \<open>The state after \<open>xs\<close> was stored in a buffer of \<open>len\<close> slots: the slots before the counter
  hold the samples since it was last zero.\<close>

definition batch_inv :: "nat \<Rightarrow> probe_timestamps list \<Rightarrow> ts_client \<times> client_vars \<Rightarrow> bool" where
  "batch_inv len xs cv \<longleftrightarrow> (case cv of (c, v) \<Rightarrow>
     0 < len \<and> len < 2 ^ 31 \<and> tc_ts_buf_len c = of_nat len \<and>
     (\<exists>buf pbuf. tc_ts_buffer c = Some buf \<and> length buf = len \<and>
        tc_proc_ts_buffer c = Some pbuf \<and> length pbuf = len \<and>
        take (length xs mod len) buf = drop (length xs div len * len) xs) \<and>
     cv_buffer_counter v = int (length xs mod len))"

lemma recv_echo_counter: "cv_buffer_counter (snd (recv_echo ptp f d ok v)) = cv_buffer_counter v"
  by (simp add: recv_echo_def Let_def case_prod_unfold)

lemma recv_reply_counter: "cv_buffer_counter (snd (snd (recv_reply i text ok v))) = cv_buffer_counter v"
  by (simp add: recv_reply_def scan_reply_def store_probe_def Let_def split: option.splits)

text \<open>A probe that was sent and echoed.\<close>

lemma client_probe_echoed:
  assumes "client_probe pm ptp f i io ok v = Some (out, ok', stop, v')" "\<not> pi_send io < 0" "pi_echo io = Some d"
  obtains n tx where "get_tx_timestamp (pi_tx io) f (cv_tx_timestamp v) = Some (n, tx)"
    "recv_reply i (pi_text io)
       (fst (recv_echo ptp f d (if n < 0 then 0 else ok) ((next_probe v)\<lparr>cv_tx_timestamp := tx\<rparr>)))
       (snd (recv_echo ptp f d (if n < 0 then 0 else ok) ((next_probe v)\<lparr>cv_tx_timestamp := tx\<rparr>))) = (ok', stop, v')"
    "out = (if ptp then Some (pm (cv_counter (next_probe v))) else text_datagram (cv_buf (next_probe v)))"
proof -
  have "cv_tx_timestamp (next_probe v) = cv_tx_timestamp v"
    by (simp add: next_probe_def Let_def)
  then show thesis
    using assms that by (auto simp: client_probe_def bind_eq_Some_conv Let_def case_prod_unfold split: if_splits)
qed

lemma client_probe_counter:
  assumes "client_probe pm ptp f i io ok v = Some (out, ok', stop, v')"
  shows "cv_buffer_counter v' = cv_buffer_counter v"
proof -
  have np: "cv_buffer_counter (next_probe v) = cv_buffer_counter v"
    by (simp add: next_probe_def Let_def)
  show ?thesis
  proof (cases "\<not> pi_send io < 0 \<and> pi_echo io \<noteq> None")
    case True
    then obtain d where d: "\<not> pi_send io < 0" "pi_echo io = Some d"
      by auto
    show ?thesis
    proof (rule client_probe_echoed [OF assms d])
      fix n tx
      let ?e = "recv_echo ptp f d (if n < 0 then 0 else ok) ((next_probe v)\<lparr>cv_tx_timestamp := tx\<rparr>)"
      assume "recv_reply i (pi_text io) (fst ?e) (snd ?e) = (ok', stop, v')"
      then show ?thesis
        using recv_reply_counter [of i "pi_text io" "fst ?e" "snd ?e"] by (simp add: recv_echo_counter np)
    qed
  next
    case False
    then show ?thesis
      using assms np by (auto simp: client_probe_def bind_eq_Some_conv Let_def split: if_splits)
  qed
qed

lemma client_probes_counter:
  "client_probes pm ptp f ios v = Some (outs, ok, v') \<Longrightarrow> cv_buffer_counter v' = cv_buffer_counter v"
  by (auto simp: client_probes_def bind_eq_Some_conv dest!: client_probe_counter split: if_splits)

text \<open>A step of a counter that runs through a buffer, with the block it fills.\<close>

lemma block_step:
  assumes "0 < len" "take (length xs mod len) buf = drop (length xs div len * len) xs" "length buf = len"
  shows "take (length (xs @ [t]) mod len) (buf[length xs mod len := t])
       = drop (length (xs @ [t]) div len * len) (xs @ [t])"
proof (cases "Suc (length xs mod len) = len")
  case True
  then have "Suc (length xs) mod len = 0"
    by (simp add: mod_Suc)
  then have "Suc (length xs) div len * len = Suc (length xs)"
    using div_mult_mod_eq [of "Suc (length xs)" len] by simp
  then show ?thesis
    using \<open>Suc (length xs) mod len = 0\<close> by simp
next
  case False
  have less: "length xs mod len < length buf"
    using assms(1,3) by simp
  have m: "Suc (length xs) mod len = Suc (length xs mod len)" "Suc (length xs) div len = length xs div len"
    using False by (simp_all add: mod_Suc div_Suc)
  have "length xs div len * len \<le> length xs"
    by simp
  then show ?thesis
    using less assms(2) by (simp add: m take_Suc_conv_app_nth)
qed

lemma client_store_batch:
  assumes "batch_inv len xs (c, v)" "client_store ok (c, v) = Some (full, c', v')"
  shows "batch_inv len (xs @ [cv_timestamps v']) (c', v')"
    and "full = (length (xs @ [cv_timestamps v']) mod len = len - 1)"
    and "full \<Longrightarrow> \<exists>pbuf. tc_proc_ts_buffer c' = Some pbuf \<and> take (len - 1) pbuf = drop (length xs + 1 - (len - 1)) (xs @ [cv_timestamps v'])"
    and "pt_validity_flag (cv_timestamps v') = ok"
proof -
  obtain buf pbuf where inv: "0 < len" "len < 2 ^ 31" "tc_ts_buf_len c = of_nat len"
      "tc_ts_buffer c = Some buf" "length buf = len" "tc_proc_ts_buffer c = Some pbuf" "length pbuf = len"
      "take (length xs mod len) buf = drop (length xs div len * len) xs"
      "cv_buffer_counter v = int (length xs mod len)"
    using assms(1) by (auto simp: batch_inv_def)
  let ?t = "(cv_timestamps v)\<lparr>pt_validity_flag := ok\<rparr>" and ?k = "length xs mod len"
  have un: "unat (of_nat len :: u64) = len" "uint (of_nat len :: u64) = int len"
    using inv(2) by (simp_all add: unat_of_nat take_bit_nat_eq_self uint_nat)
  have k: "?k < len" "\<not> len \<le> ?k"
    using inv(1) by (simp_all add: not_le)
  have "uint (word_of_int (int ?k + 1) :: u64) = (int ?k + 1) mod 2 ^ LENGTH(64)"
    by (rule uint_word_of_int)
  also have "\<dots> = int ?k + 1"
    using k(1) inv(2) by (intro mod_pos_pos_trivial) simp_all
  finally have "uint (word_of_int (int ?k + 1) :: u64) = int ?k + 1" .
  then have "uint ((word_of_int (int ?k + 1) :: u64) mod of_nat len) = (int ?k + 1) mod int len"
    by (simp add: uint_mod un)
  also have "\<dots> = int (Suc (length xs) mod len)"
    by (simp add: zmod_int mod_add_left_eq) (simp add: add.commute)
  finally have u: "uint ((word_of_int (int ?k + 1) :: u64) mod of_nat len) = int (Suc (length xs) mod len)" .
  have "Suc (length xs) mod len < len"
    using inv(1) by simp
  then have s: "s32 (int (Suc (length xs) mod len)) = int (Suc (length xs) mod len)"
    using inv(2) by (intro s32_id) (simp add: int32_def)
  have nz: "(of_nat len :: u64) \<noteq> 0"
    using un(1) inv(1) by auto
  have eq: "(word_of_int (int m) = (of_nat len :: u64) - 1) = (m = len - 1)" if "m < len" for m
  proof -
    have o: "(of_nat len :: u64) - 1 = of_nat (len - 1)"
      using inv(1) by simp
    have i: "word_of_int (int m) = (of_nat m :: u64)"
      by simp
    have small: "unat (of_nat j :: u64) = j" if "j < 2 ^ 31" for j
      using that by (simp add: unat_of_nat take_bit_nat_eq_self)
    then have "unat (of_nat m :: u64) = m" "unat (of_nat (len - 1) :: u64) = len - 1"
      using that inv(2) by (blast intro: less_trans, intro small) simp
    then have "((of_nat m :: u64) = of_nat (len - 1)) = (m = len - 1)"
      by metis
    then show ?thesis
      unfolding o i .
  qed
  let ?m = "Suc (length xs) mod len" and ?buf = "buf[length xs mod len := ?t]"
  have m: "?m < len"
    using inv(1) by simp
  have u': "uint ((of_nat ?k + 1 :: u64) mod of_nat len) = int ?m"
    using u by simp
  have eq': "((of_nat ?m :: u64) = of_nat len - 1) = (?m = len - 1)"
    using eq [OF m] by simp
  have "(full, c', v') = (?m = len - 1, c\<lparr>tc_ts_buffer := Some ?buf,
      tc_proc_ts_buffer := Some (if ?m = len - 1 then ?buf else pbuf)\<rparr>,
      v\<lparr>cv_timestamps := ?t, cv_buffer_counter := int ?m\<rparr>)"
    using assms(2) k by (auto simp: client_store_def Let_def inv nz u' s eq' un cong: if_cong)
  then have st: "full = (?m = len - 1)" "c' = c\<lparr>tc_ts_buffer := Some ?buf,
      tc_proc_ts_buffer := Some (if ?m = len - 1 then ?buf else pbuf)\<rparr>"
      "v' = v\<lparr>cv_timestamps := ?t, cv_buffer_counter := int ?m\<rparr>"
    by auto
  note step = block_step [OF inv(1,8,5), of ?t]
  show "batch_inv len (xs @ [cv_timestamps v']) (c', v')"
    using inv step by (simp add: batch_inv_def st)
  show "full = (length (xs @ [cv_timestamps v']) mod len = len - 1)"
    by (simp add: st)
  show "pt_validity_flag (cv_timestamps v') = ok"
    by (simp add: st)
  show "\<exists>pbuf. tc_proc_ts_buffer c' = Some pbuf \<and>
      take (len - 1) pbuf = drop (length xs + 1 - (len - 1)) (xs @ [cv_timestamps v'])" if "full"
  proof -
    have last: "?m = len - 1"
      using that by (simp add: st)
    then have "Suc (length xs) div len * len = length xs + 1 - (len - 1)"
      using div_mult_mod_eq [of "Suc (length xs)" len] by simp
    then show ?thesis
      using step last by (simp add: st)
  qed
qed

lemma client_pass_batch:
  assumes "batch_inv len xs (c, v)" "client_pass pm io (c, v) = Some (wake, outs, full, c', v')"
  shows "batch_inv len (xs @ [cv_timestamps v']) (c', v')"
    and "full = (length (xs @ [cv_timestamps v']) mod len = len - 1)"
    and "full \<Longrightarrow> \<exists>pbuf. tc_proc_ts_buffer c' = Some pbuf \<and>
      take (len - 1) pbuf = drop (length xs + 1 - (len - 1)) (xs @ [cv_timestamps v'])"
proof -
  obtain outs' ok v1 where p: "client_probes pm (tc_ptp_msgflag c) (tc_ts_flag c) (ci_probes io) v = Some (outs', ok, v1)"
      "client_store ok (c, v1) = Some (full, c', v')"
    using assms(2) by (auto simp: client_pass_def bind_eq_Some_conv)
  have "batch_inv len xs (c, v1)"
    using assms(1) client_probes_counter [OF p(1)] by (simp add: batch_inv_def)
  note client_store_batch [OF this p(2)]
  then show "batch_inv len (xs @ [cv_timestamps v']) (c', v')"
    and "full = (length (xs @ [cv_timestamps v']) mod len = len - 1)"
    and "full \<Longrightarrow> \<exists>pbuf. tc_proc_ts_buffer c' = Some pbuf \<and>
      take (len - 1) pbuf = drop (length xs + 1 - (len - 1)) (xs @ [cv_timestamps v'])"
    by blast+
qed

lemma client_passes_batch:
  assumes "batch_inv len xs cv" "client_passes pm ios cv = Some (ts, fulls, c', v')"
  shows "length ts = length ios \<and> length fulls = length ios \<and>
     (\<forall>k < length ios. fulls ! k = ((length xs + k + 1) mod len = len - 1)) \<and>
     (ios \<noteq> [] \<and> last fulls \<longrightarrow> (\<exists>pbuf. tc_proc_ts_buffer c' = Some pbuf \<and>
        take (len - 1) pbuf = drop (length (xs @ ts) - (len - 1)) (xs @ ts)))"
  using assms
proof (induction ios arbitrary: xs cv ts fulls)
  case (Cons io ios)
  obtain c v where cv: "cv = (c, v)"
    by (cases cv)
  obtain wake outs full c1 v1 ts1 fulls1 where p: "client_pass pm io (c, v) = Some (wake, outs, full, c1, v1)"
      "client_passes pm ios (c1, v1) = Some (ts1, fulls1, c', v')"
      "ts = cv_timestamps v1 # ts1" "fulls = full # fulls1"
    using Cons.prems(2) by (auto simp: cv bind_eq_Some_conv)
  note b = client_pass_batch [OF Cons.prems(1) [unfolded cv] p(1)]
  note IH = Cons.IH [OF b(1) p(2)]
  have "fulls ! k = ((length xs + k + 1) mod len = len - 1)" if "k < length (io # ios)" for k
    using that IH b(2) p(4) by (cases k) simp_all
  moreover have "\<exists>pbuf. tc_proc_ts_buffer c' = Some pbuf \<and>
      take (len - 1) pbuf = drop (length (xs @ ts) - (len - 1)) (xs @ ts)" if "last fulls"
  proof (cases "ios = []")
    case True
    then show ?thesis
      using that b(3) p by simp
  next
    case False
    moreover have "fulls1 \<noteq> []"
      using IH False by auto
    ultimately show ?thesis
      using that IH p(3,4) by auto
  qed
  ultimately show ?case
    using IH p(3,4) by simp
qed simp

text \<open>C15: From the start of the client, a batch is handed over exactly every so many passes as
  the buffer has slots, the first one pass early, and what the processing thread reads of
  it are the newest samples in the order taken, all but one slot: every sample taken into
  the last slot is never processed.\<close>

lemma batches_are_consecutive_samples:
  assumes start: "client_Start a junk name period c0 = Some (r, c, True)" "tc_ts_duration_ns c0 = 2000000000"
    and period: "period \<le> 2000000000"
    and run: "client_passes pm ios (c, client_loop_start junk_vars) = Some (ts, fulls, c', v')"
  defines "len \<equiv> 2000000000 div unat period"
  shows "length ts = length ios \<and> length fulls = length ios \<and>
     (\<forall>k < length ios. fulls ! k = ((k + 1) mod len = len - 1)) \<and>
     (ios \<noteq> [] \<and> last fulls \<longrightarrow> (\<exists>pbuf. tc_proc_ts_buffer c' = Some pbuf \<and>
        take (len - 1) pbuf = drop (length ts - (len - 1)) ts))"
proof -
  have p0: "period \<noteq> 0"
    using start(1) by (auto simp: client_Start_def Let_def split: if_splits)
  have u: "unat ((2000000000 :: u64) div period) = len"
    by (simp add: len_def unat_div)
  have "unat period \<le> 2000000000" "0 < unat period"
    using period p0 by (simp_all add: word_le_nat_alt unat_gt_0)
  then have len0: "0 < len"
    by (simp add: len_def div_greater_zero_iff)
  have "len \<le> 2000000000"
    unfolding len_def by (rule div_le_dividend)
  then have len: "0 < len" "len < 2 ^ 31"
    using len0 by simp_all
  have "(2000000000 :: u64) div period = of_nat len"
    using u len by (simp add: word_unat_eq_iff unat_of_nat take_bit_nat_eq_self)
  then have "tc_ts_buf_len c = of_nat len \<and> (\<exists>buf. tc_ts_buffer c = Some buf \<and> length buf = len \<and>
      tc_proc_ts_buffer c = Some buf)"
    using start p0 u by (auto simp: client_Start_def client_natsConnect_def Let_def split: if_splits)
  then have "batch_inv len [] (c, client_loop_start junk_vars)"
    using len by (auto simp: batch_inv_def client_loop_start_def)
  from client_passes_batch [OF this run] show ?thesis
    unfolding append_Nil list.size(3) add_0 .
qed

section \<open>The exchange of one probe\<close>

lemma recv_echo_fields:
  assumes "v' = snd (recv_echo ptp f e ok v)"
  shows "cv_counter v' = cv_counter v" "cv_timestamps v' = cv_timestamps v" "cv_tx_timestamp v' = cv_tx_timestamp v"
    and "cv_rx_timestamp v' = snd (get_rx_timestamp (fst (put_cmsgs (cv_hdr_controllen v) (dg_cmsgs e))) f)"
    and "\<not> ptp \<Longrightarrow> scan_d (c_str (recv_into (dg_bytes e) (zeros BUFSIZE))) = Some (k, r) \<Longrightarrow> cv_recv_counter v' = k"
  by (simp_all add: assms recv_echo_def Let_def case_prod_unfold)

lemma recv_reply_text:
  assumes "dg_bytes t = reply_text rx tx rok" "rok = 0 \<or> rok = 1"
    and "recv_reply i (Some t) ok v = (ok', stop, v')"
  shows "stop = (rok = 0)" "ok' = (if rok = 0 then 0 else ok)"
    and "cv_rx_timestamp_remote v' = rx" "cv_tx_timestamp_remote v' = tx"
    and "cv_counter v' = cv_counter v" "cv_recv_counter v' = cv_recv_counter v"
    and "cv_rx_timestamp v' = cv_rx_timestamp v" "cv_tx_timestamp v' = cv_tx_timestamp v"
    and "cv_timestamps v' = (if rok = 0 then cv_timestamps v
       else (cv_timestamps v)\<lparr>pt_rx := (pt_rx (cv_timestamps v))[i := ts_ns (cv_rx_timestamp v)],
         pt_tx := (pt_tx (cv_timestamps v))[i := ts_ns (cv_tx_timestamp v)],
         pt_rx_remote := (pt_rx_remote (cv_timestamps v))[i := ts_ns rx],
         pt_tx_remote := (pt_tx_remote (cv_timestamps v))[i := ts_ns tx]\<rparr>)"
proof -
  have "length (reply_text rx tx rok) < BUFSIZE"
    using length_reply [of rok rx tx] assms(2) by (auto simp: BUFSIZE_def int32_def)
  then have c: "c_str (recv_into (dg_bytes t) (zeros BUFSIZE)) = reply_text rx tx rok"
    using reply_no_nul by (simp add: assms(1) recv_zeros)
  have vs: "scan_longs 5 (reply_text rx tx rok)
      = [sint (tv_sec rx), sint (tv_nsec rx), sint (tv_sec tx), sint (tv_nsec tx), rok]"
    using assms(2) by (intro scan_reply_text) (auto simp: int32_def)
  have r: "scan_reply (recv_into (dg_bytes t) (zeros BUFSIZE)) u
      = u\<lparr>cv_rx_timestamp_remote := rx, cv_tx_timestamp_remote := tx, cv_remote_ok_flag := rok\<rparr>" for u
    using assms(2) by (auto simp: scan_reply_def c vs assigned_def Let_def int32_def)
  show "stop = (rok = 0)" "ok' = (if rok = 0 then 0 else ok)"
    and "cv_rx_timestamp_remote v' = rx" "cv_tx_timestamp_remote v' = tx"
    and "cv_counter v' = cv_counter v" "cv_recv_counter v' = cv_recv_counter v"
    and "cv_rx_timestamp v' = cv_rx_timestamp v" "cv_tx_timestamp v' = cv_tx_timestamp v"
    and "cv_timestamps v' = (if rok = 0 then cv_timestamps v
       else (cv_timestamps v)\<lparr>pt_rx := (pt_rx (cv_timestamps v))[i := ts_ns (cv_rx_timestamp v)],
         pt_tx := (pt_tx (cv_timestamps v))[i := ts_ns (cv_tx_timestamp v)],
         pt_rx_remote := (pt_rx_remote (cv_timestamps v))[i := ts_ns rx],
         pt_tx_remote := (pt_tx_remote (cv_timestamps v))[i := ts_ns tx]\<rparr>)"
    using assms(2,3) by (auto simp: recv_reply_def r store_probe_def Let_def)
qed

text \<open>C8: One probe between the client and the server, not in PTP mode: the datagram the client
  sends, echoed and answered by one pass of the server, gives the client the number it
  sent and exactly the two timestamps of the server, through the text form. The client
  leaves the loop exactly when the server had no receive timestamp or failed to read the
  transmit timestamp; otherwise the four timestamps are entered for this probe and the
  flag stays good exactly when both timestamps of the client were there as well.\<close>

lemma probe_exchange:
  assumes client: "client_probe pm False f i io ok v = Some (Some (dg_bytes d), ok', stop, v')"
      "0 \<le> pi_send io" "pi_echo io = Some e" "pi_text io = Some t"
    and v: "length (cv_buf v) = BUFSIZE" "0 \<le> cv_counter v" "cv_counter v < 255"
    and server: "server_pass sio (s, sv) = Some ([(a1, dg_bytes e), (a2, dg_bytes t)], s', sv')"
      "\<not> ps_ptp_msgflag s" "si_recv sio = Some d"
  defines "answered \<equiv> rx_stamped (ps_ts_flag s) (sv_controllen sv) d \<and>
     tx_stamped (ps_ts_flag s) (si_tx sio) (sv_tx_timestamp sv)"
  shows "cv_recv_counter v' = cv_counter v' \<and> cv_counter v' = (cv_counter v + 1) mod 255 \<and>
     cv_rx_timestamp_remote v' = sv_rx_timestamp sv' \<and> cv_tx_timestamp_remote v' = sv_tx_timestamp sv' \<and>
     cv_rx_timestamp v' = snd (get_rx_timestamp (fst (put_cmsgs (cv_hdr_controllen v) (dg_cmsgs e))) f) \<and>
     (\<exists>n. get_tx_timestamp (pi_tx io) f (cv_tx_timestamp v) = Some (n, cv_tx_timestamp v')) \<and>
     stop = (\<not> answered) \<and>
     ok' = (if answered \<and> tx_stamped f (pi_tx io) (cv_tx_timestamp v) \<and> rx_stamped f (cv_hdr_controllen v) e
            then ok else 0) \<and>
     cv_timestamps v' =
       (if answered
        then (cv_timestamps v)\<lparr>pt_rx := (pt_rx (cv_timestamps v))[i := ts_ns (cv_rx_timestamp v')],
               pt_tx := (pt_tx (cv_timestamps v))[i := ts_ns (cv_tx_timestamp v')],
               pt_rx_remote := (pt_rx_remote (cv_timestamps v))[i := ts_ns (sv_rx_timestamp sv')],
               pt_tx_remote := (pt_tx_remote (cv_timestamps v))[i := ts_ns (sv_tx_timestamp sv')]\<rparr>
        else cv_timestamps v)"
proof -
  let ?k = "(cv_counter v + 1) smod 255"
  have k: "?k = (cv_counter v + 1) mod 255" "0 \<le> ?k" "?k < 255"
    using v(2) by (simp_all add: smod_pos)
  have k20: "length (show_int ?k) \<le> 20"
    using k by (intro length_show_int) simp_all
  obtain b where b: "text_datagram (cv_buf (next_probe v)) = Some (show_int ?k @ [CHR 0x00, b])"
    using probe_datagram [OF k20 v(1)] by (auto simp: next_probe_def Let_def)
  have sent: "\<not> pi_send io < 0"
    using client(2) by simp
  show ?thesis
  proof (rule client_probe_echoed [OF client(1) sent client(3)])
    fix n :: int and tx
    let ?v = "(next_probe v)\<lparr>cv_tx_timestamp := tx\<rparr>" and ?ok = "if n < 0 then 0 else ok"
    let ?e = "recv_echo False f e ?ok ?v"
    assume tx: "get_tx_timestamp (pi_tx io) f (cv_tx_timestamp v) = Some (n, tx)"
      and p: "recv_reply i (pi_text io) (fst ?e) (snd ?e) = (ok', stop, v')"
        "Some (dg_bytes d) = (if False then Some (pm (cv_counter (next_probe v))) else text_datagram (cv_buf (next_probe v)))"
    have d: "dg_bytes d = show_int ?k @ [CHR 0x00, b]"
      using p(2) b by simp
    have reply: "dg_bytes e = dg_bytes d"
        "dg_bytes t = reply_text (sv_rx_timestamp sv') (sv_tx_timestamp sv') (if answered then 1 else 0)"
      using server_pass_reply [OF server(1,3), folded answered_def] server(2) echo_text(1) [OF k20] by (simp_all add: d)
    have "scan_d (c_str (recv_into (dg_bytes e) (zeros BUFSIZE))) = Some (?k, [])"
      unfolding reply(1) d echo_text(2) [OF k20]
      using k(2,3) by (intro scan_d_show) (simp add: int32_def)
    then have e: "cv_recv_counter (snd ?e) = ?k"
      by (intro recv_echo_fields(5) [OF refl]) simp_all
    have rok: "(if answered then 1 else 0 :: int) = 0 \<or> (if answered then 1 else 0 :: int) = 1"
      by simp
    note r = recv_reply_text [OF reply(2) rok p(1) [unfolded client(4)]]
    have np: "cv_counter (next_probe v) = ?k" "cv_timestamps (next_probe v) = cv_timestamps v"
        "cv_hdr_controllen (next_probe v) = cv_hdr_controllen v"
      by (simp_all add: next_probe_def Let_def)
    note fields = recv_echo_fields(1-4) [OF refl, of False f e ?ok ?v]
    have "fst ?e = (if tx_stamped f (pi_tx io) (cv_tx_timestamp v) \<and> rx_stamped f (cv_hdr_controllen v) e then ok else 0)"
      by (simp add: recv_echo_def rx_stamped_def tx_stamped_iff [OF tx] np(3) Let_def case_prod_unfold)
    then show ?thesis
      using tx by (simp add: r fields np e k(1))
  qed
qed

text \<open>The number in the echo is not checked: another datagram with the same timestamp, say the
  late echo of an earlier probe, is taken for the reply.\<close>

lemma recv_reply_ignores:
  "recv_reply i text ok (v\<lparr>cv_buf := b, cv_recv_counter := k\<rparr>) =
     (case recv_reply i text ok v of (ok, stop, v) \<Rightarrow> (ok, stop, v\<lparr>cv_recv_counter := k\<rparr>))"
  by (simp add: recv_reply_def scan_reply_def store_probe_def Let_def split: option.splits)

lemma echo_number_ignored:
  assumes "client_probe pm False f i io ok v = Some (out, ok1, stop1, v1)"
    and "client_probe pm False f i (io\<lparr>pi_echo := Some e'\<rparr>) ok v = Some (out', ok2, stop2, v2)"
    and "0 \<le> pi_send io" "pi_echo io = Some e" "dg_cmsgs e' = dg_cmsgs e"
  shows "out' = out \<and> ok2 = ok1 \<and> stop2 = stop1 \<and> v2 = v1\<lparr>cv_recv_counter := cv_recv_counter v2\<rparr>"
proof -
  have ex: "\<exists>b k. snd (recv_echo False f e' ok0 u) = (snd (recv_echo False f e ok0 u))\<lparr>cv_buf := b, cv_recv_counter := k\<rparr>
      \<and> fst (recv_echo False f e' ok0 u) = fst (recv_echo False f e ok0 u)" for ok0 u
  proof (intro exI conjI)
    let ?r' = "snd (recv_echo False f e' ok0 u)"
    show "?r' = (snd (recv_echo False f e ok0 u))\<lparr>cv_buf := cv_buf ?r', cv_recv_counter := cv_recv_counter ?r'\<rparr>"
      by (rule client_vars.equality) (simp_all add: recv_echo_def assms(5) Let_def case_prod_unfold)
  qed (simp add: recv_echo_def assms(5) Let_def case_prod_unfold)
  have s: "\<not> pi_send io < 0" "\<not> pi_send (io\<lparr>pi_echo := Some e'\<rparr>) < 0" "pi_echo (io\<lparr>pi_echo := Some e'\<rparr>) = Some e'"
    using assms(3) by simp_all
  show ?thesis
  proof (rule client_probe_echoed [OF assms(1) s(1) assms(4)], rule client_probe_echoed [OF assms(2) s(2,3)])
    fix n n' :: int and tx tx'
    let ?u = "(next_probe v)\<lparr>cv_tx_timestamp := tx\<rparr>" and ?ok = "if n < 0 then 0 else ok"
    assume a: "get_tx_timestamp (pi_tx io) f (cv_tx_timestamp v) = Some (n, tx)"
      "get_tx_timestamp (pi_tx (io\<lparr>pi_echo := Some e'\<rparr>)) f (cv_tx_timestamp v) = Some (n', tx')"
      "recv_reply i (pi_text io) (fst (recv_echo False f e ?ok ?u)) (snd (recv_echo False f e ?ok ?u)) = (ok1, stop1, v1)"
      "recv_reply i (pi_text (io\<lparr>pi_echo := Some e'\<rparr>))
         (fst (recv_echo False f e' (if n' < 0 then 0 else ok) ((next_probe v)\<lparr>cv_tx_timestamp := tx'\<rparr>)))
         (snd (recv_echo False f e' (if n' < 0 then 0 else ok) ((next_probe v)\<lparr>cv_tx_timestamp := tx'\<rparr>))) = (ok2, stop2, v2)"
      "out = (if False then Some (pm (cv_counter (next_probe v))) else text_datagram (cv_buf (next_probe v)))"
      "out' = (if False then Some (pm (cv_counter (next_probe v))) else text_datagram (cv_buf (next_probe v)))"
    have n: "n' = n" "tx' = tx"
      using a(1,2) by simp_all
    obtain b k where bk: "snd (recv_echo False f e' ?ok ?u) = (snd (recv_echo False f e ?ok ?u))\<lparr>cv_buf := b, cv_recv_counter := k\<rparr>"
        "fst (recv_echo False f e' ?ok ?u) = fst (recv_echo False f e ?ok ?u)"
      using ex by blast
    have "(ok2, stop2, v2) = (ok1, stop1, v1\<lparr>cv_recv_counter := k\<rparr>)"
      using a(3,4) unfolding n bk recv_reply_ignores by simp
    then show ?thesis
      using a(5,6) by simp
  qed
qed

section \<open>What goes wrong\<close>

text \<open>With a period of more than 2/3 s, among them the default of the peer service, a batch holds at
  most one sample, which has no deviation: every pass ends without an estimate, either with
  the error flag or with an offset and a drift that are no numbers.\<close>

lemma one_sample_never_estimates:
  assumes "unat (tc_ts_buf_len c) \<le> 2" "tc_proc_ts_buffer c = Some buf" "buf \<noteq> []"
    and "2 * length buf \<le> length (pv_bounds p)" "length buf \<le> length (pv_instant p)"
    and "length buf = unat (tc_ts_buf_len c)" "spr_kernel_type (g_param g) \<noteq> PRECOMPUTED"
    and accepted: "\<And>prob. lib_check lib prob training_parameter = None"
  shows "\<exists>msgs c' p' g'. proc_pass lib created (c, p, g) = Some (msgs, c', p', g') \<and>
     (msgs = [] \<and> tc_error_flag c' \<or> pv_offset p' = None \<and> pv_drift p' = None \<and>
        (\<forall>m \<in> set msgs. pp_offset m = None \<and> pp_drift m = None))"
proof -
  let ?acc = "filter probe_accepted (take (unat (tc_ts_buf_len c - 1)) buf)"
  let ?q = "collected (pt_rx (hd buf) ! 0) ?acc p"
  note r = proc_pass_result [OF assms(2-5,7), of lib created]
  show ?thesis
  proof (cases "?acc = []")
    case True
    then show ?thesis
      using r(1) [OF True] by simp
  next
    case False
    have "Suc 0 \<le> unat (tc_ts_buf_len c)"
      using assms(3) by (simp add: Suc_le_eq flip: assms(6))
    then have "unat (tc_ts_buf_len c - 1) = unat (tc_ts_buf_len c) - 1"
      by (subst unat_sub_le) (simp_all add: word_le_nat_alt)
    then have "length (take (unat (tc_ts_buf_len c - 1)) buf) \<le> 1"
      using assms(1) by simp
    then have "length ?acc \<le> 1"
      using le_trans [OF length_filter_le] by blast
    then have one: "length ?acc = 1"
      using False by (cases ?acc) auto
    obtain g1 k offset drift g2 where g1: "formulate_problem (pv_bounds ?q) (pv_instant ?q) 1 g = Some g1"
      and run: "run_svm lib (pv_offset p) (pv_drift p) g1 = (k, offset, drift, g2)"
      and pass: "proc_pass lib created (c, p, g) =
        (case publish_params created \<lparr>pp_client = tc_node_uuid c, pp_server = tc_hostname c, pp_offset = offset,
             pp_drift = drift, pp_start_time = pt_rx (hd buf) ! 0\<rparr> c of
           (msgs, c') \<Rightarrow> Some (msgs, c', ?q\<lparr>pv_offset := offset, pv_drift := drift\<rparr>, g2))"
      using r(2) [OF False] unfolding one by blast
    have "1 \<le> length (pv_instant ?q)"
      using one by (simp add: collected_def)
    then have "g_instant_sd g1 = 0"
      using g1 calculateSD_single [of "pv_instant ?q"] by (auto simp: formulate_problem_def bind_eq_Some_conv Let_def split: if_splits)
    then have "offset = None" "drift = None"
      using no_deviation_no_numbers [OF _ accepted, of g1 "pv_offset p" "pv_drift p"] run by auto
    then show ?thesis
      by (simp add: pass publish_params_def)
  qed
qed

text \<open>\<open>Start\<close> spawns its threads also when timestamps cannot be enabled, and returns -1: the sync
  service then deletes the object they run on.\<close>

lemma failed_start_leaves_threads:
  assumes "open_probe_socket a (tc_ptp_msgflag c) (tc_hostname c)" "sa_resolves a (tc_hostname c)" "period \<noteq> 0"
    and "tc_ts_flag c \<noteq> 2" "\<And>opt v. sa_setsockopt a opt v < 0"
  shows "\<exists>c'. client_Start a junk name period c = Some (- 1, c', True) \<and> tc_running c'"
  using assms
  by (simp add: client_Start_def client_natsConnect_def enable_timestamps_def tstamp_mode_kernel_def Let_def)

section \<open>Examples\<close>

definition ex_sample :: "s64 \<Rightarrow> probe_timestamps" where
  "ex_sample t = \<lparr>pt_rx = [t + 2, t + 12], pt_rx_remote = [t + 2, t + 12], pt_tx = [t, t + 10],
     pt_tx_remote = [t + 2, t + 12], pt_validity_flag = 1\<rparr>"

definition ex_no_sample :: probe_timestamps where
  "ex_no_sample = \<lparr>pt_rx = [0, 0], pt_rx_remote = [0, 0], pt_tx = [0, 0], pt_tx_remote = [0, 0],
     pt_validity_flag = 0\<rparr>"

definition ex_client :: ts_client where
  "ex_client = (PeerTSclient ''server'' 4000 ''eth0'' ''nats'' 0)\<lparr>tc_ts_buf_len := 3,
     tc_proc_ts_buffer := Some [ex_sample 0, ex_sample 2, ex_no_sample]\<rparr>"

definition ex_svm_lib :: svm_lib where
  "ex_svm_lib = \<lparr>lib_check = (\<lambda>_ _. None),
     lib_train = (\<lambda>_ _. \<lparr>sm_l = 1, sm_sv_coef = [Some 1], sm_SV = [svm_row (Some 0) (Some 1)], sm_rho = Some 0\<rparr>)\<rparr>"

definition ex_svm_globals :: svm_globals where
  "ex_svm_globals = \<lparr>g_param = training_parameter, g_prob = \<lparr>sp_l = 0, sp_y = [], sp_x = []\<rparr>,
     g_bounds_mean = 0, g_instant_mean = 0, g_bounds_sd = 0, g_instant_sd = 0\<rparr>"

lemma ex_sample_exchange: "t \<in> {0, 2} \<Longrightarrow> exchange 1 1 1 1 (ex_sample t)"
  by (auto simp: exchange_def ex_sample_def)

lemma ex_accepted: "t \<in> {0, 2} \<Longrightarrow> probe_accepted (ex_sample t)"
  by (auto simp: probe_accepted_def probe_delta_def ex_sample_def llabs_def EPSILON_def)


definition ex_vars :: client_vars where
  "ex_vars = client_loop_start \<lparr>cv_buf = [], cv_hdr_controllen = 0, cv_msg_controllen = 0, cv_tx_timestamp = zero_ts,
     cv_rx_timestamp = zero_ts, cv_rx_timestamp_remote = zero_ts, cv_tx_timestamp_remote = zero_ts,
     cv_timestamps = ex_no_sample, cv_remote_ok_flag = 0, cv_counter = 0, cv_recv_counter = 0, cv_buffer_counter = 0\<rparr>"

definition ex_lost :: client_io where
  "ex_lost = (let io = \<lparr>pi_send = - 1, pi_tx = ex_timeout, pi_echo = None, pi_text = None\<rparr>
     in \<lparr>ci_now = zero_ts, ci_probes = (io, io)\<rparr>)"

lemma ex_vars_buf: "length (cv_buf ex_vars) = BUFSIZE" "cv_counter ex_vars = 0"
  by (simp_all add: ex_vars_def client_loop_start_def sprintf_into_def zeros_def BUFSIZE_def)

lemma ex_probe_text: "\<exists>b. text_datagram (cv_buf (next_probe ex_vars)) = Some (show_int 1 @ [CHR 0x00, b])"
proof -
  have "(1 :: int) smod 255 = 1"
    by (simp add: smod_pos)
  then show ?thesis
    using probe_datagram [of 1 "cv_buf ex_vars"] ex_vars_buf length_show_int [of 1]
    by (simp add: next_probe_def Let_def)
qed

lemma batches_are_consecutive_samples_witness:
  "\<exists>r c ts fulls c' v'. client_Start ex_answers (\<lambda>_. ex_no_sample) ''node'' 1000000000 (PeerTSclient ''server'' 4000 ''eth0'' ''nats'' 0)
       = Some (r, c, True) \<and>
     client_passes (\<lambda>_. []) [ex_lost] (c, ex_vars) = Some (ts, fulls, c', v') \<and> fulls = [True] \<and>
     (\<exists>pbuf. tc_proc_ts_buffer c' = Some pbuf \<and> take 1 pbuf = ts)"
proof -
  let ?c0 = "PeerTSclient ''server'' 4000 ''eth0'' ''nats'' 0"
  have two: "[0..<2] = [0, 1]"
    by (simp add: numeral_2_eq_2)
  obtain r c where c: "client_Start ex_answers (\<lambda>_. ex_no_sample) ''node'' 1000000000 ?c0 = Some (r, c, True)"
      "tc_ts_buffer c = Some [ex_no_sample, ex_no_sample]" "tc_proc_ts_buffer c = Some [ex_no_sample, ex_no_sample]"
      "tc_ts_buf_len c = 2" "tc_tx_period_ns c = 1000000000" "\<not> tc_ptp_msgflag c"
    by (simp add: client_Start_def client_natsConnect_def open_probe_socket_def ex_answers_def PeerTSclient_def
        PTP_PORT_def Let_def two)
  obtain b where b: "text_datagram (cv_buf (next_probe ex_vars)) = Some (show_int 1 @ [CHR 0x00, b])"
    using ex_probe_text by blast
  have "client_probes (\<lambda>_. []) False (tc_ts_flag c) (ci_probes ex_lost) ex_vars = Some ([None], 0, next_probe ex_vars)"
    by (simp add: client_probes_def client_probe_def ex_lost_def b Let_def)
  moreover have "cv_buffer_counter (next_probe ex_vars) = 0"
    by (simp add: next_probe_def ex_vars_def client_loop_start_def Let_def)
  then have "\<exists>r. client_store 0 (c, next_probe ex_vars) = Some r"
    using c by (simp add: client_store_def Let_def)
  then obtain full c1 v1 where "client_store 0 (c, next_probe ex_vars) = Some (full, c1, v1)"
    by (metis prod_cases3)
  moreover have "client_wakeup 1000000000 (ci_now ex_lost) \<noteq> None"
    by (simp add: client_wakeup_def Let_def)
  ultimately obtain ts fulls c' v' where run: "client_passes (\<lambda>_. []) [ex_lost] (c, ex_vars) = Some (ts, fulls, c', v')"
    using c by (auto simp: client_pass_def)
  have "tc_ts_duration_ns ?c0 = 2000000000"
    by (simp add: PeerTSclient_def)
  note g = batches_are_consecutive_samples [OF c(1) this _ run [unfolded ex_vars_def]]
  have f: "fulls = [True]"
    using g by (cases fulls) auto
  then have "\<exists>pbuf. tc_proc_ts_buffer c' = Some pbuf \<and> take 1 pbuf = ts"
    using g by auto
  then show ?thesis
    using c(1) run f by blast
qed

lemma probe_exchange_witness:
  "\<exists>d e t s' sv' ok' stop v'.
     server_pass (ex_received d) (ex_server, ex_server_vars) = Some ([(''peer'', dg_bytes e), (''peer'', dg_bytes t)], s', sv') \<and>
     client_probe (\<lambda>_. []) False 0 0 \<lparr>pi_send = 3, pi_tx = ex_timeout, pi_echo = Some e, pi_text = Some t\<rparr> 1 ex_vars
       = Some (Some (dg_bytes d), ok', stop, v') \<and>
     cv_recv_counter v' = 1 \<and> cv_rx_timestamp_remote v' = \<lparr>tv_sec = 7, tv_nsec = 5\<rparr>"
proof -
  let ?rx = "\<lparr>tv_sec = 7, tv_nsec = 5\<rparr>"
  obtain b where b: "text_datagram (cv_buf (next_probe ex_vars)) = Some (show_int 1 @ [CHR 0x00, b])"
    using ex_probe_text by blast
  let ?bytes = "show_int 1 @ [CHR 0x00, b]" and ?text = "reply_text ?rx zero_ts 1"
  let ?e = "ex_stamped ?bytes" and ?t = "ex_stamped ?text"
  let ?io = "\<lparr>pi_send = 3, pi_tx = ex_timeout, pi_echo = Some ?e, pi_text = Some ?t\<rparr>"
  have bytes: "dg_bytes (ex_stamped bs) = bs" "dg_from (ex_stamped bs) = ''peer''" for bs
    by (simp_all add: ex_stamped_def)
  have flags: "\<not> ps_ptp_msgflag ex_server" "ps_ts_flag ex_server = 0" "ps_error_count ex_server = 0"
    by (simp_all add: ex_server_def PeerTSserver_def PeerTSserver2_def PTP_PORT_def)
  have echo: "echo_datagram False ?bytes = Some ?bytes"
    by (rule echo_text) (rule length_show_int, simp_all)
  have stamp: "get_rx_timestamp [stamp [?rx, zero_ts, zero_ts]] 0 = (0, ?rx)"
    by (simp add: get_rx_stamp pick_ts_def)
  obtain s' sv' where server: "server_pass (ex_received ?e) (ex_server, ex_server_vars)
      = Some ([(''peer'', dg_bytes ?e), (''peer'', dg_bytes ?t)], s', sv')"
    and rx: "sv_rx_timestamp sv' = ?rx"
    by (simp add: server_pass_def ex_received_def ex_server_vars_def ex_stamped_cmsgs stamp flags bytes echo ex_timeout_ok Let_def)
  obtain ok' stop v' where client: "client_probe (\<lambda>_. []) False 0 0 ?io 1 ex_vars = Some (Some (dg_bytes ?e), ok', stop, v')"
    by (simp add: client_probe_def b bytes ex_timeout_ok Let_def case_prod_unfold) (metis prod_cases3)
  have "cv_recv_counter v' = cv_counter v' \<and> cv_counter v' = (cv_counter ex_vars + 1) mod 255 \<and>
      cv_rx_timestamp_remote v' = sv_rx_timestamp sv'"
    using probe_exchange [OF client _ _ _ ex_vars_buf(1) _ _ server flags(1)] ex_vars_buf(2)
    by (simp add: ex_received_def)
  then have "cv_recv_counter v' = 1" "cv_rx_timestamp_remote v' = ?rx"
    using rx ex_vars_buf(2) by auto
  then show ?thesis
    using server client by blast
qed

end
