(* ===== verification/Peer_Receiver.thy ===== *)
theory Peer_Receiver
  imports Peer_Probes
begin

text \<open>
  The receiver of the peer synchronisation, \<open>sync-service/sync/huygens/PeerTSreceiver.cpp\<close>:
  the handler of the offsets a compute server publishes, which fills the parameter buffer
  (\<open>Ring_Buffers\<close>) and the uncertainty calculation (\<open>Sync_Uncertainty\<close>), and the peer
  service \<open>qot_peer_service.cpp\<close>, which runs a probe client, a probe server and a receiver.

  The clock parameters a receiver is given by pointer are one object: the receiver points to
  it, and the parameter buffer does when it was told.
\<close>

section \<open>State\<close>

definition PEER_M :: int where "PEER_M = 50"

definition receiver_config :: uncertainty_params where
  "receiver_config = \<lparr>up_M = PEER_M, up_N = PEER_M, up_pds = rnd64 (999999 / 1000000),
     up_pdv = rnd64 (999999 / 1000000), up_pos = rnd64 (999999 / 1000000), up_pov = rnd64 (999999 / 1000000)\<rparr>"

text \<open>\<open>rc_clk_params\<close> is the object \<open>data.clk_params\<close> points to, \<open>rc_linked\<close> tells whether the
  buffer points to it.  The global variables of the file are in \<open>receiver_globals\<close>.\<close>

record peer_receiver =
  rc_node_uuid :: string
  rc_proc_period_ns :: u64
  rc_nats_server :: string
  rc_iface :: string
  rc_disc_flag :: bool
  rc_param_buffer :: "circbuffer option"
  rc_linked :: bool
  rc_sync_uncertainty :: "sync_uncertainty option"
  rc_clk_params :: "tl_translation option"
  rc_nats_status :: int
  rc_subscribed :: "string option"

datatype clock_id = CLOCK_REALTIME | PHC int

record receiver_globals =
  rg_node_name :: string
  rg_disc_flag :: bool
  rg_set_counter :: int
  rg_clkid :: clock_id

text \<open>The constructor; it fails only where that of the uncertainty calculation throws.\<close>

definition PeerTSreceiver ::
  "prob_lib \<Rightarrow> sync_uncertainty \<Rightarrow> string \<Rightarrow> string \<Rightarrow> string \<Rightarrow> bool \<Rightarrow> receiver_globals
     \<Rightarrow> (peer_receiver \<times> receiver_globals) option" where
  "PeerTSreceiver pl junk node_name pub_server iface_name discipline_flag g = do {
     su \<leftarrow> SyncUncertainty pl junk receiver_config;
     Some (\<lparr>rc_node_uuid = node_name, rc_proc_period_ns = 1000000000, rc_nats_server = pub_server,
            rc_iface = iface_name, rc_disc_flag = discipline_flag, rc_param_buffer = None,
            rc_linked = False, rc_sync_uncertainty = Some su, rc_clk_params = None,
            rc_nats_status = NATS_ERR, rc_subscribed = None\<rparr>,
           g\<lparr>rg_node_name := node_name, rg_disc_flag := discipline_flag\<rparr>)
   }"

section \<open>Subscribing\<close>

definition receiver_natsConnect :: "int \<Rightarrow> peer_receiver \<Rightarrow> int \<times> peer_receiver" where
  "receiver_natsConnect status r = (status, r\<lparr>rc_nats_status := status\<rparr>)"

text \<open>\<open>natsSubscribe\<close>: a new parameter buffer, which points to no clock parameters; the status
  of the connection and that of the subscription.  \<open>raw\<close> is what the buffer holds.\<close>

definition receiver_natsSubscribe ::
  "(int \<Rightarrow> peer_clk_params) \<Rightarrow> int \<Rightarrow> int \<Rightarrow> string \<Rightarrow> peer_receiver \<Rightarrow> int \<times> peer_receiver" where
  "receiver_natsSubscribe raw connect subscribe topic r =
     (let r = r\<lparr>rc_param_buffer := Some (CircBuffer raw CIRBUFF_DEFSIZE_PEER), rc_linked := False\<rparr>;
          (s, r) = receiver_natsConnect connect r;
          r = (if s = NATS_OK_SYNC
               then r\<lparr>rc_nats_status := subscribe,
                      rc_subscribed := (if subscribe = NATS_OK_SYNC then Some topic else rc_subscribed r)\<rparr>
               else r)
      in (rc_nats_status r, r))"

definition receiver_natsUnSubscribe :: "peer_receiver \<Rightarrow> int \<times> peer_receiver" where
  "receiver_natsUnSubscribe r =
     (0, r\<lparr>rc_param_buffer := None, rc_linked := False, rc_subscribed := None\<rparr>)"

text \<open>The parameters are linked to the buffer only when there is one.\<close>

definition receiver_SetClkParamVar :: "tl_translation option \<Rightarrow> peer_receiver \<Rightarrow> int \<times> peer_receiver" where
  "receiver_SetClkParamVar p r =
     (let r = r\<lparr>rc_clk_params := p\<rparr>
      in if rc_param_buffer r \<noteq> None \<and> p \<noteq> None then (0, r\<lparr>rc_linked := True\<rparr>) else (- 1, r))"

text \<open>\<open>phc_initialize\<close>: the answers are whether the interface could be configured, its clock
  index when timestamping information is valid, the clock opened, and its largest
  adjustment.\<close>

record phc_answers =
  ph_interface :: bool
  ph_index :: "int option"
  ph_open :: "int option"
  ph_max_adj :: int

definition phc_initialize :: "phc_answers \<Rightarrow> receiver_globals \<Rightarrow> int \<times> receiver_globals" where
  "phc_initialize a g =
     (if \<not> ph_interface a then (- 1, g)
      else case ph_index a of
             None \<Rightarrow> (- 1, g)
           | Some i \<Rightarrow>
               if i \<ge> 0
               then case ph_open a of
                      None \<Rightarrow> (- 1, g)
                    | Some clkid \<Rightarrow> if ph_max_adj a = 0 then (- 1, g) else (0, g\<lparr>rg_clkid := PHC clkid\<rparr>)
               else (- 1, g))"

definition receiver_Start ::
  "phc_answers \<Rightarrow> (int \<Rightarrow> peer_clk_params) \<Rightarrow> int \<Rightarrow> int \<Rightarrow> u64 \<Rightarrow> peer_receiver \<times> receiver_globals
     \<Rightarrow> int \<times> peer_receiver \<times> receiver_globals" where
  "receiver_Start a raw connect subscribe period_ns rg = (case rg of (r, g) \<Rightarrow>
     (let r = r\<lparr>rc_proc_period_ns := period_ns\<rparr>;
          (n, g) = phc_initialize a g;
          g = (if n < 0 then g\<lparr>rg_clkid := CLOCK_REALTIME\<rparr> else g);
          (retval, r) = receiver_natsSubscribe raw connect subscribe ''qot.peer.offsets'' r
      in (retval, r, g)))"

definition receiver_Stop :: "peer_receiver \<Rightarrow> int \<times> peer_receiver" where
  "receiver_Stop r = (0, snd (receiver_natsUnSubscribe r))"

section \<open>The handler\<close>

text \<open>The members of the message: for each node the final time and the offset, in seconds
  (\<open>None\<close> where one is missing or no number, which throws).\<close>

type_synonym offsets_msg = "(string \<times> (double \<times> double) option) list"

text \<open>The conversion to \<open>uint64_t\<close>, undefined out of range.\<close>

definition u64_of_d :: "double \<Rightarrow> u64 option" where
  "u64_of_d x = (let i = rtrunc x in if 0 \<le> i \<and> i < 2 ^ 64 then Some (word_of_int i) else None)"

text \<open>The loop over the members: the parameters, uninitialised unless the node is among them,
  the counter, and the steps of the clock.\<close>

fun node_params ::
  "offsets_msg \<Rightarrow> receiver_globals \<Rightarrow> peer_clk_params
     \<Rightarrow> ((clock_id \<times> s64) list \<times> receiver_globals \<times> peer_clk_params) option" where
  "node_params [] g params = Some ([], g, params)"
| "node_params ((key, v) # es) g params =
     (if key = rg_node_name g
      then do {
        (final_time, offset) \<leftarrow> v;
        t \<leftarrow> u64_of_d (d_mul final_time 1000000000);
        let params = \<lparr>pc_timestamp = t, pc_offset_ns = s64_of_d (d_mul offset 1000000000)\<rparr>;
        let step = (\<bar>d_of_s64 (pc_offset_ns params)\<bar> > 10 \<and> rg_set_counter g smod 10 = 0 \<and> rg_disc_flag g);
        (steps, g, params) \<leftarrow> node_params es (g\<lparr>rg_set_counter := (rg_set_counter g + 1) smod 10\<rparr>) params;
        Some ((if step then [(rg_clkid g, - pc_offset_ns params)] else []) @ steps, g, params)
      }
      else node_params es g params)"

text \<open>Adding to the buffer, which writes the clock parameters it points to.\<close>

definition add_params ::
  "s64 \<times> double \<Rightarrow> peer_clk_params \<Rightarrow> peer_receiver \<Rightarrow> peer_receiver" where
  "add_params junk params r =
     (case rc_param_buffer r of
        None \<Rightarrow> r
      | Some b \<Rightarrow>
          let b = pb_AddElement junk params (pb_SetClkParamVar (if rc_linked r then rc_clk_params r else None) b)
          in r\<lparr>rc_param_buffer := Some b,
               rc_clk_params := (if rc_linked r then rb_clk_params b else rc_clk_params r)\<rparr>)"

text \<open>\<open>offset_handler\<close>: the steps of the clock, what is published, the new state.  The time is
  read and shifted by the buffer only to be printed, but a null buffer is dereferenced.\<close>

definition offset_handler ::
  "prob_lib \<Rightarrow> (string \<Rightarrow> int) \<Rightarrow> peer_clk_params \<Rightarrow> s64 \<times> double \<Rightarrow> offsets_msg
     \<Rightarrow> peer_receiver \<times> receiver_globals
     \<Rightarrow> ((clock_id \<times> s64) list \<times> (string \<times> json) list \<times> peer_receiver \<times> receiver_globals) option" where
  "offset_handler pl create junk_params junk data rg = (case rg of (r, g) \<Rightarrow> do {
     (steps, g, params) \<leftarrow> node_params data g junk_params;
     let r = add_params junk params r;
     b \<leftarrow> rc_param_buffer r;
     case rc_sync_uncertainty r of
       None \<Rightarrow> Some (steps, [], r, g)
     | Some su \<Rightarrow>
         if pc_offset_ns params = 0 then Some (steps, [], r, g)
         else do {
           (_, clk, es, su) \<leftarrow> CalculateBounds pl create (pc_offset_ns params) (pb_GetLatestDrift b)
                                (rc_clk_params r) ''local'' su;
           Some (steps, es, r\<lparr>rc_clk_params := clk, rc_sync_uncertainty := Some su\<rparr>, g)
         }
   })"

text \<open>A sequence of messages.\<close>

fun offset_handlers ::
  "prob_lib \<Rightarrow> (string \<Rightarrow> int) \<Rightarrow> peer_clk_params \<Rightarrow> s64 \<times> double \<Rightarrow> offsets_msg list
     \<Rightarrow> peer_receiver \<times> receiver_globals \<Rightarrow> (peer_receiver \<times> receiver_globals) option" where
  "offset_handlers pl create junk_params junk [] rg = Some rg"
| "offset_handlers pl create junk_params junk (m # ms) rg = do {
     (_, _, rg) \<leftarrow> offset_handler pl create junk_params junk m rg;
     offset_handlers pl create junk_params junk ms rg
   }"

section \<open>The peer service\<close>

record peer_options =
  po_iface :: string
  po_name :: string
  po_peerport :: int
  po_addr :: string
  po_tx_period_ns :: u64
  po_natsserver :: string
  po_discipline :: bool
  po_mode :: int
  po_timestamping :: int

definition mode_flag :: "peer_options \<Rightarrow> int" where
  "mode_flag o' = (if po_mode o' \<ge> 0 \<and> po_mode o' < 3 then po_mode o' else 0)"

definition timestamping_flag :: "peer_options \<Rightarrow> int" where
  "timestamping_flag o' = (if po_timestamping o' \<ge> 0 \<and> po_timestamping o' < 3 then po_timestamping o' else 2)"

record peer_service =
  psv_client :: ts_client
  psv_server :: peer_server
  psv_receiver :: peer_receiver
  psv_globals :: receiver_globals

text \<open>The answers of the environment while the service starts.\<close>

record peer_env =
  pe_lib :: prob_lib
  pe_su :: sync_uncertainty
  pe_server :: start_answers
  pe_client :: start_answers
  pe_probes :: "nat \<Rightarrow> probe_timestamps"
  pe_phc :: phc_answers
  pe_raw :: "int \<Rightarrow> peer_clk_params"
  pe_connect :: int
  pe_subscribe :: int

text \<open>The clock parameters of the service: only the bounds are initialised.\<close>

definition peer_clock :: "tl_translation \<Rightarrow> tl_translation" where
  "peer_clock junk = junk\<lparr>tr_u_nsec := 0, tr_l_nsec := 0, tr_u_mult := 0, tr_l_mult := 0\<rparr>"

definition peer_main_start ::
  "peer_options \<Rightarrow> peer_env \<Rightarrow> tl_translation \<Rightarrow> receiver_globals \<Rightarrow> peer_service option" where
  "peer_main_start o' e junk g = do {
     let client = PeerTSclient (po_addr o') (po_peerport o') (po_iface o') (po_natsserver o') (timestamping_flag o');
     let server = PeerTSserver2 (po_peerport o') (po_iface o') 0 (timestamping_flag o') {} Map.empty;
     (receiver, g) \<leftarrow> PeerTSreceiver (pe_lib e) (pe_su e) (po_name o') (po_natsserver o') (po_iface o') (po_discipline o') g;
     let server = (if mode_flag o' \<noteq> 1 then fst (snd (server_Start (pe_server e) (po_name o') server)) else server);
     if mode_flag o' \<noteq> 2
     then do {
       let receiver = snd (receiver_SetClkParamVar (Some (peer_clock junk)) receiver);
       (_, client, _) \<leftarrow> client_Start (pe_client e) (pe_probes e) (po_name o') (po_tx_period_ns o') client;
       let (_, receiver, g) = receiver_Start (pe_phc e) (pe_raw e) (pe_connect e) (pe_subscribe e) 2000000000 (receiver, g);
       Some \<lparr>psv_client = client, psv_server = server, psv_receiver = receiver, psv_globals = g\<rparr>
     }
     else Some \<lparr>psv_client = client, psv_server = server, psv_receiver = receiver, psv_globals = g\<rparr>
   }"

text \<open>One pass of the main loop restarts what has its error flag set; the end stops everything.\<close>

definition peer_main_pass :: "peer_options \<Rightarrow> peer_env \<Rightarrow> peer_service \<Rightarrow> peer_service option" where
  "peer_main_pass o' e s = do {
     let server = (if server_GetErrorStatus (psv_server s) \<and> mode_flag o' \<noteq> 1
                   then fst (snd (server_Start (pe_server e) (po_name o') (snd (server_Stop (psv_server s)))))
                   else psv_server s);
     client \<leftarrow> (if client_GetErrorStatus (psv_client s) \<and> mode_flag o' \<noteq> 2
                then map_option (\<lambda>(_, c, _). c)
                       (client_Start (pe_client e) (pe_probes e) (po_name o') (po_tx_period_ns o')
                         (fst (snd (client_Stop (psv_client s)))))
                else Some (psv_client s));
     Some (s\<lparr>psv_server := server, psv_client := client\<rparr>)
   }"

definition peer_main_end :: "peer_options \<Rightarrow> peer_service \<Rightarrow> peer_service" where
  "peer_main_end o' s =
     (let s = (if mode_flag o' \<noteq> 2
               then s\<lparr>psv_client := fst (snd (client_Stop (psv_client s))), psv_receiver := snd (receiver_Stop (psv_receiver s))\<rparr>
               else s)
      in if mode_flag o' \<noteq> 1 then s\<lparr>psv_server := snd (server_Stop (psv_server s))\<rparr> else s)"

section \<open>Lemmas\<close>

text \<open>The uncertainty calculation writes only the bounds of the clock parameters.\<close>

definition same_clock :: "tl_translation \<Rightarrow> tl_translation \<Rightarrow> bool" where
  "same_clock p q \<longleftrightarrow> tr_last q = tr_last p \<and> tr_mult q = tr_mult p \<and> tr_nsec q = tr_nsec p \<and> tr_slope q = tr_slope p"

lemma same_clock_trans: "same_clock p q \<Longrightarrow> same_clock q r \<Longrightarrow> same_clock p r"
  by (simp add: same_clock_def)

lemma same_clock_bounds: "same_clock p (write_bounds b p)" "same_clock p p"
  by (simp_all add: same_clock_def write_bounds_def)

lemma CalculateBounds_same_clock:
  assumes "CalculateBounds pl create offset drift (Some p) uuid su = Some (f, clk, es, su')"
  shows "\<exists>q. clk = Some q \<and> same_clock p q"
proof -
  obtain s1 where s1: "AddSample offset drift su = Some s1"
    using assms by (auto simp: CalculateBounds_def bind_eq_Some_conv)
  show ?thesis
  proof (cases "size_lt (win_samples (su_drifts s1)) (up_M (su_config s1)) \<and> size_lt (win_samples (su_offsets s1)) (up_N (su_config s1))")
    case True
    then have "clk = Some p"
      using assms by (auto simp: CalculateBounds_def s1 Let_def split: if_splits prod.splits)
    then show ?thesis
      using same_clock_bounds(2) by blast
  next
    case False
    then obtain b s2 where b: "compute_bounds pl s1 = Some (b, s2)"
      using assms by (auto simp: CalculateBounds_def s1 bind_eq_Some_conv)
    have "clk = Some (write_bounds b p)"
      using assms False by (simp add: CalculateBounds_def s1 b Let_def case_prod_unfold)
    then show ?thesis
      using same_clock_bounds(1) by blast
  qed
qed

text \<open>A receiver whose buffer points to no clock parameters.\<close>

definition unlinked :: "tl_translation \<Rightarrow> peer_receiver \<Rightarrow> bool" where
  "unlinked p r \<longleftrightarrow> \<not> rc_linked r \<and> (\<exists>q. rc_clk_params r = Some q \<and> same_clock p q)"

lemma add_params_unlinked: "unlinked p r \<Longrightarrow> unlinked p (add_params junk params r)"
  by (auto simp: unlinked_def add_params_def Let_def split: option.splits)

lemma offset_handler_unlinked:
  assumes "unlinked p r" "offset_handler pl create jp junk m (r, g) = Some (steps, es, r', g')"
  shows "unlinked p r'"
proof -
  obtain steps1 g1 params where n: "node_params m g jp = Some (steps1, g1, params)"
    using assms(2) by (auto simp: offset_handler_def bind_eq_Some_conv)
  let ?r = "add_params junk params r"
  have u: "unlinked p ?r"
    using assms(1) by (rule add_params_unlinked)
  then obtain q where q: "rc_clk_params ?r = Some q" "same_clock p q" "\<not> rc_linked ?r"
    by (auto simp: unlinked_def)
  obtain b where b: "rc_param_buffer ?r = Some b"
    using assms(2) by (auto simp: offset_handler_def n bind_eq_Some_conv Let_def)
  show ?thesis
  proof (cases "rc_sync_uncertainty ?r = None \<or> pc_offset_ns params = 0")
    case True
    then have "r' = ?r"
      using assms(2) by (auto simp: offset_handler_def n b Let_def split: option.splits)
    then show ?thesis
      using u by simp
  next
    case False
    then obtain su where su: "rc_sync_uncertainty ?r = Some su" "pc_offset_ns params \<noteq> 0"
      by auto
    obtain f clk es1 su1 where c: "CalculateBounds pl create (pc_offset_ns params) (pb_GetLatestDrift b) (Some q) ''local'' su
        = Some (f, clk, es1, su1)" "r' = ?r\<lparr>rc_clk_params := clk, rc_sync_uncertainty := Some su1\<rparr>"
      using assms(2) su by (auto simp: offset_handler_def n b q(1) Let_def bind_eq_Some_conv)
    then show ?thesis
      using CalculateBounds_same_clock [OF c(1)] q(2,3) same_clock_trans by (auto simp: unlinked_def)
  qed
qed

lemma offset_handlers_unlinked:
  "unlinked p r \<Longrightarrow> offset_handlers pl create jp junk ms (r, g) = Some (r', g') \<Longrightarrow> unlinked p r'"
proof (induction ms arbitrary: r g)
  case (Cons m ms)
  then obtain steps es r1 g1 where "offset_handler pl create jp junk m (r, g) = Some (steps, es, r1, g1)"
      "offset_handlers pl create jp junk ms (r1, g1) = Some (r', g')"
    by (auto simp: bind_eq_Some_conv)
  then show ?case
    using Cons.IH offset_handler_unlinked [OF Cons.prems(1)] by blast
qed simp

text \<open>C39: The peer service passes the receiver its clock parameters before the receiver has a
  buffer: whatever offsets arrive afterwards, the base, factor, time and slope of these
  parameters stay what they were before the start.\<close>

lemma peer_service_never_sets_clock:
  assumes "peer_main_start o' e junk_clock g = Some s" "mode_flag o' \<noteq> 2"
    and "offset_handlers pl create junk_params junk ms (psv_receiver s, psv_globals s) = Some (r, g')"
  shows "\<exists>p. rc_clk_params r = Some p \<and> same_clock junk_clock p"
proof -
  note m = assms(1) [unfolded peer_main_start_def Let_def]
  obtain rc g1 where rc: "PeerTSreceiver (pe_lib e) (pe_su e) (po_name o') (po_natsserver o') (po_iface o') (po_discipline o') g = Some (rc, g1)"
    using m by (cases "PeerTSreceiver (pe_lib e) (pe_su e) (po_name o') (po_natsserver o') (po_iface o') (po_discipline o') g") auto
  have none: "rc_param_buffer rc = None" "\<not> rc_linked rc"
    using rc by (auto simp: PeerTSreceiver_def bind_eq_Some_conv)
  let ?c = "client_Start (pe_client e) (pe_probes e) (po_name o') (po_tx_period_ns o')
    (PeerTSclient (po_addr o') (po_peerport o') (po_iface o') (po_natsserver o') (timestamping_flag o'))"
  obtain k where c: "?c = Some k"
    using m assms(2) by (cases ?c) (simp_all add: rc)
  have "psv_receiver s = fst (snd (receiver_Start (pe_phc e) (pe_raw e) (pe_connect e) (pe_subscribe e) 2000000000
      (snd (receiver_SetClkParamVar (Some (peer_clock junk_clock)) rc), g1)))"
    using m assms(2) by (clarsimp simp: rc c case_prod_unfold)
  moreover have "unlinked junk_clock (fst (snd (receiver_Start a raw con sub per
      (snd (receiver_SetClkParamVar (Some (peer_clock junk_clock)) rc), g1))))" for a raw con sub per
    using none by (simp add: receiver_Start_def receiver_natsSubscribe_def receiver_natsConnect_def
        receiver_SetClkParamVar_def unlinked_def same_clock_def peer_clock_def case_prod_unfold Let_def)
  ultimately have "unlinked junk_clock (psv_receiver s)"
    by simp
  then have "unlinked junk_clock r"
    using assms(3) by (rule offset_handlers_unlinked)
  then show ?thesis
    by (auto simp: unlinked_def)
qed

text \<open>In the other order, as in the sync service, the second sample sets the clock to the line through
  the two.\<close>

lemma linked_receiver_sets_clock:
  assumes "rc_param_buffer r = Some b" "rc_linked r" "rc_clk_params r = Some p" "rb_inv b"
    and "1 \<le> rb_current_size b" "1 < rb_buf_size b" "pc_timestamp params \<noteq> 0"
    and "rb_prev_insert_point b \<ge> 0 \<Longrightarrow> pc_timestamp params \<noteq> pc_timestamp (rb_buffer b (rb_prev_insert_point b))"
  shows "\<exists>q b'. rc_clk_params (add_params junk params r) = Some q \<and> rc_param_buffer (add_params junk params r) = Some b' \<and>
     tr_last q = 0 \<and> tr_nsec q = - rb_latest_intercept b' \<and> tr_slope q = - pb_GetLatestDrift b'"
proof -
  have "rb_current_size b < rb_buf_size b \<or> 1 < rb_current_size b"
    using assms(4-6) by (auto simp: rb_inv_def)
  then show ?thesis
    using assms(1-3,5,7,8)
    by (auto simp: add_params_def pb_AddElement_def pb_SetClkParamVar_def pb_GetLatestDrift_def Let_def)
qed


section \<open>Examples\<close>

definition ex_peer_options :: peer_options where
  "ex_peer_options = \<lparr>po_iface = ''eth0'', po_name = ''node'', po_peerport = 4000, po_addr = ''peer'',
     po_tx_period_ns = 1000000000, po_natsserver = ''nats'', po_discipline = False, po_mode = 0, po_timestamping = 0\<rparr>"

definition ex_peer_env :: peer_env where
  "ex_peer_env = \<lparr>pe_lib = ex_prob_lib, pe_su = ex_su, pe_server = ex_answers, pe_client = ex_answers,
     pe_probes = (\<lambda>_. ex_no_sample),
     pe_phc = \<lparr>ph_interface = False, ph_index = None, ph_open = None, ph_max_adj = 0\<rparr>,
     pe_raw = (\<lambda>_. \<lparr>pc_timestamp = 0, pc_offset_ns = 0\<rparr>), pe_connect = 0, pe_subscribe = 0\<rparr>"

definition ex_receiver_globals :: receiver_globals where
  "ex_receiver_globals = \<lparr>rg_node_name = [], rg_disc_flag = False, rg_set_counter = 0, rg_clkid = CLOCK_REALTIME\<rparr>"

lemma ex_peer_receiver:
  "\<exists>r g. PeerTSreceiver ex_prob_lib ex_su ''node'' ''nats'' ''eth0'' False ex_receiver_globals = Some (r, g) \<and>
     rg_node_name g = ''node''"
  by (simp add: PeerTSreceiver_def SyncUncertainty_def Configure_def get_inverse_error_func_def ex_prob_lib_def)

lemma ex_peer_client:
  "client_Start ex_answers (\<lambda>_. ex_no_sample) ''node'' 1000000000 (PeerTSclient ''peer'' 4000 ''eth0'' ''nats'' 0) \<noteq> None"
  by (simp add: client_Start_def client_natsConnect_def open_probe_socket_def ex_answers_def PeerTSclient_def PTP_PORT_def Let_def)

lemma ex_offset_message:
  assumes "rg_node_name g = ''node''" "rc_param_buffer r = Some b"
  shows "\<exists>r' g'. offset_handlers pl create jp junk [[(''node'', Some (1, 0))]] (r, g) = Some (r', g')"
proof -
  have t: "u64_of_d (d_mul 1 1000000000) = Some 1000000000" "s64_of_d (d_mul 0 1000000000) = 0"
    by (simp_all add: u64_of_d_def s64_of_d_def d_mul_def rnd_ints rtrunc_def)
  obtain s g' where n: "node_params [(''node'', Some (1, 0))] g jp = Some (s, g', \<lparr>pc_timestamp = 1000000000, pc_offset_ns = 0\<rparr>)"
    using assms(1) by (simp add: t Let_def)
  have "\<exists>b'. rc_param_buffer (add_params junk params r) = Some b'" for params
    using assms(2) by (simp add: add_params_def Let_def)
  then obtain b' where b: "rc_param_buffer (add_params junk \<lparr>pc_timestamp = 1000000000, pc_offset_ns = 0\<rparr> r) = Some b'"
    by blast
  show ?thesis
    by (simp add: offset_handler_def n b Let_def del: node_params.simps split: option.split)
qed

lemma peer_service_never_sets_clock_witness:
  "\<exists>s r g'. peer_main_start ex_peer_options ex_peer_env ex_published ex_receiver_globals = Some s \<and>
     offset_handlers ex_prob_lib (\<lambda>_. 0) \<lparr>pc_timestamp = 0, pc_offset_ns = 0\<rparr> (0, 0) [[(''node'', Some (1, 0))]]
       (psv_receiver s, psv_globals s) = Some (r, g') \<and>
     (\<exists>p. rc_clk_params r = Some p \<and> same_clock ex_published p)"
proof -
  obtain rc g where rc: "PeerTSreceiver ex_prob_lib ex_su ''node'' ''nats'' ''eth0'' False ex_receiver_globals = Some (rc, g)"
      "rg_node_name g = ''node''"
    using ex_peer_receiver by blast
  obtain n c t where c: "client_Start ex_answers (\<lambda>_. ex_no_sample) ''node'' 1000000000 (PeerTSclient ''peer'' 4000 ''eth0'' ''nats'' 0)
      = Some (n, c, t)"
    using ex_peer_client by (metis not_None_eq prod_cases3)
  let ?rc = "snd (receiver_SetClkParamVar (Some (peer_clock ex_published)) rc)"
  let ?st = "receiver_Start (pe_phc ex_peer_env) (pe_raw ex_peer_env) 0 0 2000000000 (?rc, g)"
  obtain s where s: "peer_main_start ex_peer_options ex_peer_env ex_published ex_receiver_globals = Some s"
      "psv_receiver s = fst (snd ?st)" "psv_globals s = snd (snd ?st)"
    using rc(1) c by (simp add: peer_main_start_def ex_peer_options_def ex_peer_env_def timestamping_flag_def
        mode_flag_def Let_def case_prod_unfold)
  have "rg_node_name (psv_globals s) = ''node''" "\<exists>b. rc_param_buffer (psv_receiver s) = Some b"
    using rc(2) by (simp_all add: s receiver_Start_def receiver_natsSubscribe_def receiver_natsConnect_def
        phc_initialize_def ex_peer_env_def case_prod_unfold Let_def)
  then obtain r g' where h: "offset_handlers ex_prob_lib (\<lambda>_. 0) \<lparr>pc_timestamp = 0, pc_offset_ns = 0\<rparr> (0, 0)
      [[(''node'', Some (1, 0))]] (psv_receiver s, psv_globals s) = Some (r, g')"
    using ex_offset_message by blast
  have "mode_flag ex_peer_options \<noteq> 2"
    by (simp add: mode_flag_def ex_peer_options_def)
  from peer_service_never_sets_clock [OF s(1) this h] show ?thesis
    using s(1) h by blast
qed

end
