(* ===== verification/Ptp_Message.thy ===== *)
theory Ptp_Message
  imports Peer_Probes
begin

text \<open>
  The PTP-like messages of the probes, \<open>sync/huygens/ptp_message.cpp\<close>, with the packed
  header of linuxptp's \<open>msg.h\<close> and its conversion to network order before sending
  (\<open>hdr_pre_send\<close> of \<open>msg.c\<close>).  The clock identity, derived from the address of the
  interface, is a parameter.
\<close>

unbundle bit_operations_syntax

section \<open>The header\<close>

record ptp_header =
  ph_tsmt :: "8 word"
  ph_ver :: "8 word"
  ph_messageLength :: "16 word"
  ph_domainNumber :: "8 word"
  ph_reserved1 :: "8 word"
  ph_flagField :: "8 word \<times> 8 word"
  ph_correction :: "64 word"
  ph_reserved2 :: "32 word"
  ph_clockIdentity :: "8 word list"
  ph_portNumber :: "16 word"
  ph_sequenceId :: "16 word"
  ph_control :: "8 word"
  ph_logMessageInterval :: "8 word"

text \<open>A number of \<open>n\<close> bytes in network order; \<open>reserved2\<close> is not converted.\<close>

fun net_bytes :: "nat \<Rightarrow> 'a::len word \<Rightarrow> 8 word list" where
  "net_bytes 0 w = []"
| "net_bytes (Suc n) w = ucast (drop_bit (8 * n) w) # net_bytes n w"

definition hdr_pre_send :: "ptp_header \<Rightarrow> 8 word list" where
  "hdr_pre_send m =
     [ph_tsmt m, ph_ver m] @ net_bytes 2 (ph_messageLength m) @
     [ph_domainNumber m, ph_reserved1 m, fst (ph_flagField m), snd (ph_flagField m)] @
     net_bytes 8 (ph_correction m) @ rev (net_bytes 4 (ph_reserved2 m)) @
     ph_clockIdentity m @ net_bytes 2 (ph_portNumber m) @ net_bytes 2 (ph_sequenceId m) @
     [ph_control m, ph_logMessageInterval m]"

definition CTL_DELAY_REQ :: "8 word" where "CTL_DELAY_REQ = 1"

text \<open>The size of a delay request: the header and a time stamp of ten bytes.\<close>

definition DELAY_REQ_LEN :: nat where "DELAY_REQ_LEN = 44"

definition msg_allocate :: "ptp_header \<times> 8 word list" where
  "msg_allocate =
     (\<lparr>ph_tsmt = 0, ph_ver = 0, ph_messageLength = 0, ph_domainNumber = 0, ph_reserved1 = 0,
       ph_flagField = (0, 0), ph_correction = 0, ph_reserved2 = 0, ph_clockIdentity = replicate 8 0,
       ph_portNumber = 0, ph_sequenceId = 0, ph_control = 0, ph_logMessageInterval = 0\<rparr>,
      replicate 10 0)"

text \<open>The bytes of the message after the call; the time stamp stays as it is.\<close>

definition populate_dummy_ptp_msg ::
  "8 word list \<Rightarrow> ptp_header \<times> 8 word list \<Rightarrow> 16 word \<Rightarrow> 8 word list" where
  "populate_dummy_ptp_msg clk_id msg sequence_id =
     hdr_pre_send ((fst msg)\<lparr>ph_tsmt := 0x1 OR 0x0, ph_ver := 2,
       ph_messageLength := of_nat DELAY_REQ_LEN, ph_domainNumber := 0, ph_correction := 0,
       ph_clockIdentity := clk_id, ph_portNumber := 1280, ph_sequenceId := sequence_id,
       ph_control := CTL_DELAY_REQ, ph_logMessageInterval := 0x7f\<rparr>) @ snd msg"

definition get_dummy_msg_len :: "8 word list \<Rightarrow> nat" where
  "get_dummy_msg_len bytes = 256 * unat (bytes ! 2) + unat (bytes ! 3)"

text \<open>What the client sends as its probe with a number.\<close>

definition ptp_probe :: "8 word list \<Rightarrow> int \<Rightarrow> string" where
  "ptp_probe clk_id counter =
     (let bytes = populate_dummy_ptp_msg clk_id msg_allocate (word_of_int counter)
      in map (\<lambda>b. char_of (unat b)) (take (get_dummy_msg_len bytes) bytes))"

section \<open>Lemmas\<close>

lemma length_net_bytes: "length (net_bytes n w) = n"
  by (induction n) simp_all

lemma net_bytes_2: "net_bytes 2 w = [ucast (drop_bit 8 w), ucast w]"
  by (simp add: numeral_2_eq_2)

lemma dummy_msg_length:
  assumes "length clk_id = 8"
  shows "length (populate_dummy_ptp_msg clk_id msg_allocate i) = DELAY_REQ_LEN"
    "get_dummy_msg_len (populate_dummy_ptp_msg clk_id msg_allocate i) = DELAY_REQ_LEN"
  using assms
  by (simp_all add: populate_dummy_ptp_msg_def hdr_pre_send_def length_net_bytes net_bytes_2 DELAY_REQ_LEN_def
      msg_allocate_def get_dummy_msg_len_def)

text \<open>The probe has 44 bytes and carries its number in network order.\<close>

lemma ptp_probe_sequence:
  assumes "length clk_id = 8" "0 \<le> counter" "counter < 255"
  shows "length (ptp_probe clk_id counter) = 44 \<and>
     ptp_probe clk_id counter ! 30 = CHR 0x00 \<and> ptp_probe clk_id counter ! 31 = char_of (nat counter)"
proof -
  let ?w = "word_of_int counter :: 16 word"
  let ?b = "populate_dummy_ptp_msg clk_id msg_allocate ?w"
  note len = dummy_msg_length [OF assms(1), of ?w, unfolded DELAY_REQ_LEN_def]
  have p: "ptp_probe clk_id counter = map (\<lambda>b. char_of (unat b)) ?b"
    using len by (simp add: ptp_probe_def Let_def)
  have b: "?b ! 30 = ucast (drop_bit 8 ?w)" "?b ! 31 = ucast ?w"
    using assms(1)
    by (simp_all add: populate_dummy_ptp_msg_def hdr_pre_send_def length_net_bytes net_bytes_2 nth_append)
  have u: "unat ?w = nat counter"
    using assms(2,3) by (simp add: unat_eq_nat_uint uint_word_of_int)
  have "unat (ucast (drop_bit 8 ?w) :: 8 word) = 0"
    using assms(2,3) u by (simp add: unsigned_ucast_eq unat_div drop_bit_eq_div take_bit_eq_mod nat_less_iff)
  moreover have "unat (ucast ?w :: 8 word) = nat counter"
    using assms(2,3) u by (simp add: unsigned_ucast_eq take_bit_eq_mod nat_less_iff)
  moreover have "char_of (0 :: nat) = CHR 0x00"
    by (simp add: char_of_def)
  ultimately show ?thesis
    using len by (simp add: p b)
qed

end
