(* ===== verification/Pid_Servo.thy ===== *)
theory Pid_Servo
  imports Double_Fp
begin

text \<open>
  The controller of \<open>sync-service/sync/pid/pid.cpp\<close>: a PID step with a bounded output.
  Nothing in the services calls it yet.
\<close>

record pid =
  pid_dt :: double
  pid_max :: double
  pid_min :: double
  pid_Kp :: double
  pid_Kd :: double
  pid_Ki :: double
  pid_pre_error :: double
  pid_integral :: double

definition PID :: "double \<Rightarrow> double \<Rightarrow> double \<Rightarrow> double \<Rightarrow> double \<Rightarrow> double \<Rightarrow> pid" where
  "PID dt max' min' Kp Kd Ki =
     \<lparr>pid_dt = dt, pid_max = max', pid_min = min', pid_Kp = Kp, pid_Kd = Kd, pid_Ki = Ki,
      pid_pre_error = 0, pid_integral = 0\<rparr>"

text \<open>A step of zero length divides by zero.\<close>

definition pid_calculate :: "double \<Rightarrow> double \<Rightarrow> pid \<Rightarrow> (double \<times> pid) option" where
  "pid_calculate setpoint pv p =
     (if pid_dt p = 0 then None
      else let error = d_sub setpoint pv;
               Pout = d_mul (pid_Kp p) error;
               integral = d_add (pid_integral p) (d_mul error (pid_dt p));
               Iout = d_mul (pid_Ki p) integral;
               derivative = d_div (d_sub error (pid_pre_error p)) (pid_dt p);
               Dout = d_mul (pid_Kd p) derivative;
               output = d_add (d_add Pout Iout) Dout;
               output = (if output > pid_max p then pid_max p
                         else if output < pid_min p then pid_min p else output)
           in Some (output, p\<lparr>pid_pre_error := error, pid_integral := integral\<rparr>))"

lemma pid_output_bounded:
  assumes "pid_calculate setpoint pv p = Some (out, p')" "pid_min p \<le> pid_max p"
  shows "pid_min p \<le> out \<and> out \<le> pid_max p \<and> pid_min p' = pid_min p \<and> pid_max p' = pid_max p"
  using assms by (auto simp: pid_calculate_def Let_def split: if_splits)

text \<open>Without an integral and a derivative part the output follows the setpoint.\<close>

lemma pid_proportional_mono:
  assumes "pid_Ki p = 0" "pid_Kd p = 0" "0 \<le> pid_Kp p" "s \<le> s'"
    and "pid_calculate s pv p = Some (out, p1)" "pid_calculate s' pv p = Some (out', p2)"
    and "pid_min p \<le> pid_max p"
  shows "out \<le> out'"
proof -
  let ?f = "\<lambda>s. rnd64 (rnd64 (rnd64 (pid_Kp p * rnd64 (s - pv))))"
  have "?f s \<le> ?f s'"
    using assms(3,4) by (intro rnd64_mono mult_left_mono) simp_all
  then show ?thesis
    using assms by (auto simp: pid_calculate_def Let_def d_add_def d_mul_def d_sub_def split: if_splits)
qed

text \<open>The integral grows while the output stands at its bound.\<close>

lemma pid_integral_grows:
  assumes "pid_calculate setpoint pv p = Some (out, p')" "pv < setpoint" "0 < pid_dt p" "0 \<le> pid_integral p"
  shows "0 < pid_integral p'"
proof -
  have e: "0 < rnd64 (setpoint - pv) * pid_dt p"
    using assms(2,3) by (intro mult_pos_pos rnd64_pos) simp_all
  then have "0 < rnd64 (rnd64 (setpoint - pv) * pid_dt p)"
    by (rule rnd64_pos)
  then have "0 < rnd64 (pid_integral p + rnd64 (rnd64 (setpoint - pv) * pid_dt p))"
    using assms(4) by (rule rnd64_pos [OF add_nonneg_pos, rotated])
  moreover have "pid_integral p' = rnd64 (pid_integral p + rnd64 (rnd64 (setpoint - pv) * pid_dt p))"
    using assms(1) by (auto simp: pid_calculate_def Let_def d_add_def d_mul_def d_sub_def split: if_splits)
  ultimately show ?thesis
    by simp
qed

end
