(* ===== verification/Spec2Isabelle.thy ===== *)
theory Spec2Isabelle
  imports Core_Api Tl_Comm Service_Replies Sync_Comm Coordination_Rest Peer_Receiver
    Ptp_Message Pid_Servo
begin

text \<open>
  The quality-of-time stack for Linux: timelines shared by nodes, clocks that a program
  binds to with a demanded accuracy, and services that synchronise the clocks until the
  demand is met.  This development models its C++ core, \<open>src/src\<close>.

  \<^bold>\<open>The parts and how they interact.\<close>  A program uses the client library
  (\<open>api/cpp/qot_coreapi.cpp\<close>); it asks the timeline service
  (\<open>micro-services/timeline-service\<close>) over a socket, in JSON, to create timelines and
  bindings, and maps the clock parameters of its timelines.  The timeline service tells
  the sync service (\<open>micro-services/sync-service\<close>) which quality each timeline needs; the
  sync service starts NTP for global timelines and PTP or peer synchronisation for
  local ones, estimates the uncertainty of the clocks, and publishes their parameters.

  \<^bold>\<open>The theories.\<close>
  \<^item> \<open>Qot_Prelude\<close>, \<open>Double_Fp\<close>: integers of a fixed width written out, strings, and double
    arithmetic as exact rational arithmetic rounded to 53 bits (no infinities: the
    values stay far from the limits of the exponent).
  \<^item> \<open>Qot_Types\<close>, \<open>Time_Math\<close>: the records and the arithmetic of \<open>qot_types.h\<close> on 64-bit
    words: conversions, comparison, sums and differences.
  \<^item> \<open>Ring_Buffers\<close>: the two ring buffers, of clock parameters (\<open>clkparams_circbuffer.cpp\<close>) and
    of peer offsets (\<open>huygens/CircBuffer.cpp\<close>), as refinements of bounded lists.
  \<^item> \<open>Wire_Json\<close>: the messages of both services and their JSON forms.
  \<^item> \<open>Clock_Translation\<close>, \<open>Core_Api\<close>: the client library: projection between core and
    timeline time, requests, binding, waiting.
  \<^item> \<open>Timeline_Registry\<close>, \<open>Timeline_Clock\<close>, \<open>Timeline_Core\<close>, \<open>Timeline_Service\<close>: the timeline
    service from its registry up to the request loop; \<open>Service_Replies\<close>: the types of its
    answers; \<open>Coordination_Rest\<close>: its REST interface and its subscriber
    (\<open>qot_timeline_rest.cpp\<close>, \<open>qot_timeline_subscriber.cpp\<close>); \<open>Sync_Comm\<close>: its
    communicator with the sync service (\<open>qot_synccomm.cpp\<close>).
  \<^item> \<open>Sync_Uncertainty\<close>: \<open>SyncUncertainty.cpp\<close>; \<open>Sync_Base\<close>: what the plug-ins share;
    \<open>Ptp_Sync\<close> and \<open>Ntp_Sync\<close>: the plug-ins \<open>PTP18.cpp\<close> and \<open>NTP18.cpp\<close>; \<open>Tl_Comm\<close>: their way
    back to the timeline service; \<open>Sync_Service\<close>: \<open>qot_sync_service.cpp\<close>.
  \<^item> \<open>Time_Stamping\<close>: enabling and reading the timestamps of packets (\<open>Timestamping.cpp\<close>,
    \<open>ptp_message.cpp\<close>); \<open>Peer_Server\<close> and \<open>Peer_Probes\<close>: the two ends of the exchange of
    probes (\<open>PeerTSserver.cpp\<close>, \<open>PeerTSclient.cpp\<close>) with \<open>Number_Text\<close> for the numbers in
    their texts and \<open>Ptp_Message\<close> for the PTP-like messages; \<open>Svm_Line\<close>: the estimate of offset and drift (\<open>SVMprocessor.cpp\<close>);
    \<open>Peer_Receiver\<close>: the receiver of the offsets and the peer service
    (\<open>PeerTSreceiver.cpp\<close>, \<open>qot_peer_service.cpp\<close>); \<open>Pid_Servo\<close>: \<open>pid.cpp\<close>.
  \<^item> this theory: properties across the two services.

  \<^bold>\<open>How code is translated.\<close>  A class is a record of its members, a call a function that
  returns the updated record; globals are records of their own.  \<open>None\<close> is the end of the
  process or a call that never returns: a null or dangling pointer, an exception nobody
  catches, a mutex that is held.  Calls that act on the outside (system calls, REST,
  NATS, the daemons) are listed in a trace, what the outside answers comes from an
  environment record; uninitialised memory is a parameter (\<open>junk\<close>).  The JSON text form
  and the quantile functions of Boost are parameters as well.  Threads run in the
  order of explicit sequences: the iterations of the PTP thread and the passes of the
  NTP monitor are lists of what the surroundings leave for each, deferred work of the
  sync service runs between two requests, and the thread that processes a batch of
  probes takes one step for each batch the probing thread hands over.  A division of
  doubles by zero is excluded or an error where the code does not go on with its
  result; where it does, in the SVM, the values are of a type with an element for what
  is no number (\<open>Svm_Line\<close>).

  \<^bold>\<open>What the lemmas show.\<close>  Invariants and survival: registry, timelines and services keep
  their invariants over every sequence of requests.  Which request makes the timeline
  service block or end, and which leaves a mutex held, is stated exactly
  (\<open>service_blocks_exactly\<close>): it can happen, by an unknown index or an update of a binding.
  So is which request ends the sync service (\<open>sync_service_ends_exactly\<close>): the one that
  takes the last pointer from a plug-in, which is deleted without a virtual destructor.
  Functional behaviour: bindings, the aggregate demand, projections, waiting, bounds,
  tuning of the rate.  Refinement: the ring buffers, the decision about the rate.  Round
  trips of messages, times and bindings; a binding of the client library and its
  release leave no mapping, buffer, subscription or connection behind.  Across
  components: the coordination id becomes the PTP domain (modulo 256), a time server
  reaches the NTP plug-in, a request to the sync service brings back its answer, the
  aggregate demand is the last request to the coordination service, a probe and its
  answer give the client the server's timestamps, from which a batch derives bounds that
  enclose the offset of the two clocks.  Error lemmas state what the code does wrong, as
  it does it.

  \<^bold>\<open>Bounds and fuel.\<close>  Loops over received data are functions of the list of reads; the
  receive loop of the client is a partial function shown to end with the first read
  that does not fill its buffer.  Numbers of configurations are bounded by the arrays
  of \<open>MAX_TIMELINES\<close> elements, identifiers by 32 bits.

  \<^bold>\<open>Not modelled.\<close>  Vendored daemons and libraries (chrony, linuxptp, libsvm, JSON); where
  the code calls them they are parameters, among them the training of the SVM.  The
  Python and Go services, the kernel module's
  \<open>ioctl\<close> variant of the client, option parsing, signals and shutdown, floating-point
  exceptions.
\<close>


section \<open>The time server of a timeline, from the registry to the plug-in\<close>

lemma request_arrives:
  assumes "tlmsg_ok (comm_request junk mt i)"
    and "deserialize_tlmsg (serialize_tlmsg (comm_request junk mt i)) m0 = Some m"
  shows "tlmsg_ok m" "tm_msgtype m = mt" "tln_index (tm_info m) = i"
  using assms(2) unfolding tlmsg_read_back [OF assms(1)]
  using assms(1) by (auto simp: comm_request_def tlmsg_ok_def)

lemma served_server:
  assumes "svc_inv s" "\<not> reg_locked (svc_reg s)" "reg_class (svc_reg s) i = Some a" "svc_heap s a = Some c"
    and "env_servers env (tln_name (c_info c)) = Some (sv # svs)"
    and "tm_msgtype m = TIMELINE_GET_SERVER" "tln_index (tm_info m) = i"
    and "serve env sd m s = Some (rep, s')"
  shows "rep = m\<lparr>tm_aux_data := show_server sv, tm_retval := QOT_RETURN_TYPE_OK\<rparr>"
proof -
  obtain c' where "get_tl i s = Some (Some (a, c'), s)" "svc_heap s a = Some c'"
    using assms(1-3) by (rule get_tl_hit)
  with assms(4) have "get_tl i s = Some (Some (a, c), s)"
    by simp
  then show ?thesis
    using assms(5-8) by (simp add: serve_def handle_get_server_def c_get_server_def Let_def)
qed

text \<open>C5: The time server known for a timeline reaches the NTP plug-in: a request of the plug-
  in's communicator, served by the timeline service, returns success and fills in the host
  name, type and stratum the coordination service has, through both text forms.\<close>

lemma timeline_server_reaches_plugin:
  assumes "svc_inv s" "\<not> reg_locked (svc_reg s)" "reg_class (svc_reg s) i = Some a" "svc_heap s a = Some c"
    and "env_servers env (tln_name (c_info c)) = Some (sv # svs)"
    and "sv_hostname sv \<noteq> []" "sv_type sv \<noteq> []" "int32 (sv_stratum sv)"
    and "\<forall>c \<in> set (sv_hostname sv) \<union> set (sv_type sv). \<not> is_space c"
    and "tlmsg_ok (comm_request junk TIMELINE_GET_SERVER i)" "h_send h (h_dump h (serialize_tlmsg (comm_request junk TIMELINE_GET_SERVER i))) w = (n, w1)" "0 < n"
    and "deserialize_tlmsg (serialize_tlmsg (comm_request junk TIMELINE_GET_SERVER i)) m0 = Some m" "serve env sd m s = Some (rep, s')"
    and "h_recv h w1 = Some (Read_bytes (h_dump h (serialize_tlmsg rep)), w2)"
    and "length (h_dump h (serialize_tlmsg rep)) < MAX_BUF_LENGTH"
    and "\<And>k. h_parse h (h_dump h (serialize_tlmsg rep) @ replicate k (CHR 0x00)) = Some (serialize_tlmsg rep)"
  shows "get_timeline_server h junk i server w =
     Some (0, server\<lparr>sv_hostname := sv_hostname sv, sv_type := sv_type sv, sv_stratum := sv_stratum sv\<rparr>, w2)"
proof -
  note m = request_arrives [OF assms(10,13)]
  have rep: "rep = m\<lparr>tm_aux_data := show_server sv, tm_retval := QOT_RETURN_TYPE_OK\<rparr>"
    by (rule served_server [OF assms(1-5) m(2,3) assms(14)])
  have ok: "tlmsg_ok rep"
    using m(1) by (simp add: rep tlmsg_ok_def return_ok_def return_of_int_def int32_def)
  have mt: "tm_msgtype (comm_request junk TIMELINE_GET_SERVER i) = TIMELINE_GET_SERVER"
    by (simp add: comm_request_def)
  have "comm_send_message h (comm_request junk TIMELINE_GET_SERVER i) w =
     Some (tm_retval rep, rep\<lparr>tm_binding := (tm_binding (comm_request junk TIMELINE_GET_SERVER i))
          \<lparr>bd_name := bd_name (tm_binding rep), bd_id := bd_id (tm_binding rep), bd_demand := tm_demand rep\<rparr>\<rparr>, w2)"
    by (rule comm_send_message_reply [OF _ _ assms(11) assms(12,15-17) ok])
      (simp_all add: mt)
  then show ?thesis
    by (simp add: get_timeline_server_def rep server_parse_show [OF assms(6-9)])
qed

lemma ex_request_ok: "tlmsg_ok (comm_request (ex_msg TIMELINE_INFO 0) TIMELINE_GET_SERVER 0)"
  by (simp add: comm_request_def ex_msg_def ex_binding_def tlmsg_ok_def name_ok_def QOT_MAX_NAMELEN_def
      int32_def timeline_type_ok_def timeline_type_of_int_def tlmsg_type_ok_def tlmsg_of_int_def
      tlmsg_names_def return_ok_def return_of_int_def)

lemma timeline_server_reaches_plugin_witness:
  "\<exists>h :: unit host. get_timeline_server h (ex_msg TIMELINE_INFO 0) 0 (ex_time_server\<lparr>sv_hostname := []\<rparr>) ()
     = Some (0, ex_time_server, ())"
proof -
  let ?env = "ex_env\<lparr>env_servers := \<lambda>_. Some [ex_time_server]\<rparr>" and ?junk = "ex_msg TIMELINE_INFO 0"
  let ?q = "comm_request ?junk TIMELINE_GET_SERVER 0"
  obtain s c where s: "svc_inv s" "\<not> reg_locked (svc_reg s)" "reg_class (svc_reg s) 0 = Some 0" "svc_heap s 0 = Some c"
    using ex_startup by (metis fun_upd_same)
  obtain m where m: "deserialize_tlmsg (serialize_tlmsg ?q) ?junk = Some m"
    using tlmsg_read_back [OF ex_request_ok] by blast
  note q = request_arrives [OF ex_request_ok m]
  obtain rep s' where rep: "serve ?env 4 m s = Some (rep, s')"
  proof -
    obtain c' where "get_tl 0 s = Some (Some (0, c'), s)"
      using s(1-3) by (rule get_tl_hit)
    then show thesis
      using that q by (simp add: serve_def handle_get_server_def c_get_server_def Let_def)
  qed
  define h where "h = ex_host\<lparr>h_parse := \<lambda>t. if c_str t = ''{}'' then Some (serialize_tlmsg rep) else None\<rparr>"
  have nul: "c_str (''{}'' @ replicate k (CHR 0x00)) = ''{}''" for k
    by (cases k) (simp_all add: c_str_def)
  have h: "h_dump h j = ''{}''" "h_send h t () = (2, ())" "h_recv h () = Some (Read_bytes ''{}'', ())"
      "h_parse h (''{}'' @ replicate k (CHR 0x00)) = Some (serialize_tlmsg rep)" for j t k
    using nul [of k] by (simp_all add: h_def ex_host_def)
  have "get_timeline_server h ?junk 0 (ex_time_server\<lparr>sv_hostname := []\<rparr>) () = Some (0, (ex_time_server\<lparr>sv_hostname := []\<rparr>)
      \<lparr>sv_hostname := sv_hostname ex_time_server, sv_type := sv_type ex_time_server, sv_stratum := sv_stratum ex_time_server\<rparr>, ())"
    by (rule timeline_server_reaches_plugin [OF s, where env = ?env and sv = ex_time_server and svs = "[]" and n = 2
          and ?w1.0 = "()" and ?m0.0 = ?junk and m = m and sd = 4 and rep = rep and s' = s'])
      (use ex_request_ok m rep h in \<open>simp_all add: ex_time_server_def is_space_def int32_def MAX_BUF_LENGTH_def\<close>)
  then show ?thesis
    by (auto simp: ex_time_server_def)
qed

section \<open>From the coordination service to the domain of PTP\<close>

text \<open>The first binding of a local timeline without peers whose metadata is not set: the request to
  the sync service carries the coordination id.\<close>

lemma first_binding_request:
  assumes "core_inv c" "\<not> c_binding_locked c" "c_binding_ids c = {}" "c_peers c = []"
    and "tln_type (c_info c) = QOT_TIMELINE_LOCAL" "env_metadata env (tln_name (c_info c)) = Some ''NULL''"
    and "env_coord_id env (tln_name (c_info c)) = Some coord"
  obtains b' c' w' d where "create_binding env b c w = Some (QOT_RETURN_TYPE_OK, b', c', w')"
    "Sync_request \<lparr>sm_info = c_info c, sm_demand = d, sm_msgtype = TL_CREATE_UPDATE,
       sm_data = show_int coord, sm_retval = env_junk_retval env\<rparr> \<in> set (w_trace w')"
    "d = aggregate_demand (c_binding_map c')"
proof -
  let ?b = "b\<lparr>bd_id := 0\<rparr>"
  let ?c = "c\<lparr>c_binding_locked := True, c_binding_ids := {0}, c_binding_map := (c_binding_map c)(0 \<mapsto> ?b)\<rparr>"
  let ?data = "show_int coord"
  obtain k where k: "c_tl_clock ?c = Some k"
    using assms(1) by (auto simp: core_inv_def)
  obtain es where a: "announce_binding env ?b (TL_TO_nSEC (above (tq_accuracy (bd_demand ?b))))
      (TL_TO_nSEC (tq_resolution (bd_demand ?b))) ?c w = Some (?data, emit es w)"
    using assms(4-7) by (simp add: announce_binding_def first_binding_metadata_def Let_def)
  obtain es' where u: "update_timeline_qot env ?data ?c (emit es w) = Some
      (?c\<lparr>c_overlay := map_option (\<lambda>ov. ov\<lparr>tc_quality := qot_of_bindings (c_binding_map ?c)\<rparr>) (c_overlay ?c)\<rparr>,
       emit es' (main_set_quality k (qot_of_bindings (c_binding_map ?c)) (emit es w)))"
    "c_binding_map ?c \<noteq> Map.empty \<Longrightarrow> Sync_request \<lparr>sm_info = c_info ?c,
       sm_demand = aggregate_demand (c_binding_map ?c), sm_msgtype = TL_CREATE_UPDATE, sm_data = ?data,
       sm_retval = env_junk_retval env\<rparr> \<in> set es'"
    by (rule update_timeline_qot_eq [OF k, of env ?data "emit es w"]) blast
  let ?c' = "?c\<lparr>c_overlay := map_option (\<lambda>ov. ov\<lparr>tc_quality := qot_of_bindings (c_binding_map ?c)\<rparr>) (c_overlay ?c)\<rparr>"
  have "create_binding env b c w = Some (QOT_RETURN_TYPE_OK, ?b, binding_unlock ?c',
      emit es' (main_set_quality k (qot_of_bindings (c_binding_map ?c)) (emit es w)))"
    using assms(2,3) a u(1) by (simp add: create_binding_def binding_lock_def next_binding_id_def Let_def)
  then show thesis
    by (rule that) (use u(2) in \<open>simp_all add: emit_def\<close>)
qed

text \<open>C3: From the coordination service to PTP, across the two services, in PTP mode: the first
  binding of a local timeline without peers, with index from 0 to MAX_TIMELINES - 1 and
  metadata not set, sends the sync service the timeline's coordination id; the message
  survives the JSON form; when the sync service does not know the timeline and LocalSync's
  plug-in, if any, still serves a timeline, it starts PTP for the timeline, and the domain
  number that linuxptp's clock stores is the id modulo 256 (it has 8 bits), hence the id
  itself for the documented domains 0 to 127.\<close>

lemma coordination_id_becomes_ptp_domain:
  assumes "core_inv c" "\<not> c_binding_locked c" "c_binding_ids c = {}" "c_peers c = []"
    and "tln_type (c_info c) = QOT_TIMELINE_LOCAL" "env_metadata env (tln_name (c_info c)) = Some ''NULL''"
    and "env_coord_id env (tln_name (c_info c)) = Some coord" "int32 coord"
    and "name_ok (tln_name (c_info c))" "return_ok (env_junk_retval env)"
    and "sync_reach opts s" "sync_lib_ok senv" "map_of (ss_syncmap s) (tln_name (c_info c)) = None" "local_in_use s"
    and "0 \<le> tln_index (c_info c)" "tln_index (c_info c) < MAX_TIMELINES"
  shows "\<exists>b' c' w' req m m' s' n p domain. create_binding env b c w = Some (QOT_RETURN_TYPE_OK, b', c', w') \<and>
     Sync_request req \<in> set (w_trace w') \<and> deserialize_syncmsg (serialize_syncmsg req) m0 = Some m \<and>
     sync_serve opts senv m s = Some (m', s') \<and>
     ss_local s' = Some n \<and> get_plugin n s' = Some p \<and> pt_thread p \<and> pt_timeline_uuid p = tln_name (c_info c) \<and>
     clock_domain (pt_cfg p) (ss_ptp s') = Some domain \<and> uint domain = coord mod 256 \<and>
     (0 \<le> coord \<and> coord \<le> 127 \<longrightarrow> uint domain = coord)"
proof -
  obtain b' c' w' d where c': "create_binding env b c w = Some (QOT_RETURN_TYPE_OK, b', c', w')"
    and e: "Sync_request \<lparr>sm_info = c_info c, sm_demand = d, sm_msgtype = TL_CREATE_UPDATE,
       sm_data = show_int coord, sm_retval = env_junk_retval env\<rparr> \<in> set (w_trace w')"
    using assms(1-7) by (rule first_binding_request)
  let ?req = "\<lparr>sm_info = c_info c, sm_demand = d, sm_msgtype = TL_CREATE_UPDATE,
       sm_data = show_int coord, sm_retval = env_junk_retval env\<rparr>"
  have "syncmsg_ok ?req"
    using assms(5,9,10,15,16) by (simp add: syncmsg_ok_def int32_def MAX_TIMELINES_def timeline_type_ok_def
        timeline_type_of_int_def csmsg_type_ok_def csmsg_of_int_def)
  then have rb: "deserialize_syncmsg (serialize_syncmsg ?req) m0 = Some ?req"
    by (rule syncmsg_read_back)
  have "sync_request_ok ?req s"
    using assms(5,8,13,15,16) by (simp add: sync_request_ok_def stoi_auto_show_int)
  then obtain m' s' where s': "sync_serve opts senv ?req s = Some (m', s')" "sound_but {} s'" "ss_local s' = Some (ss_next s)"
    "runs_for (tln_name (sm_info ?req)) (ss_next s) s'" "pg_items (ss_ptp s') ''domainNumber'' = coord"
    by (elim serve_new_local [OF sync_reach_ok [OF assms(11)] assms(12), of ?req coord, rotated])
      (use assms(5,8,13,14) in \<open>simp_all add: stoi_auto_show_int\<close>)
  then obtain p where p: "get_plugin (ss_next s) s' = Some p" "pt_thread p" "pt_timeline_uuid p = tln_name (c_info c)"
    by (auto simp: runs_for_def)
  have "clock_domain (pt_cfg p) (ss_ptp s') = Some (word_of_int coord)"
    using running_domain [OF s'(2) p(1,2)] s'(5) by (simp add: clock_domain_def)
  moreover have "uint (word_of_int coord :: 8 word) = coord mod 256"
    by (simp add: uint_word_of_int)
  ultimately show ?thesis
    using c' e rb s'(1,3) p by fastforce
qed

definition ex_local_core :: timeline_core where
  "ex_local_core = ex_core\<lparr>c_info := \<lparr>tln_name = ''tl'', tln_index = 1, tln_type = QOT_TIMELINE_LOCAL\<rparr>,
     c_tl_clock := Some LocalClock, c_binding_map := Map.empty, c_binding_ids := {}\<rparr>"

lemma coordination_id_becomes_ptp_domain_witness:
  "\<forall>w. \<exists>b' c' w' m m' s' n p domain. create_binding ex_env ex_binding ex_local_core w = Some (QOT_RETURN_TYPE_OK, b', c', w') \<and>
     sync_serve (ex_sync_options 0) ex_sync_env m (ex_service 0) = Some (m', s') \<and> get_plugin n s' = Some p \<and>
     clock_domain (pt_cfg p) (ss_ptp s') = Some domain \<and> uint domain = 7"
proof
  fix w
  have c: "core_inv ex_local_core" "\<not> c_binding_locked ex_local_core" "c_binding_ids ex_local_core = {}"
      "c_peers ex_local_core = []" "c_info ex_local_core = \<lparr>tln_name = ''tl'', tln_index = 1, tln_type = QOT_TIMELINE_LOCAL\<rparr>"
    by (simp_all add: ex_local_core_def ex_core_def core_inv_def)
  have e: "env_metadata ex_env nm = Some ''NULL''" "env_coord_id ex_env nm = Some 7" "return_ok (env_junk_retval ex_env)" for nm
    by (simp_all add: ex_env_def)
  show "\<exists>b' c' w' m m' s' n p domain. create_binding ex_env ex_binding ex_local_core w = Some (QOT_RETURN_TYPE_OK, b', c', w') \<and>
     sync_serve (ex_sync_options 0) ex_sync_env m (ex_service 0) = Some (m', s') \<and> get_plugin n s' = Some p \<and>
     clock_domain (pt_cfg p) (ss_ptp s') = Some domain \<and> uint domain = 7"
    using coordination_id_becomes_ptp_domain [where env = ex_env and b = ex_binding and w = w,
        OF c(1-4) _ e(1) e(2) _ _ e(3) ex_service_reach ex_lib_ok _ ex_service_in_use]
    by (simp add: c(5) int32_def name_ok_def QOT_MAX_NAMELEN_def MAX_TIMELINES_def) blast
qed

end
